(* ===== verification/Prelude.thy ===== *)
theory Prelude
  imports Main "HOL-Library.Word"
begin

text \<open>
  Shared ground of the development: the types of the Python values the program handles (byte
  strings, character strings, exceptions, results), the sequencing of fallible steps, the slicing
  and padding operations of \<^verbatim>\<open>bytes\<close>, and the generic list lemmas the components use.

  Conventions.
  \<^item> \<^verbatim>\<open>bytes\<close> is a list of 8-bit words; a \<^verbatim>\<open>str\<close> is a HOL \<^typ>\<open>string\<close>, whose characters are the
    code points below 256, and \<^verbatim>\<open>encode()\<close> is UTF-8 on them. Text with other code points is
    outside the model.
  \<^item> A call that can raise returns a sum: \<open>Inl\<close> carries the exception, \<open>Inr\<close> the value. An
    exception keeps its class and the constant text of its message; interpolated values that only
    reach a log line are left out.
  \<^item> Indices that the source writes as constants or lengths are \<^typ>\<open>nat\<close>; where the source
    allows a negative index (\<^verbatim>\<open>ProtectedMemory\<close>) the model uses \<^typ>\<open>int\<close>.
\<close>

section \<open>Collections of facts\<close>

named_theorems py_simps \<open>equations that evaluate the modelled Python operations\<close>
named_theorems res_dests \<open>inversion rules for results of fallible steps\<close>

section \<open>Bytes, strings, exceptions, results\<close>

type_synonym byte = "8 word"
type_synonym bytes = "byte list"

text \<open>
  The exception classes the program raises or lets through. The two modules
  \<^verbatim>\<open>cloud_protection\<close> and \<^verbatim>\<open>snp_verify\<close> each define a class of their own named
  \<^verbatim>\<open>AttestationError\<close>; neither is a subclass of the other.
\<close>

datatype exn =
    CloudAttestationError string
  | SnpAttestationError string
  | KrsError string
  | RustUnwrapError string
  | RuntimeError string
  | ValueError string
  | BinasciiError string
  | JSONDecodeError
  | KeyError string
  | TypeError
  | IndexError
  | AttributeError
  | OverflowError
  | StructError
  | InvalidSignature
  | InvalidTag
  | FileNotFoundError
  | OSError
  | TimeoutExpired
  | ImportError
  | OtherError string

type_synonym 'a res = "exn + 'a"

text \<open>\<^verbatim>\<open>binascii.Error\<close> and \<^verbatim>\<open>json.JSONDecodeError\<close> are subclasses of \<^verbatim>\<open>ValueError\<close>.\<close>

fun is_value_error :: "exn \<Rightarrow> bool" where
  "is_value_error (ValueError m) = True"
| "is_value_error (BinasciiError m) = True"
| "is_value_error JSONDecodeError = True"
| "is_value_error e = False"

text \<open>\<^verbatim>\<open>FileNotFoundError\<close> is a subclass of \<^verbatim>\<open>OSError\<close>.\<close>

fun is_os_error :: "exn \<Rightarrow> bool" where
  "is_os_error FileNotFoundError = True"
| "is_os_error OSError = True"
| "is_os_error e = False"

section \<open>Sequencing fallible steps\<close>

text \<open>\<open>bind_res m f\<close> is the statement sequence \<open>x = m; f x\<close>: an exception of \<open>m\<close> leaves at once.\<close>

definition bind_res :: "'a res \<Rightarrow> ('a \<Rightarrow> 'b res) \<Rightarrow> 'b res" where
  "bind_res m f = (case m of Inl e \<Rightarrow> Inl e | Inr x \<Rightarrow> f x)"

text \<open>\<open>raise_if b e\<close> is \<open>if b: raise e\<close>.\<close>

definition raise_if :: "bool \<Rightarrow> exn \<Rightarrow> unit res" where
  "raise_if b e = (if b then Inl e else Inr ())"

text \<open>\<open>res_of_option e m\<close> turns a missing value into the exception \<open>e\<close>.\<close>

definition res_of_option :: "exn \<Rightarrow> 'a option \<Rightarrow> 'a res" where
  "res_of_option e m = (case m of None \<Rightarrow> Inl e | Some x \<Rightarrow> Inr x)"

definition is_ok :: "'a res \<Rightarrow> bool" where
  "is_ok m = (case m of Inl e \<Rightarrow> False | Inr x \<Rightarrow> True)"

text \<open>\<open>except_res m h\<close> is \<open>try: m except Exception as e: h e\<close>.\<close>

definition except_res :: "'a res \<Rightarrow> (exn \<Rightarrow> 'a res) \<Rightarrow> 'a res" where
  "except_res m h = (case m of Inl e \<Rightarrow> h e | Inr x \<Rightarrow> Inr x)"

lemma except_res_simps [simp]:
  "except_res (Inl e) h = h e"
  "except_res (Inr x) h = Inr x"
  by (simp_all add: except_res_def)

lemma except_res_raise_Inr [simp]: "except_res m (\<lambda>e. Inl (h e)) = Inr x \<longleftrightarrow> m = Inr x"
  by (cases m) auto

lemma bind_res_simps [simp]:
  "bind_res (Inl e) f = Inl e"
  "bind_res (Inr x) f = f x"
  by (simp_all add: bind_res_def)

lemma raise_if_simps [simp]:
  "raise_if True e = Inl e"
  "raise_if False e = Inr ()"
  by (simp_all add: raise_if_def)

lemma res_of_option_simps [simp]:
  "res_of_option e None = Inl e"
  "res_of_option e (Some x) = Inr x"
  by (simp_all add: res_of_option_def)

lemma is_ok_simps [simp]:
  "is_ok (Inl e) = False"
  "is_ok (Inr x) = True"
  by (simp_all add: is_ok_def)

lemma is_ok_iff: "is_ok m \<longleftrightarrow> (\<exists>x. m = Inr x)"
  by (cases m) auto

lemma bind_res_Inr [res_dests]: "bind_res m f = Inr y \<longleftrightarrow> (\<exists>x. m = Inr x \<and> f x = Inr y)"
  by (cases m) auto

lemma bind_res_Inl: "bind_res m f = Inl e \<longleftrightarrow> m = Inl e \<or> (\<exists>x. m = Inr x \<and> f x = Inl e)"
  by (cases m) auto

lemma raise_if_Inr [simp]: "raise_if b e = Inr u \<longleftrightarrow> \<not> b"
  by (cases b) auto

lemma raise_if_Inl [simp]: "raise_if b e = Inl e' \<longleftrightarrow> b \<and> e = e'"
  by (cases b) auto

lemma res_of_option_Inr [simp]: "res_of_option e m = Inr x \<longleftrightarrow> m = Some x"
  by (cases m) auto

lemma bind_res_raise_if: "bind_res (raise_if b e) f = (if b then Inl e else f ())"
  by simp

lemma bind_res_assoc: "bind_res (bind_res m f) g = bind_res m (\<lambda>x. bind_res (f x) g)"
  by (cases m) simp_all

lemma bind_res_cong [fundef_cong]:
  "m = m' \<Longrightarrow> (\<And>x. m' = Inr x \<Longrightarrow> f x = g x) \<Longrightarrow> bind_res m f = bind_res m' g"
  by (cases m') auto

text \<open>A list comprehension whose element expression can raise: the first exception wins.\<close>

fun map_res :: "('a \<Rightarrow> 'b res) \<Rightarrow> 'a list \<Rightarrow> 'b list res" where
  "map_res f [] = Inr []"
| "map_res f (x # xs) = bind_res (f x) (\<lambda>y. bind_res (map_res f xs) (\<lambda>ys. Inr (y # ys)))"

lemma map_res_Inr_length: "map_res f xs = Inr ys \<Longrightarrow> length ys = length xs"
  by (induction xs arbitrary: ys) (auto simp: bind_res_Inr)

lemma map_res_total: "(\<And>x. x \<in> set xs \<Longrightarrow> f x = Inr (g x)) \<Longrightarrow> map_res f xs = Inr (map g xs)"
  by (induction xs) simp_all

section \<open>Slicing and padding of byte strings\<close>

text \<open>\<open>xs[i:j]\<close> for \<open>0 \<le> i\<close> and \<open>0 \<le> j\<close>: Python clips the bounds, it never raises.\<close>

definition py_slice :: "nat \<Rightarrow> nat \<Rightarrow> 'a list \<Rightarrow> 'a list" where
  "py_slice i j xs = take (j - i) (drop i xs)"

text \<open>\<open>xs.ljust(n, c)\<close>.\<close>

definition ljust :: "nat \<Rightarrow> 'a \<Rightarrow> 'a list \<Rightarrow> 'a list" where
  "ljust n c xs = xs @ replicate (n - length xs) c"

text \<open>\<open>xs.rstrip(c)\<close> for one character.\<close>

definition rstrip :: "'a \<Rightarrow> 'a list \<Rightarrow> 'a list" where
  "rstrip c xs = rev (dropWhile (\<lambda>x. x = c) (rev xs))"

text \<open>\<open>x[:n].ljust(n, b"\x00")\<close> and \<open>x.ljust(n, b"\x00")[:n]\<close>, the two ways the source fits a
  value into a fixed-width field.\<close>

definition fit :: "nat \<Rightarrow> bytes \<Rightarrow> bytes" where
  "fit n xs = ljust n 0 (take n xs)"

lemma length_py_slice [simp]: "length (py_slice i j xs) = min (j - i) (length xs - i)"
  by (simp add: py_slice_def)

lemma py_slice_append_left: "j \<le> length xs \<Longrightarrow> py_slice i j (xs @ ys) = py_slice i j xs"
  by (simp add: py_slice_def)

lemma py_slice_append_right:
  "length xs \<le> i \<Longrightarrow> py_slice i j (xs @ ys) = py_slice (i - length xs) (j - length xs) ys"
  by (simp add: py_slice_def)

lemma py_slice_full: "length xs = j - i \<Longrightarrow> length ys = i \<Longrightarrow> py_slice i j (ys @ xs @ zs) = xs"
  by (simp add: py_slice_def)

lemma py_slice_whole: "length xs \<le> j \<Longrightarrow> py_slice 0 j xs = xs"
  by (simp add: py_slice_def)

lemma nth_py_slice: "i + k < j \<Longrightarrow> i + k < length xs \<Longrightarrow> py_slice i j xs ! k = xs ! (i + k)"
  by (simp add: py_slice_def)

lemma py_slice_append_py_slice: "i \<le> j \<Longrightarrow> j \<le> k \<Longrightarrow> py_slice i j xs @ py_slice j k xs = py_slice i k xs"
proof -
  assume a: "i \<le> j" "j \<le> k"
  have "take (k - i) (drop i xs) =
      take (j - i) (drop i xs) @ take (k - i - (j - i)) (drop (j - i) (drop i xs))"
    using take_add [of "j - i" "k - i - (j - i)" "drop i xs"] a by simp
  then show ?thesis using a by (simp add: py_slice_def)
qed

lemma length_ljust [simp]: "length (ljust n c xs) = max n (length xs)"
  by (simp add: ljust_def)

lemma ljust_id [simp]: "n \<le> length xs \<Longrightarrow> ljust n c xs = xs"
  by (simp add: ljust_def)

lemma length_fit [simp]: "length (fit n xs) = n"
  by (simp add: fit_def)

lemma fit_id [simp]: "length xs = n \<Longrightarrow> fit n xs = xs"
  by (simp add: fit_def)

lemma fit_eq_ljust_take: "take n (ljust n 0 xs) = fit n xs"
  by (simp add: fit_def ljust_def min_def)

lemma fit_short: "length xs \<le> n \<Longrightarrow> fit n xs = xs @ replicate (n - length xs) 0"
  by (simp add: fit_def ljust_def)

text \<open>Values of the same length at most \<open>n\<close> are told apart by their fixed-width fields.\<close>

lemma fit_inj: "fit n xs = fit n ys \<Longrightarrow> length xs = length ys \<Longrightarrow> length ys \<le> n \<Longrightarrow> xs = ys"
  by (simp add: fit_short)

lemma rstrip_append_replicate [simp]: "rstrip c (xs @ replicate n c) = rstrip c xs"
  by (simp add: rstrip_def dropWhile_append)

lemma rstrip_id: "xs = [] \<or> last xs \<noteq> c \<Longrightarrow> rstrip c xs = xs"
  by (cases xs rule: rev_cases) (auto simp: rstrip_def)

section \<open>Text helpers\<close>

text \<open>\<open>s.encode()\<close>, UTF-8: one byte below 128, two bytes from there to 255.\<close>

definition utf8_char :: "char \<Rightarrow> bytes" where
  "utf8_char c =
     (let n = (of_char c :: nat)
      in if n < 128 then [of_nat n] else [of_nat (192 + n div 64), of_nat (128 + n mod 64)])"

definition encode :: "string \<Rightarrow> bytes" where
  "encode s = concat (map utf8_char s)"

fun utf8_decode :: "bytes \<Rightarrow> string" where
  "utf8_decode [] = []"
| "utf8_decode (b # bs) =
     (if unat b < 128 then char_of (unat b) # utf8_decode bs
      else (case bs of [] \<Rightarrow> [] | d # ds \<Rightarrow> char_of ((unat b - 192) * 64 + (unat d - 128)) # utf8_decode ds))"

lemma encode_simps [simp]:
  "encode [] = []"
  "encode (s @ t) = encode s @ encode t"
  by (simp_all add: encode_def)

lemma encode_Cons: "encode (c # s) = utf8_char c @ encode s"
  by (simp add: encode_def)

lemma unat_of_nat_small: "n < 256 \<Longrightarrow> unat (of_nat n :: byte) = n"
  by (simp add: unat_of_nat take_bit_eq_mod)

lemma utf8_decode_encode [simp]: "utf8_decode (encode s) = s"
proof (induction s)
  case (Cons c s)
  define n where "n = (of_char c :: nat)"
  have n: "n < 256" by (simp add: n_def)
  have c: "char_of n = c" by (simp add: n_def)
  have small: "n div 64 < 64" using n by (simp add: less_mult_imp_div_less)
  have two: "n div 64 * 64 + n mod 64 = n" by simp
  show ?case
  proof (cases "n < 128")
    case True
    then show ?thesis
      using Cons c by (simp add: encode_Cons utf8_char_def n_def [symmetric] Let_def unat_of_nat_small)
  next
    case False
    have "n div 64 < 4" using n by (simp add: less_mult_imp_div_less)
    then have "unat (of_nat (192 + n div 64) :: byte) = 192 + n div 64"
      and "unat (of_nat (128 + n mod 64) :: byte) = 128 + n mod 64"
      by (intro unat_of_nat_small, simp add: order.strict_trans [of _ 64])+
    then show ?thesis
      using Cons c False two
      by (simp add: encode_Cons utf8_char_def n_def [symmetric] Let_def del: of_nat_add)
  qed
qed simp

lemma encode_inj [simp]: "encode s = encode t \<longleftrightarrow> s = t"
  by (metis utf8_decode_encode)

text \<open>\<open>sep.join(parts)\<close>.\<close>

fun join :: "'a list \<Rightarrow> 'a list list \<Rightarrow> 'a list" where
  "join sep [] = []"
| "join sep [x] = x"
| "join sep (x # y # ys) = x @ sep @ join sep (y # ys)"

text \<open>\<open>s.split(c)\<close> for a one-character separator: always at least one part.\<close>

fun split_on :: "'a \<Rightarrow> 'a list \<Rightarrow> 'a list list" where
  "split_on c [] = [[]]"
| "split_on c (x # xs) =
     (if x = c then [] # split_on c xs
      else (case split_on c xs of [] \<Rightarrow> [[x]] | p # ps \<Rightarrow> (x # p) # ps))"

lemma split_on_not_Nil [simp]: "split_on c xs \<noteq> []"
  by (cases xs) (auto split: list.splits)

lemma split_on_free: "c \<notin> set xs \<Longrightarrow> split_on c xs = [xs]"
  by (induction xs) auto

lemma split_on_append:
  "c \<notin> set xs \<Longrightarrow> split_on c (xs @ c # ys) = xs # split_on c ys"
  by (induction xs) auto

lemma length_split_on: "length (split_on c xs) = Suc (count_list xs c)"
  by (induction xs) (auto split: list.splits)

text \<open>Splitting undoes joining when no part holds the separator, and joining undoes splitting.\<close>

lemma split_on_join:
  "ps \<noteq> [] \<Longrightarrow> (\<And>p. p \<in> set ps \<Longrightarrow> c \<notin> set p) \<Longrightarrow> split_on c (join [c] ps) = ps"
proof (induction "[c]" ps rule: join.induct)
  case (3 x y ys)
  then show ?case by (simp add: split_on_append)
qed (simp_all add: split_on_free)

lemma count_list_join:
  "ps \<noteq> [] \<Longrightarrow> count_list (join [c] ps) c = sum_list (map (\<lambda>p. count_list p c) ps) + (length ps - 1)"
  by (induction "[c]" ps rule: join.induct) simp_all

end
