(* ===== verification/Codec.thy ===== *)
theory Codec
  imports Prelude
begin

text \<open>
  The encodings of the Python standard library that the program uses on its wire formats:
  \<^verbatim>\<open>struct\<close> integers (\<^verbatim>\<open>>I\<close>, \<^verbatim>\<open><I\<close>, \<^verbatim>\<open><Q\<close>), \<^verbatim>\<open>bytes.hex\<close>/\<^verbatim>\<open>bytes.fromhex\<close>,
  \<^verbatim>\<open>base64.b64encode\<close>/\<^verbatim>\<open>b64decode\<close> (the lenient decoder of \<^verbatim>\<open>binascii.a2b_base64\<close>, state by
  state), and decimal \<^verbatim>\<open>str(int)\<close>/\<^verbatim>\<open>int(str)\<close>. Each encoder/decoder pair is an
  interpretation of the locale \<open>codec\<close>, whose lemmas the protocol theories use.
\<close>

section \<open>The contract of an encoder and its decoder\<close>

locale codec =
  fixes enc :: "'a \<Rightarrow> 'b"
    and dec :: "'b \<Rightarrow> 'a res"
    and wf :: "'a \<Rightarrow> bool"
  assumes dec_enc: "wf x \<Longrightarrow> dec (enc x) = Inr x"
begin

lemma enc_eq_iff: "wf x \<Longrightarrow> wf y \<Longrightarrow> enc x = enc y \<longleftrightarrow> x = y"
  using dec_enc by (metis sum.inject(2))

lemma bind_dec_enc: "wf x \<Longrightarrow> bind_res (dec (enc x)) f = f x"
  by (simp add: dec_enc)

lemma inj_on_enc: "inj_on enc {x. wf x}"
  by (rule inj_onI) (simp add: enc_eq_iff)

end

section \<open>Fixed-width integers\<close>

text \<open>Little-endian value of a byte string and its inverse of a given width.\<close>

fun le_val :: "bytes \<Rightarrow> nat" where
  "le_val [] = 0"
| "le_val (b # bs) = unat b + 256 * le_val bs"

fun le_bytes :: "nat \<Rightarrow> nat \<Rightarrow> bytes" where
  "le_bytes 0 n = []"
| "le_bytes (Suc k) n = of_nat (n mod 256) # le_bytes k (n div 256)"

text \<open>\<^verbatim>\<open>struct.pack(">I", n)\<close> raises \<^verbatim>\<open>struct.error\<close> for a value out of range,
  \<^verbatim>\<open>struct.unpack(">I", b)\<close> for a buffer that is not four bytes long.\<close>

definition pack_be32 :: "nat \<Rightarrow> bytes res" where
  "pack_be32 n = (if n < 2 ^ 32 then Inr (rev (le_bytes 4 n)) else Inl StructError)"

definition unpack_be32 :: "bytes \<Rightarrow> nat res" where
  "unpack_be32 b = (if length b = 4 then Inr (le_val (rev b)) else Inl StructError)"

text \<open>\<^verbatim>\<open>struct.unpack_from("<Q", buf, off)\<close> and \<^verbatim>\<open>"<I"\<close>.\<close>

definition unpack_le :: "nat \<Rightarrow> bytes \<Rightarrow> nat \<Rightarrow> nat res" where
  "unpack_le w buf off =
     (if off + w \<le> length buf then Inr (le_val (py_slice off (off + w) buf)) else Inl StructError)"

lemma unat_of_nat_byte [simp]: "unat (of_nat n :: byte) = n mod 256"
  by (simp add: unat_of_nat take_bit_eq_mod)

lemma unat_byte_bound [simp]: "unat (b :: byte) < 256"
  using unsigned_less [of b] by simp

lemma of_nat_unat_byte_mod [simp]: "(of_nat (unat (b :: byte) mod 256) :: byte) = b"
  by (simp add: mod_less)

lemma length_le_bytes [simp]: "length (le_bytes k n) = k"
  by (induction k arbitrary: n) simp_all

lemma le_val_bound: "le_val bs < 256 ^ length bs"
proof (induction bs)
  case (Cons b bs)
  have "unat b + 256 * le_val bs < 256 + 256 * le_val bs" by simp
  also have "\<dots> \<le> 256 * 256 ^ length bs" using Cons by simp
  finally show ?case by simp
qed simp

lemma le_val_le_bytes: "n < 256 ^ k \<Longrightarrow> le_val (le_bytes k n) = n"
  by (induction k arbitrary: n) (simp_all add: less_mult_imp_div_less)

lemma le_bytes_le_val: "le_bytes (length bs) (le_val bs) = bs"
proof (induction bs)
  case (Cons b bs)
  have "(unat b + 256 * le_val bs) mod 256 = unat b" by simp
  moreover have "(unat b + 256 * le_val bs) div 256 = le_val bs" by simp
  ultimately show ?case using Cons by simp
qed simp

lemma le_val_inj: "length xs = length ys \<Longrightarrow> le_val xs = le_val ys \<Longrightarrow> xs = ys"
  by (metis le_bytes_le_val)

lemma unpack_pack_be32: "n < 2 ^ 32 \<Longrightarrow> bind_res (pack_be32 n) unpack_be32 = Inr n"
  by (simp add: pack_be32_def unpack_be32_def le_val_le_bytes)

lemma pack_be32_length: "pack_be32 n = Inr b \<Longrightarrow> length b = 4"
  by (auto simp: pack_be32_def split: if_splits)

text \<open>Bit \<open>i\<close> of a little-endian integer is bit \<open>i mod 8\<close> of its byte \<open>i div 8\<close>.\<close>

lemma bit_add_high:
  assumes "u < 256" shows "bit (u + 256 * v) i = (if i < 8 then bit u i else bit (v :: nat) (i - 8))"
proof -
  have t: "take_bit 8 (u + 256 * v) = u" using assms by (simp add: take_bit_eq_mod)
  have d: "drop_bit 8 (u + 256 * v) = v" using assms by (simp add: drop_bit_eq_div)
  show ?thesis
  proof (cases "i < 8")
    case True
    then show ?thesis using t by (metis bit_take_bit_iff)
  next
    case False
    then show ?thesis using d by (metis bit_drop_bit_eq le_add_diff_inverse linorder_not_le comp_apply)
  qed
qed

lemma bit_unat_byte [simp]: "bit (unat (b :: byte)) i = bit b i"
  by (auto simp: bit_unsigned_iff dest: bit_imp_le_length)

lemma bit_le_val: "bit (le_val bs) i \<longleftrightarrow> i div 8 < length bs \<and> bit (bs ! (i div 8)) (i mod 8)"
proof (induction bs arbitrary: i)
  case (Cons b bs)
  have *: "bit (le_val (b # bs)) i = (if i < 8 then bit b i else bit (le_val bs) (i - 8))"
    by (simp add: bit_add_high)
  show ?case
  proof (cases "i < 8")
    case True
    with * show ?thesis by simp
  next
    case False
    then have "i div 8 = Suc ((i - 8) div 8)" and "i mod 8 = (i - 8) mod 8"
      by (simp_all add: le_div_geq le_mod_geq)
    with False * Cons show ?thesis by simp
  qed
qed simp

section \<open>Hexadecimal\<close>

definition hex_digits :: string where
  "hex_digits = ''0123456789abcdef''"

text \<open>\<^verbatim>\<open>bytes.hex()\<close>.\<close>

definition hex_encode :: "bytes \<Rightarrow> string" where
  "hex_encode bs = concat (map (\<lambda>b. [hex_digits ! (unat b div 16), hex_digits ! (unat b mod 16)]) bs)"

definition hex_val :: "char \<Rightarrow> nat option" where
  "hex_val c =
     (let n = (of_char c :: nat) in
      if 48 \<le> n \<and> n \<le> 57 then Some (n - 48)
      else if 97 \<le> n \<and> n \<le> 102 then Some (n - 87)
      else if 65 \<le> n \<and> n \<le> 70 then Some (n - 55)
      else None)"

text \<open>C \<^verbatim>\<open>isspace\<close>: the characters \<^verbatim>\<open>bytes.fromhex\<close> skips between two bytes.\<close>

definition is_space :: "char \<Rightarrow> bool" where
  "is_space c = (let n = (of_char c :: nat) in n = 32 \<or> 9 \<le> n \<and> n \<le> 13)"

fun fromhex :: "string \<Rightarrow> bytes res" where
  "fromhex [] = Inr []"
| "fromhex (c # cs) =
     (if is_space c then fromhex cs
      else (case hex_val c of
          None \<Rightarrow> Inl (ValueError ''non-hexadecimal number found'')
        | Some hi \<Rightarrow>
           (case cs of
              [] \<Rightarrow> Inl (ValueError ''non-hexadecimal number found'')
            | d # ds \<Rightarrow>
               (case hex_val d of
                  None \<Rightarrow> Inl (ValueError ''non-hexadecimal number found'')
                | Some lo \<Rightarrow> bind_res (fromhex ds) (\<lambda>r. Inr (of_nat (16 * hi + lo) # r))))))"

lemma hex_digit_facts:
  "n < 16 \<Longrightarrow> hex_val (hex_digits ! n) = Some n \<and> \<not> is_space (hex_digits ! n)"
proof -
  have "\<forall>n \<in> set [0..<16]. hex_val (hex_digits ! n) = Some n \<and> \<not> is_space (hex_digits ! n)"
    by code_simp
  then show "n < 16 \<Longrightarrow> ?thesis" by simp
qed

lemma byte_nibbles: "(of_nat (16 * (unat (b :: byte) div 16) + unat b mod 16) :: byte) = b"
  by simp

lemma fromhex_hex_encode: "fromhex (hex_encode bs) = Inr bs"
proof (induction bs)
  case (Cons b bs)
  have "unat b div 16 < 16" by (simp add: less_mult_imp_div_less)
  with Cons show ?case
    using hex_digit_facts [of "unat b div 16"] hex_digit_facts [of "unat b mod 16"]
    by (simp add: hex_encode_def byte_nibbles del: of_nat_add of_nat_mult)
qed (simp add: hex_encode_def)

interpretation hexc: codec hex_encode fromhex "\<lambda>_. True"
  by unfold_locales (simp add: fromhex_hex_encode)

lemma length_hex_encode [simp]: "length (hex_encode bs) = 2 * length bs"
  by (induction bs) (simp_all add: hex_encode_def)

section \<open>Base64\<close>

text \<open>The standard alphabet: \<^verbatim>\<open>A\<close>-\<^verbatim>\<open>Z\<close>, \<^verbatim>\<open>a\<close>-\<^verbatim>\<open>z\<close>, \<^verbatim>\<open>0\<close>-\<^verbatim>\<open>9\<close>, \<^verbatim>\<open>+\<close>, \<^verbatim>\<open>/\<close>.\<close>

definition b64_char :: "nat \<Rightarrow> char" where
  "b64_char n =
     (if n < 26 then char_of (n + 65)
      else if n < 52 then char_of (n + 71)
      else if n < 62 then char_of (n - 4)
      else if n = 62 then CHR ''+''
      else CHR ''/'')"

definition b64_val :: "char \<Rightarrow> nat option" where
  "b64_val c =
     (let n = (of_char c :: nat) in
      if 65 \<le> n \<and> n \<le> 90 then Some (n - 65)
      else if 97 \<le> n \<and> n \<le> 122 then Some (n - 71)
      else if 48 \<le> n \<and> n \<le> 57 then Some (n + 4)
      else if n = 43 then Some 62
      else if n = 47 then Some 63
      else None)"

text \<open>The four sextets of three byte values.\<close>

fun b64encode :: "bytes \<Rightarrow> string" where
  "b64encode [] = []"
| "b64encode [a] = [b64_char (unat a div 4), b64_char (unat a mod 4 * 16), CHR ''='', CHR ''='']"
| "b64encode [a, b] =
     [b64_char (unat a div 4), b64_char (unat a mod 4 * 16 + unat b div 16),
      b64_char (unat b mod 16 * 4), CHR ''='']"
| "b64encode (a # b # c # rest) =
     b64_char (unat a div 4) # b64_char (unat a mod 4 * 16 + unat b div 16)
     # b64_char (unat b mod 16 * 4 + unat c div 64) # b64_char (unat c mod 64)
     # b64encode rest"

text \<open>
  \<^verbatim>\<open>binascii.a2b_base64\<close> in its lenient mode. \<open>q\<close> is the position in the quad, \<open>l\<close> the bits
  carried over, \<open>p\<close> the number of pads seen. Characters outside the alphabet are skipped, a
  complete pad sequence ends the input, and an input that ends inside a quad is an error.
\<close>

fun a2b :: "nat \<Rightarrow> nat \<Rightarrow> nat \<Rightarrow> string \<Rightarrow> bytes res" where
  "a2b q l p [] = (if q = 0 then Inr [] else Inl (BinasciiError ''Incorrect padding''))"
| "a2b q l p (c # cs) =
     (if c = CHR ''='' then
        (if 2 \<le> q then (if 4 \<le> q + Suc p then Inr [] else a2b q l (Suc p) cs)
         else a2b q l p cs)
      else (case b64_val c of
          None \<Rightarrow> a2b q l p cs
        | Some v \<Rightarrow>
           (if q = 0 then a2b 1 v 0 cs
            else if q = 1 then
              bind_res (a2b 2 (v mod 16) 0 cs) (\<lambda>r. Inr (of_nat (l * 4 + v div 16) # r))
            else if q = 2 then
              bind_res (a2b 3 (v mod 4) 0 cs) (\<lambda>r. Inr (of_nat (l * 16 + v div 4) # r))
            else
              bind_res (a2b 0 0 0 cs) (\<lambda>r. Inr (of_nat (l * 64 + v) # r)))))"

text \<open>\<^verbatim>\<open>base64.b64decode\<close> of a \<^verbatim>\<open>str\<close>: only ASCII characters are accepted.\<close>

definition b64decode :: "string \<Rightarrow> bytes res" where
  "b64decode s =
     (if \<exists>c \<in> set s. 128 \<le> (of_char c :: nat)
      then Inl (ValueError ''string argument should contain only ASCII characters'')
      else a2b 0 0 0 s)"

definition urlsafe_b64encode :: "bytes \<Rightarrow> string" where
  "urlsafe_b64encode bs =
     map (\<lambda>c. if c = CHR ''+'' then CHR ''-'' else if c = CHR ''/'' then CHR ''_'' else c)
       (b64encode bs)"

lemma of_b64_char:
  assumes "n < 64"
  shows "(of_char (b64_char n) :: nat) =
    (if n < 26 then n + 65 else if n < 52 then n + 71 else if n < 62 then n - 4
     else if n = 62 then 43 else 47)"
  using assms by (simp add: b64_char_def)

lemma b64_char_facts [simp]:
  assumes "n < 64"
  shows "b64_val (b64_char n) = Some n" and "(of_char (b64_char n) :: nat) < 128"
    and "b64_char n \<noteq> CHR ''=''"
proof -
  show "b64_val (b64_char n) = Some n" and "(of_char (b64_char n) :: nat) < 128"
    using assms by (auto simp: b64_val_def of_b64_char Let_def)
  have "(of_char (b64_char n) :: nat) \<noteq> of_char (CHR ''='')"
    using assms by (auto simp: of_b64_char)
  then show "b64_char n \<noteq> CHR ''=''" by metis
qed

lemma sextet_bounds [simp]:
  fixes a b c :: byte
  shows "unat a div 4 < 64" and "unat a mod 4 * 16 < 64"
    and "unat a mod 4 * 16 + unat b div 16 < 64"
    and "unat b mod 16 * 4 < 64" and "unat b mod 16 * 4 + unat c div 64 < 64"
proof -
  have d: "unat a div 4 < 64" "unat b div 16 < 16" "unat c div 64 < 4"
    by (simp_all add: less_mult_imp_div_less)
  have m: "unat a mod 4 < 4" "unat b mod 16 < 16" by simp_all
  show "unat a div 4 < 64" by (rule d)
  show "unat a mod 4 * 16 < 64" and "unat a mod 4 * 16 + unat b div 16 < 64"
    and "unat b mod 16 * 4 < 64" and "unat b mod 16 * 4 + unat c div 64 < 64"
    using d m by linarith+
qed

lemma sextets_join:
  fixes a b c :: byte
  shows "unat a div 4 * 4 + (unat a mod 4 * 16 + unat b div 16) div 16 = unat a"
    and "unat a div 4 * 4 + (unat a mod 4 * 16) div 16 = unat a"
    and "(unat a mod 4 * 16 + unat b div 16) mod 16 * 16
          + (unat b mod 16 * 4 + unat c div 64) div 4 = unat b"
    and "(unat a mod 4 * 16 + unat b div 16) mod 16 * 16 + (unat b mod 16 * 4) div 4 = unat b"
    and "(unat b mod 16 * 4 + unat c div 64) mod 4 * 64 + unat c mod 64 = unat c"
proof -
  have d: "unat b div 16 < 16" "unat c div 64 < 4" by (simp_all add: less_mult_imp_div_less)
  have split16: "(k * 16 + r) div 16 = k \<and> (k * 16 + r) mod 16 = r" if "r < 16" for k r :: nat
    using that by simp
  have split4: "(k * 4 + r) div 4 = k \<and> (k * 4 + r) mod 4 = r" if "r < 4" for k r :: nat
    using that by simp
  have a4: "unat a div 4 * 4 + unat a mod 4 = unat a"
    and b16: "unat b div 16 * 16 + unat b mod 16 = unat b"
    and c64: "unat c div 64 * 64 + unat c mod 64 = unat c"
    by simp_all
  note ab = split16 [OF d(1), of "unat a mod 4"] and bc = split4 [OF d(2), of "unat b mod 16"]
  show "unat a div 4 * 4 + (unat a mod 4 * 16 + unat b div 16) div 16 = unat a"
    using ab a4 by metis
  show "unat a div 4 * 4 + (unat a mod 4 * 16) div 16 = unat a"
    using a4 by simp
  show "(unat a mod 4 * 16 + unat b div 16) mod 16 * 16
          + (unat b mod 16 * 4 + unat c div 64) div 4 = unat b"
    using ab bc b16 by metis
  show "(unat a mod 4 * 16 + unat b div 16) mod 16 * 16 + (unat b mod 16 * 4) div 4 = unat b"
    using ab b16 by simp
  show "(unat b mod 16 * 4 + unat c div 64) mod 4 * 64 + unat c mod 64 = unat c"
    using bc c64 by metis
qed

lemmas sextets_join_words = sextets_join [THEN arg_cong [where f = "of_nat :: nat \<Rightarrow> byte"]]

lemma a2b_b64encode: "a2b 0 0 0 (b64encode bs) = Inr bs"
proof (induction bs rule: b64encode.induct)
  case (2 a)
  then show ?case using sextets_join_words(2) [of a] by (simp del: of_nat_add of_nat_mult)
next
  case (3 a b)
  then show ?case using sextets_join_words(1) [of a b] sextets_join_words(4) [of a b]
    by (simp del: of_nat_add of_nat_mult)
next
  case (4 a b c rest)
  then show ?case
    using sextets_join_words(1) [of a b] sextets_join_words(3) [of a b c]
      sextets_join_words(5) [of b c]
    by (simp del: of_nat_add of_nat_mult)
qed simp

lemma b64encode_ascii: "c \<in> set (b64encode bs) \<Longrightarrow> (of_char c :: nat) < 128"
  by (induction bs rule: b64encode.induct) auto

lemma b64decode_b64encode: "b64decode (b64encode bs) = Inr bs"
  using b64encode_ascii by (force simp: b64decode_def a2b_b64encode)

interpretation b64c: codec b64encode b64decode "\<lambda>_. True"
  by unfold_locales (simp add: b64decode_b64encode)

lemma length_b64encode: "length (b64encode bs) = 4 * ((length bs + 2) div 3)"
proof (induction bs rule: b64encode.induct)
  case (4 a b c rest)
  have "(length rest + 3 + 2) div 3 = Suc ((length rest + 2) div 3)" by simp
  with 4 show ?case by (simp add: add.commute)
qed simp_all

section \<open>Decimal integers and white space\<close>

text \<open>\<^verbatim>\<open>str.isspace\<close> below 256, and \<^verbatim>\<open>str.strip()\<close>.\<close>

definition is_ws :: "char \<Rightarrow> bool" where
  "is_ws c = (let n = (of_char c :: nat) in n = 32 \<or> 9 \<le> n \<and> n \<le> 13 \<or> 28 \<le> n \<and> n \<le> 31
     \<or> n = 133 \<or> n = 160)"

definition py_strip :: "string \<Rightarrow> string" where
  "py_strip s = rev (dropWhile is_ws (rev (dropWhile is_ws s)))"

definition digit_char :: "nat \<Rightarrow> char" where
  "digit_char d = char_of (d + 48)"

definition digit_val :: "char \<Rightarrow> nat option" where
  "digit_val c = (let n = (of_char c :: nat) in if 48 \<le> n \<and> n \<le> 57 then Some (n - 48) else None)"

text \<open>\<^verbatim>\<open>str(n)\<close>.\<close>

fun nat_str :: "nat \<Rightarrow> string" where
  "nat_str n = (if n < 10 then [digit_char n] else nat_str (n div 10) @ [digit_char (n mod 10)])"

declare nat_str.simps [simp del]

definition int_str :: "int \<Rightarrow> string" where
  "int_str i = (if i < 0 then CHR ''-'' # nat_str (nat (- i)) else nat_str (nat i))"

text \<open>\<^verbatim>\<open>int(s)\<close> in base ten: surrounding white space, a sign, digits with single underscores
  between them.\<close>

fun int_digits :: "nat \<Rightarrow> bool \<Rightarrow> string \<Rightarrow> nat option" where
  "int_digits acc ok [] = (if ok then Some acc else None)"
| "int_digits acc ok (c # cs) =
     (case digit_val c of
        Some d \<Rightarrow> int_digits (10 * acc + d) True cs
      | None \<Rightarrow> if c = CHR ''_'' \<and> ok then int_digits acc False cs else None)"

definition py_int :: "string \<Rightarrow> int res" where
  "py_int s =
     (case py_strip s of
        [] \<Rightarrow> Inl (ValueError ''invalid literal for int()'')
      | c # cs \<Rightarrow>
         res_of_option (ValueError ''invalid literal for int()'')
           (if c = CHR ''-'' then map_option (\<lambda>n. - int n) (int_digits 0 False cs)
            else if c = CHR ''+'' then map_option int (int_digits 0 False cs)
            else map_option int (int_digits 0 False (c # cs))))"

lemma digit_facts:
  assumes "d < 10"
  shows "digit_val (digit_char d) = Some d" and "\<not> is_ws (digit_char d)"
    and "(of_char (digit_char d) :: nat) = d + 48"
  using assms by (simp_all add: digit_val_def digit_char_def is_ws_def)

lemma int_digits_nat_str: "int_digits 0 b (nat_str n @ s) = int_digits n True s"
proof (induction n arbitrary: b s rule: nat_str.induct)
  case (1 n)
  show ?case
  proof (cases "n < 10")
    case True
    then show ?thesis by (simp add: nat_str.simps [of n] digit_facts)
  next
    case False
    then have "int_digits 0 b (nat_str n @ s) =
        int_digits 0 b (nat_str (n div 10) @ (digit_char (n mod 10) # s))"
      by (simp add: nat_str.simps [of n])
    also have "\<dots> = int_digits (n div 10) True (digit_char (n mod 10) # s)"
      using False by (rule 1)
    finally show ?thesis by (simp add: digit_facts)
  qed
qed

lemma nat_str_chars: "c \<in> set (nat_str n) \<Longrightarrow> \<exists>d<10. c = digit_char d"
proof (induction n rule: nat_str.induct)
  case (1 n)
  show ?case
  proof (cases "n < 10")
    case True
    with 1 show ?thesis by (auto simp: nat_str.simps [of n])
  next
    case False
    with 1 show ?thesis by (auto simp: nat_str.simps [of n] intro: exI [of _ "n mod 10"])
  qed
qed

lemma nat_str_not_Nil [simp]: "nat_str n \<noteq> []"
  by (simp add: nat_str.simps [of n])

lemma py_strip_id:
  assumes "\<And>c. c \<in> set s \<Longrightarrow> \<not> is_ws c" shows "py_strip s = s"
proof -
  have "dropWhile is_ws xs = xs" if "set xs \<subseteq> set s" for xs
    using that assms by (cases xs) auto
  then show ?thesis by (simp add: py_strip_def)
qed

lemma int_str_no_ws: "c \<in> set (int_str i) \<Longrightarrow> \<not> is_ws c"
  by (auto simp: int_str_def is_ws_def dest!: nat_str_chars split: if_splits)
     (auto simp: digit_facts)

lemma digit_char_not_sign: "d < 10 \<Longrightarrow> digit_char d \<noteq> CHR ''-'' \<and> digit_char d \<noteq> CHR ''+''"
proof -
  assume d: "d < 10"
  have "(of_char (digit_char d) :: nat) \<noteq> of_char (CHR ''-'')"
    and "(of_char (digit_char d) :: nat) \<noteq> of_char (CHR ''+'')"
    using d by (simp_all add: digit_facts)
  then show ?thesis by metis
qed

lemma py_int_int_str: "py_int (int_str i) = Inr i"
proof -
  have strip: "py_strip (int_str i) = int_str i" using int_str_no_ws by (rule py_strip_id)
  show ?thesis
  proof (cases "i < 0")
    case True
    then show ?thesis
      using strip int_digits_nat_str [of False "nat (- i)" "[]"]
      by (simp add: py_int_def int_str_def)
  next
    case False
    obtain c cs where n: "nat_str (nat i) = c # cs" by (cases "nat_str (nat i)") simp_all
    then obtain d where "d < 10" "c = digit_char d" using nat_str_chars [of c "nat i"] by auto
    then have "c \<noteq> CHR ''-''" "c \<noteq> CHR ''+''" using digit_char_not_sign by auto
    then show ?thesis
      using False n strip int_digits_nat_str [of False "nat i" "[]"]
      by (simp add: py_int_def int_str_def del: int_digits.simps(2))
  qed
qed

interpretation intc: codec int_str py_int "\<lambda>_. True"
  by unfold_locales (simp add: py_int_int_str)

end
