(* ===== verification/Pyfloat.thy ===== *)
theory Pyfloat
  imports Complex_Main Prelude
begin

text \<open>
  Python's \<^verbatim>\<open>float\<close>: IEEE 754 binary64 with round-half-even. A finite float is represented by
  its exact rational value (negative zero apart), and every arithmetic result is the exact result
  rounded by \<open>rnd\<close>, so that comparisons of computed floats behave as they do in the interpreter,
  absorption and ties included. The section on \<open>rmag\<close> proves the three facts numeric code relies
  on: rounding is monotone, exact on representable values, and off by at most half a unit in the
  last place.
\<close>

section \<open>Powers of two and the binary logarithm of a rational\<close>

definition pow2 :: "int \<Rightarrow> rat" where
  "pow2 k = (if 0 \<le> k then 2 ^ nat k else 1 / 2 ^ nat (- k))"

fun blen :: "nat \<Rightarrow> nat" where
  "blen n = (if n = 0 then 0 else Suc (blen (n div 2)))"

declare blen.simps [simp del]

text \<open>The largest \<open>k\<close> with \<open>2\<^sup>k \<le> x\<close>, for \<open>0 < x\<close>.\<close>

definition ilog2 :: "rat \<Rightarrow> int" where
  "ilog2 x =
     (let (p, q) = quotient_of x; k = int (blen (nat p)) - int (blen (nat q))
      in if pow2 k \<le> x then k else k - 1)"

lemma pow2_pos [simp]: "0 < pow2 k"
  by (simp add: pow2_def)

lemma pow2_nonneg [simp]: "0 \<le> pow2 k"
  by (simp add: less_imp_le)

lemma pow2_neq_0 [simp]: "pow2 k \<noteq> 0"
  using pow2_pos [of k] by linarith

lemma pow2_0 [simp]: "pow2 0 = 1"
  by (simp add: pow2_def)

lemma pow2_powi: "pow2 k = 2 powi k"
  by (simp add: pow2_def power_int_def inverse_eq_divide power_one_over)

lemma pow2_add: "pow2 (a + b) = pow2 a * pow2 b"
  by (simp add: pow2_powi power_int_add)

lemma pow2_diff: "pow2 (a - b) = pow2 a / pow2 b"
  by (simp add: pow2_powi power_int_diff)

lemma pow2_less [simp]: "pow2 a < pow2 b \<longleftrightarrow> a < b"
proof
  assume "a < b"
  then show "pow2 a < pow2 b" by (simp add: pow2_powi power_int_strict_increasing)
next
  assume l: "pow2 a < pow2 b"
  show "a < b"
  proof (rule ccontr)
    assume "\<not> a < b"
    then have "pow2 b \<le> pow2 a" by (simp add: pow2_powi power_int_increasing)
    with l show False by simp
  qed
qed

lemma pow2_le [simp]: "pow2 a \<le> pow2 b \<longleftrightarrow> a \<le> b"
  by (meson linorder_not_less pow2_less)

lemma pow2_nat: "pow2 (int n) = 2 ^ n"
  by (simp add: pow2_def)

lemma pow2_numeral: "pow2 (numeral n) = 2 ^ numeral n"
  by (simp add: pow2_def)

lemma pow2_one [simp]: "pow2 1 = 2"
  by (simp add: pow2_def)

lemma blen_bounds: "0 < n \<Longrightarrow> 2 ^ (blen n - 1) \<le> n \<and> n < 2 ^ blen n \<and> 0 < blen n"
proof (induction n rule: blen.induct)
  case (1 n)
  show ?case
  proof (cases "n div 2 = 0")
    case True
    with 1 have "n = 1" by simp
    then show ?thesis by (simp add: blen.simps [of "Suc 0"] blen.simps [of 0])
  next
    case False
    with 1 have IH: "2 ^ (blen (n div 2) - 1) \<le> n div 2" "n div 2 < 2 ^ blen (n div 2)"
      "0 < blen (n div 2)" by simp_all
    have b: "blen n = Suc (blen (n div 2))" using 1 by (simp add: blen.simps [of n])
    have "2 * 2 ^ (blen (n div 2) - 1) = (2::nat) ^ blen (n div 2)"
      using IH(3) by (simp add: power_eq_if)
    then have "2 ^ (blen n - 1) = 2 * (2::nat) ^ (blen (n div 2) - 1)" and "2 ^ blen n = 2 * (2::nat) ^ blen (n div 2)"
      using b by simp_all
    with IH b show ?thesis by linarith
  qed
qed

lemma blen_pow2:
  assumes "0 < n"
  shows "pow2 (int (blen n) - 1) \<le> of_nat n" and "of_nat n < pow2 (int (blen n))"
proof -
  note b = blen_bounds [OF assms, THEN conjunct1] blen_bounds [OF assms, THEN conjunct2, THEN conjunct1]
    blen_bounds [OF assms, THEN conjunct2, THEN conjunct2]
  have "int (blen n) - 1 = int (blen n - 1)" using b(3) by simp
  then have "pow2 (int (blen n) - 1) = of_nat (2 ^ (blen n - 1))"
    by (simp only: pow2_nat of_nat_power of_nat_numeral)
  also have "\<dots> \<le> of_nat n" using b(1) by (simp only: of_nat_le_iff)
  finally show "pow2 (int (blen n) - 1) \<le> of_nat n" .
  have "of_nat n < (of_nat (2 ^ blen n) :: rat)" using b(2) by (simp only: of_nat_less_iff)
  then show "of_nat n < pow2 (int (blen n))" by (simp add: pow2_nat)
qed

lemma ilog2_bounds:
  assumes "0 < x" shows "pow2 (ilog2 x) \<le> x" and "x < pow2 (ilog2 x + 1)"
proof -
  obtain p q where pq: "quotient_of x = (p, q)" by (cases "quotient_of x")
  have q: "0 < q" using pq quotient_of_denom_pos by blast
  have x: "x = of_int p / of_int q" using pq quotient_of_div by blast
  with assms q have p: "0 < p" by (simp add: zero_less_divide_iff)
  define a b where "a = int (blen (nat p))" and "b = int (blen (nat q))"
  have P: "pow2 (a - 1) \<le> of_int p" "of_int p < pow2 a"
    and Q: "pow2 (b - 1) \<le> of_int q" "of_int q < pow2 b"
    using blen_pow2 [of "nat p"] blen_pow2 [of "nat q"] p q by (simp_all add: a_def b_def)
  have "x < pow2 a / pow2 (b - 1)"
    unfolding x using P(2) Q(1) p q by (intro frac_less) simp_all
  then have up: "x < pow2 (a - b + 1)" by (simp add: pow2_diff [symmetric] algebra_simps)
  have "pow2 (a - 1) / pow2 b < x"
    unfolding x using P(1) Q(2) p q by (intro frac_less2) simp_all
  then have lo: "pow2 (a - b - 1) < x" by (simp add: pow2_diff [symmetric] algebra_simps)
  have il: "ilog2 x = (if pow2 (a - b) \<le> x then a - b else a - b - 1)"
    by (simp add: ilog2_def pq a_def b_def)
  show "pow2 (ilog2 x) \<le> x" and "x < pow2 (ilog2 x + 1)"
    using il up lo by (auto split: if_splits)
qed

lemma ilog2_unique: "0 < x \<Longrightarrow> pow2 k \<le> x \<Longrightarrow> x < pow2 (k + 1) \<Longrightarrow> ilog2 x = k"
proof -
  assume a: "0 < x" "pow2 k \<le> x" "x < pow2 (k + 1)"
  have "pow2 (ilog2 x) < pow2 (k + 1)" using ilog2_bounds(1) [OF a(1)] a(3) by linarith
  moreover have "pow2 k < pow2 (ilog2 x + 1)" using ilog2_bounds(2) [OF a(1)] a(2) by linarith
  ultimately show ?thesis by simp
qed

lemma ilog2_mono: "0 < x \<Longrightarrow> x \<le> y \<Longrightarrow> ilog2 x \<le> ilog2 y"
proof -
  assume a: "0 < x" "x \<le> y"
  have "pow2 (ilog2 x) < pow2 (ilog2 y + 1)"
    using ilog2_bounds(1) [OF a(1)] ilog2_bounds(2) [of y] a by linarith
  then show ?thesis by simp
qed

lemma ilog2_less: "0 < x \<Longrightarrow> x < pow2 k \<Longrightarrow> ilog2 x < k"
  using ilog2_bounds(1) [of x] by (metis order_le_less_trans pow2_less)

section \<open>Rounding a magnitude to 53 significant bits\<close>

text \<open>Round half to even.\<close>

definition rhe :: "rat \<Rightarrow> int" where
  "rhe x =
     (let f = \<lfloor>x\<rfloor>; d = x - of_int f
      in if d < 1 / 2 then f else if 1 / 2 < d then f + 1 else if even f then f else f + 1)"

text \<open>The unit in the last place of a positive magnitude; \<open>-1022\<close> is the least normal exponent.\<close>

definition ulp :: "rat \<Rightarrow> rat" where
  "ulp a = pow2 (max (ilog2 a) (- 1022) - 52)"

definition rmag :: "rat \<Rightarrow> rat" where
  "rmag a = (if a = 0 then 0 else of_int (rhe (a / ulp a)) * ulp a)"

lemma rhe_of_int [simp]: "rhe (of_int n) = n"
  by (simp add: rhe_def)

lemma rhe_error: "\<bar>of_int (rhe x) - x\<bar> \<le> 1 / 2"
proof -
  have "of_int \<lfloor>x\<rfloor> \<le> x" "x < of_int \<lfloor>x\<rfloor> + 1" by linarith+
  then show ?thesis by (simp add: rhe_def Let_def abs_le_iff)
qed

lemma rhe_mono: assumes "x \<le> y" shows "rhe x \<le> rhe y"
proof (rule ccontr)
  assume "\<not> rhe x \<le> rhe y"
  then have g: "rhe y + 1 \<le> rhe x" by simp
  then have "of_int (rhe y) + 1 \<le> (of_int (rhe x) :: rat)"
    by (metis of_int_1 of_int_add of_int_le_iff)
  with rhe_error [of x] rhe_error [of y] assms
  have "x = of_int (rhe x) - 1 / 2" and "y = of_int (rhe y) + 1 / 2" and "x = y"
    by (auto simp: abs_le_iff)
  with g show False by simp
qed

lemma ulp_pos [simp]: "0 < ulp a"
  by (simp add: ulp_def)

lemma ulp_neq_0 [simp]: "ulp a \<noteq> 0"
  by (simp add: ulp_def)

lemma rmag_0 [simp]: "rmag 0 = 0"
  by (simp add: rmag_def)

lemma rmag_error: assumes "0 < a" shows "\<bar>rmag a - a\<bar> \<le> ulp a / 2"
proof -
  have "rmag a - a = (of_int (rhe (a / ulp a)) - a / ulp a) * ulp a"
    using assms ulp_pos [of a] by (simp add: rmag_def left_diff_distrib)
  then have "\<bar>rmag a - a\<bar> = \<bar>of_int (rhe (a / ulp a)) - a / ulp a\<bar> * ulp a"
    by (simp add: abs_mult less_imp_le)
  also have "\<dots> \<le> 1 / 2 * ulp a" by (intro mult_right_mono rhe_error) (simp add: less_imp_le)
  finally show ?thesis by simp
qed

lemma rmag_nonneg: "0 \<le> a \<Longrightarrow> 0 \<le> rmag a"
proof -
  assume "0 \<le> a"
  then have "rhe 0 \<le> rhe (a / ulp a)" by (intro rhe_mono) (simp add: less_imp_le)
  then show ?thesis using rhe_of_int [of 0] by (simp add: rmag_def less_imp_le)
qed

text \<open>A multiple of the unit in the last place is its own rounding.\<close>

lemma rmag_exact: "0 < a \<Longrightarrow> a = of_int n * ulp a \<Longrightarrow> rmag a = a"
  by (metis less_irrefl nonzero_eq_divide_eq rhe_of_int rmag_def ulp_pos)

text \<open>Integer multiples of \<open>2\<^sup>e\<close> with at most 53 bits are representable.\<close>

lemma rmag_repr:
  assumes "a = of_int n * pow2 e" "0 \<le> a" "a \<le> pow2 (e + 53)" "- 1074 \<le> e"
  shows "rmag a = a"
proof (cases "a = 0")
  case False
  with assms(2) have pos: "0 < a" by linarith
  show ?thesis
  proof (cases "a = pow2 (e + 53)")
    case True
    then have "ilog2 a = e + 53" by (intro ilog2_unique) (simp_all add: pos)
    then have "ulp a = pow2 (e + 1)" using assms(4) by (simp add: ulp_def add.commute)
    then have "a = of_int (2 ^ 52) * ulp a" using True pow2_add [of 52 "e + 1"] by (simp add: pow2_numeral add.commute)
    with pos show ?thesis by (rule rmag_exact)
  next
    case False
    then have "ilog2 a < e + 53" using assms(3) pos by (intro ilog2_less) simp_all
    then have "max (ilog2 a) (- 1022) - 52 \<le> e" using assms(4) by simp
    then obtain d where d: "e = max (ilog2 a) (- 1022) - 52 + int d" by (rule zle_iff_zadd [THEN iffD1, THEN exE])
    then have "pow2 e = ulp a * 2 ^ d" by (simp only: pow2_add pow2_nat ulp_def)
    then have "a = of_int (n * 2 ^ d) * ulp a" using assms(1) by (simp add: ac_simps)
    with pos show ?thesis by (rule rmag_exact)
  qed
qed simp

lemma rmag_le_pow2: assumes "0 < a" "a \<le> pow2 k" "- 1022 \<le> k" shows "rmag a \<le> pow2 k"
proof -
  have "ilog2 a \<le> k" using assms ilog2_bounds(1) [of a] by (metis order_trans pow2_le)
  define j where "j = k - (max (ilog2 a) (- 1022) - 52)"
  have j: "0 \<le> j" using \<open>ilog2 a \<le> k\<close> assms(3) by (simp add: j_def)
  have "pow2 k = pow2 j * ulp a" by (simp add: j_def ulp_def pow2_add [symmetric])
  then have k: "pow2 k = of_int (2 ^ nat j) * ulp a" using j by (simp add: pow2_def)
  then have "a / ulp a \<le> of_int (2 ^ nat j)" using assms(2) by (simp add: pos_divide_le_eq)
  then have "rhe (a / ulp a) \<le> 2 ^ nat j" using rhe_mono rhe_of_int by metis
  then have "of_int (rhe (a / ulp a)) \<le> (of_int (2 ^ nat j) :: rat)" by (simp only: of_int_le_iff)
  then show ?thesis using k assms(1) by (simp add: rmag_def mult_right_mono less_imp_le)
qed

lemma rmag_ge_pow2: assumes "pow2 k \<le> a" "- 1022 \<le> k" shows "pow2 k \<le> rmag a"
proof -
  have pos: "0 < a" using assms(1) pow2_pos [of k] by linarith
  have "pow2 k < pow2 (ilog2 a + 1)" using assms(1) ilog2_bounds(2) [OF pos] by linarith
  then have l: "k \<le> ilog2 a" by simp
  then have "ulp a = pow2 (ilog2 a - 52)" using assms(2) by (simp add: ulp_def)
  then have u: "pow2 (ilog2 a) = of_int (2 ^ 52) * ulp a" using pow2_add [of 52 "ilog2 a - 52"] by (simp add: pow2_numeral)
  then have "of_int (2 ^ 52) \<le> a / ulp a" using ilog2_bounds(1) [OF pos] by (simp add: pos_le_divide_eq)
  then have "2 ^ 52 \<le> rhe (a / ulp a)" using rhe_mono rhe_of_int by metis
  then have "of_int (2 ^ 52) \<le> (of_int (rhe (a / ulp a)) :: rat)" by (simp only: of_int_le_iff)
  then have "pow2 (ilog2 a) \<le> rmag a" using u pos by (simp add: rmag_def mult_right_mono less_imp_le)
  with l show ?thesis by (meson order_trans pow2_le)
qed

lemma rmag_mono: assumes "0 \<le> a" "a \<le> b" shows "rmag a \<le> rmag b"
proof (cases "a = 0")
  case True
  with assms show ?thesis by (simp add: rmag_nonneg)
next
  case False
  with assms have pos: "0 < a" "0 < b" by simp_all
  define E F where "E = max (ilog2 a) (- 1022)" and "F = max (ilog2 b) (- 1022)"
  have "E \<le> F" using ilog2_mono [OF pos(1) assms(2)] by (simp add: E_def F_def)
  show ?thesis
  proof (cases "E = F")
    case True
    then have "ulp a = ulp b" by (simp add: ulp_def E_def F_def)
    then have "rhe (a / ulp a) \<le> rhe (b / ulp b)"
      using assms(2) by (intro rhe_mono) (simp add: divide_right_mono less_imp_le)
    then show ?thesis using pos \<open>ulp a = ulp b\<close>
      by (simp add: rmag_def mult_right_mono less_imp_le)
  next
    case False
    with \<open>E \<le> F\<close> have EF: "E + 1 \<le> F" by simp
    have "a \<le> pow2 (E + 1)"
      using ilog2_bounds(2) [OF pos(1)] by (simp add: E_def)
        (meson less_imp_le max.cobounded1 order_trans pow2_le add_le_cancel_right)
    then have "rmag a \<le> pow2 (E + 1)" using pos by (intro rmag_le_pow2) (simp_all add: E_def)
    moreover have "F = ilog2 b" using EF by (simp add: E_def F_def max_def split: if_splits)
    then have "pow2 F \<le> rmag b"
      using ilog2_bounds(1) [OF pos(2)] by (intro rmag_ge_pow2) (simp_all add: F_def)
    ultimately show ?thesis using EF by (meson order_trans pow2_le)
  qed
qed

section \<open>Floats and their operations\<close>

text \<open>\<open>PInf True\<close> is negative infinity; \<open>PFin 0\<close> is positive zero.\<close>

datatype pyfloat = PNan | PInf bool | PNegZero | PFin rat

definition rnd :: "rat \<Rightarrow> pyfloat" where
  "rnd x =
     (let v = rmag \<bar>x\<bar> in
      if pow2 1024 \<le> v then PInf (x < 0)
      else if v = 0 then (if x < 0 then PNegZero else PFin 0)
      else PFin (if x < 0 then - v else v))"

fun is_finite :: "pyfloat \<Rightarrow> bool" where
  "is_finite PNan = False"
| "is_finite (PInf s) = False"
| "is_finite PNegZero = True"
| "is_finite (PFin x) = True"

fun fval :: "pyfloat \<Rightarrow> rat" where
  "fval (PFin x) = x"
| "fval _ = 0"

text \<open>A value that a float can hold.\<close>

definition is_double :: "rat \<Rightarrow> bool" where
  "is_double x \<longleftrightarrow> rmag \<bar>x\<bar> = \<bar>x\<bar> \<and> \<bar>x\<bar> < pow2 1024"

fun fabs :: "pyfloat \<Rightarrow> pyfloat" where
  "fabs PNan = PNan"
| "fabs (PInf s) = PInf False"
| "fabs PNegZero = PFin 0"
| "fabs (PFin x) = PFin \<bar>x\<bar>"

fun fsub :: "pyfloat \<Rightarrow> pyfloat \<Rightarrow> pyfloat" where
  "fsub PNan y = PNan"
| "fsub x PNan = PNan"
| "fsub (PInf s) (PInf t) = (if s = t then PNan else PInf s)"
| "fsub (PInf s) y = PInf s"
| "fsub x (PInf t) = PInf (\<not> t)"
| "fsub PNegZero (PFin y) = (if y = 0 then PNegZero else rnd (- y))"
| "fsub x y = rnd (fval x - fval y)"

text \<open>\<open>x < y\<close> and \<open>x \<le> y\<close>: every comparison with a NaN is false.\<close>

fun flt :: "pyfloat \<Rightarrow> pyfloat \<Rightarrow> bool" where
  "flt PNan y = False"
| "flt x PNan = False"
| "flt (PInf s) (PInf t) = (s \<and> \<not> t)"
| "flt (PInf s) y = s"
| "flt x (PInf t) = (\<not> t)"
| "flt x y = (fval x < fval y)"

fun fle :: "pyfloat \<Rightarrow> pyfloat \<Rightarrow> bool" where
  "fle PNan y = False"
| "fle x PNan = False"
| "fle x y = (\<not> flt y x)"

text \<open>A float against an \<^verbatim>\<open>int\<close> is compared exactly, without converting the integer.\<close>

definition fle_int :: "pyfloat \<Rightarrow> int \<Rightarrow> bool" where
  "fle_int x n = fle x (PFin (of_int n))"

definition flt_int :: "pyfloat \<Rightarrow> int \<Rightarrow> bool" where
  "flt_int x n = flt x (PFin (of_int n))"

text \<open>\<^verbatim>\<open>float(n)\<close>: an integer beyond the largest float raises.\<close>

definition float_of_int :: "int \<Rightarrow> pyfloat res" where
  "float_of_int n = (case rnd (of_int n) of PInf s \<Rightarrow> Inl OverflowError | f \<Rightarrow> Inr f)"

text \<open>\<open>min(xs, key=f)\<close>: the first element whose key no other key is below.\<close>

fun py_min_from :: "('a \<Rightarrow> pyfloat) \<Rightarrow> 'a \<Rightarrow> 'a list \<Rightarrow> 'a" where
  "py_min_from f m [] = m"
| "py_min_from f m (x # xs) = py_min_from f (if flt (f x) (f m) then x else m) xs"

lemma rnd_0 [simp]: "rnd 0 = PFin 0"
  using pow2_pos [of 1024] by (simp add: rnd_def Let_def not_le)

text \<open>A difference of two finite floats whose exact magnitude is \<open>a\<close> has the rounded magnitude.\<close>

lemma fabs_rnd:
  assumes "rmag \<bar>x\<bar> < pow2 1024" shows "fabs (rnd x) = PFin (rmag \<bar>x\<bar>)"
proof -
  have "0 \<le> rmag \<bar>x\<bar>" by (simp add: rmag_nonneg)
  then show ?thesis using assms by (auto simp: rnd_def Let_def not_le)
qed

lemma fsub_fin: "fsub (PFin x) (PFin y) = rnd (x - y)"
  by simp

lemma is_doubleD: "is_double x \<Longrightarrow> 0 < x \<Longrightarrow> \<exists>n. x = of_int n * ulp x"
  by (auto simp: is_double_def rmag_def intro: sym)

lemma py_min_from_mem: "py_min_from f m xs \<in> insert m (set xs)"
proof (induction xs arbitrary: m)
  case (Cons a xs)
  then show ?case using Cons [of a] Cons [of m] by auto
qed simp

text \<open>
  When the running minimum is not above any later key it is the answer; elements whose keys are
  above a later key are passed over.
\<close>

lemma py_min_from_stay: "(\<And>x. x \<in> set xs \<Longrightarrow> \<not> flt (f x) (f m)) \<Longrightarrow> py_min_from f m xs = m"
  by (induction xs) simp_all

lemma py_min_from_split:
  assumes "\<And>y. y \<in> insert m (set xs) \<Longrightarrow> flt (f x) (f y)"
    and "\<And>y. y \<in> set zs \<Longrightarrow> \<not> flt (f y) (f x)"
  shows "py_min_from f m (xs @ x # zs) = x"
  using assms
proof (induction xs arbitrary: m)
  case (Cons a xs)
  then have "py_min_from f a (xs @ x # zs) = x" and "py_min_from f m (xs @ x # zs) = x"
    by (metis insert_iff list.set(2))+
  then show ?case by simp
qed (simp add: py_min_from_stay)

end
