(* ===== verification/Json.thy ===== *)
theory Json
  imports Codec Pyfloat
begin

text \<open>
  JSON values as \<^verbatim>\<open>json.loads\<close> builds them and \<^verbatim>\<open>json.dumps\<close> takes them, and the Python
  operations the program applies to them: subscription, \<^verbatim>\<open>dict.get\<close>, truth value, and the
  decoders of hexadecimal and Base64 fields. An object keeps its members in order; a repeated key
  has the value of its last occurrence. The text syntax is in \<open>Json_Text\<close>.
\<close>

datatype json =
    JNull
  | JBool bool
  | JInt int
  | JFloat pyfloat
  | JStr string
  | JList "json list"
  | JObj "(string \<times> json) list"

definition obj_lookup :: "(string \<times> json) list \<Rightarrow> string \<Rightarrow> json option" where
  "obj_lookup kvs k = map_of (rev kvs) k"

text \<open>\<open>j[k]\<close> for a string \<open>k\<close>.\<close>

fun json_getitem :: "json \<Rightarrow> string \<Rightarrow> json res" where
  "json_getitem (JObj kvs) k = res_of_option (KeyError k) (obj_lookup kvs k)"
| "json_getitem j k = Inl TypeError"

text \<open>\<open>j.get(k, d)\<close>.\<close>

fun json_get :: "json \<Rightarrow> string \<Rightarrow> json \<Rightarrow> json res" where
  "json_get (JObj kvs) k d = Inr (case obj_lookup kvs k of None \<Rightarrow> d | Some v \<Rightarrow> v)"
| "json_get j k d = Inl AttributeError"

fun json_truthy :: "json \<Rightarrow> bool" where
  "json_truthy JNull = False"
| "json_truthy (JBool b) = b"
| "json_truthy (JInt i) = (i \<noteq> 0)"
| "json_truthy (JFloat f) = (f \<noteq> PNegZero \<and> f \<noteq> PFin 0)"
| "json_truthy (JStr s) = (s \<noteq> [])"
| "json_truthy (JList xs) = (xs \<noteq> [])"
| "json_truthy (JObj kvs) = (kvs \<noteq> [])"

text \<open>\<^verbatim>\<open>bytes.fromhex(j)\<close> and \<^verbatim>\<open>base64.b64decode(j)\<close>: anything but a string is a \<^verbatim>\<open>TypeError\<close>.\<close>

fun json_fromhex :: "json \<Rightarrow> bytes res" where
  "json_fromhex (JStr s) = fromhex s"
| "json_fromhex j = Inl TypeError"

fun json_b64decode :: "json \<Rightarrow> bytes res" where
  "json_b64decode (JStr s) = b64decode s"
| "json_b64decode j = Inl TypeError"

definition hex_field :: "json \<Rightarrow> string \<Rightarrow> bytes res" where
  "hex_field j k = bind_res (json_getitem j k) json_fromhex"

definition b64_field :: "json \<Rightarrow> string \<Rightarrow> bytes res" where
  "b64_field j k = bind_res (json_getitem j k) json_b64decode"

definition JHex :: "bytes \<Rightarrow> json" where
  "JHex b = JStr (hex_encode b)"

definition JB64 :: "bytes \<Rightarrow> json" where
  "JB64 b = JStr (b64encode b)"

lemma json_fromhex_JHex [simp]: "json_fromhex (JHex b) = Inr b"
  by (simp add: JHex_def hexc.dec_enc)

lemma json_b64decode_JB64 [simp]: "json_b64decode (JB64 b) = Inr b"
  by (simp add: JB64_def b64c.dec_enc)

text \<open>Equality of values read back from a wire object by key.\<close>

lemma hex_field_obj: "obj_lookup kvs k = Some (JHex b) \<Longrightarrow> hex_field (JObj kvs) k = Inr b"
  by (simp add: hex_field_def)

lemma b64_field_obj: "obj_lookup kvs k = Some (JB64 b) \<Longrightarrow> b64_field (JObj kvs) k = Inr b"
  by (simp add: b64_field_def)

end
