(* ===== verification/Sha256.thy ===== *)
theory Sha256
  imports Codec
begin

unbundle bit_operations_syntax

text \<open>
  \<^verbatim>\<open>hashlib.sha256\<close>, the one hash of the standard library the program calls, as FIPS 180-4
  defines it: padding, the message schedule and the sixty-four rounds on 32-bit words. The
  development uses only that the digest has 32 bytes and equal inputs have equal digests; the
  published test vector checks the definition.
\<close>

type_synonym u32 = "32 word"

definition rotr32 :: "nat \<Rightarrow> u32 \<Rightarrow> u32" where
  "rotr32 n x = drop_bit n x OR push_bit (32 - n) x"

definition sha_ch :: "u32 \<Rightarrow> u32 \<Rightarrow> u32 \<Rightarrow> u32" where
  "sha_ch x y z = (x AND y) XOR (NOT x AND z)"

definition sha_maj :: "u32 \<Rightarrow> u32 \<Rightarrow> u32 \<Rightarrow> u32" where
  "sha_maj x y z = (x AND y) XOR (x AND z) XOR (y AND z)"

definition big_sigma0 :: "u32 \<Rightarrow> u32" where
  "big_sigma0 x = rotr32 2 x XOR rotr32 13 x XOR rotr32 22 x"

definition big_sigma1 :: "u32 \<Rightarrow> u32" where
  "big_sigma1 x = rotr32 6 x XOR rotr32 11 x XOR rotr32 25 x"

definition small_sigma0 :: "u32 \<Rightarrow> u32" where
  "small_sigma0 x = rotr32 7 x XOR rotr32 18 x XOR drop_bit 3 x"

definition small_sigma1 :: "u32 \<Rightarrow> u32" where
  "small_sigma1 x = rotr32 17 x XOR rotr32 19 x XOR drop_bit 10 x"

text \<open>
  The round constants are the first 32 bits of the fractional parts of the cube roots of the first
  64 primes; they are computed from that description. \<open>icbrt\<close> is the integer cube root by trial of
  descending bits, and the primes up to 311 are the numbers without a small divisor.
\<close>

fun icbrt :: "int list \<Rightarrow> int \<Rightarrow> int \<Rightarrow> int" where
  "icbrt [] n r = r"
| "icbrt (b # bs) n r = icbrt bs n (let r' = r + b in if r' * r' * r' \<le> n then r' else r)"

fun descending_bits :: "nat \<Rightarrow> int \<Rightarrow> int list \<Rightarrow> int list" where
  "descending_bits 0 b bs = bs"
| "descending_bits (Suc n) b bs = descending_bits n (2 * b) (b # bs)"

definition small_prime :: "int \<Rightarrow> bool" where
  "small_prime n = list_all (\<lambda>d. n = d \<or> n mod d \<noteq> 0) [2, 3, 5, 7, 11, 13, 17]"

definition sha_k :: "u32 list" where
  "sha_k =
     (let bits = descending_bits 35 1 []
      in map (\<lambda>p. of_int (icbrt bits (p * 2 ^ 96) 0)) (filter small_prime [2..311]))"

text \<open>The chaining value: the eight working variables.\<close>

record sha_state =
  ha :: u32
  hb :: u32
  hc :: u32
  hd' :: u32
  he :: u32
  hf :: u32
  hg :: u32
  hh :: u32

definition sha_init :: sha_state where
  "sha_init = \<lparr>ha = 0x6a09e667, hb = 0xbb67ae85, hc = 0x3c6ef372, hd' = 0xa54ff53a,
     he = 0x510e527f, hf = 0x9b05688c, hg = 0x1f83d9ab, hh = 0x5be0cd19\<rparr>"

text \<open>
  One round. The message schedule is kept as the sliding window of the last sixteen words: each
  round consumes its head and appends the next word.
\<close>

definition sha_round :: "u32 \<Rightarrow> u32 \<Rightarrow> sha_state \<Rightarrow> sha_state" where
  "sha_round k w s =
     (let t1 = hh s + big_sigma1 (he s) + sha_ch (he s) (hf s) (hg s) + k + w;
          t2 = big_sigma0 (ha s) + sha_maj (ha s) (hb s) (hc s)
      in \<lparr>ha = t1 + t2, hb = ha s, hc = hb s, hd' = hc s,
          he = hd' s + t1, hf = he s, hg = hf s, hh = hg s\<rparr>)"

definition sha_next_w :: "u32 list \<Rightarrow> u32" where
  "sha_next_w ws = small_sigma1 (ws ! 14) + ws ! 9 + small_sigma0 (ws ! 1) + ws ! 0"

fun sha_rounds :: "u32 list \<Rightarrow> u32 list \<Rightarrow> sha_state \<Rightarrow> sha_state" where
  "sha_rounds [] ws s = s"
| "sha_rounds (k # ks) ws s = sha_rounds ks (tl ws @ [sha_next_w ws]) (sha_round k (hd ws) s)"

definition sha_add :: "sha_state \<Rightarrow> sha_state \<Rightarrow> sha_state" where
  "sha_add s t = \<lparr>ha = ha s + ha t, hb = hb s + hb t, hc = hc s + hc t, hd' = hd' s + hd' t,
     he = he s + he t, hf = hf s + hf t, hg = hg s + hg t, hh = hh s + hh t\<rparr>"

text \<open>Sixteen big-endian words of a 64-byte block.\<close>

fun be_words :: "bytes \<Rightarrow> u32 list" where
  "be_words (a # b # c # d # rest) =
     (push_bit 24 (ucast a) OR push_bit 16 (ucast b) OR push_bit 8 (ucast c) OR ucast d)
     # be_words rest"
| "be_words _ = []"

definition sha_block :: "sha_state \<Rightarrow> bytes \<Rightarrow> sha_state" where
  "sha_block s blk = sha_add s (sha_rounds sha_k (be_words blk) s)"

definition sha_pad :: "bytes \<Rightarrow> bytes" where
  "sha_pad m =
     m @ [0x80] @ replicate ((119 - length m mod 64) mod 64) 0
       @ rev (le_bytes 8 (8 * length m))"

fun sha_blocks :: "nat \<Rightarrow> sha_state \<Rightarrow> bytes \<Rightarrow> sha_state" where
  "sha_blocks 0 s m = s"
| "sha_blocks (Suc n) s m = sha_blocks n (sha_block s (take 64 m)) (drop 64 m)"

definition word_bytes :: "u32 \<Rightarrow> bytes" where
  "word_bytes w =
     [ucast (drop_bit 24 w), ucast (drop_bit 16 w), ucast (drop_bit 8 w), ucast w]"

text \<open>\<^verbatim>\<open>hashlib.sha256(m).digest()\<close> and \<^verbatim>\<open>.hexdigest()\<close>.\<close>

definition sha256 :: "bytes \<Rightarrow> bytes" where
  "sha256 m =
     (let p = sha_pad m; s = sha_blocks (length p div 64) sha_init p
      in word_bytes (ha s) @ word_bytes (hb s) @ word_bytes (hc s) @ word_bytes (hd' s)
         @ word_bytes (he s) @ word_bytes (hf s) @ word_bytes (hg s) @ word_bytes (hh s))"

definition sha256_hex :: "bytes \<Rightarrow> string" where
  "sha256_hex m = hex_encode (sha256 m)"

lemma length_sha256 [simp]: "length (sha256 m) = 32"
  by (simp add: sha256_def word_bytes_def Let_def)

text \<open>Padding completes the last block.\<close>

lemma length_sha_pad: "length (sha_pad m) mod 64 = 0"
proof -
  define r where "r = length m mod 64"
  have r: "r < 64" by (simp add: r_def)
  have fill: "(r + (119 - r) mod 64 + 9) mod 64 = 0"
  proof (cases "r < 56")
    case True
    then have "(119 - r) mod 64 = 55 - r" by (simp add: mod_if)
    with True show ?thesis by simp
  next
    case False
    then have "(119 - r) mod 64 = 119 - r" by simp
    with False r show ?thesis by simp
  qed
  have "length (sha_pad m) mod 64 = (length m + ((119 - r) mod 64 + 9)) mod 64"
    by (simp add: sha_pad_def r_def ac_simps)
  also have "\<dots> = (r + ((119 - r) mod 64 + 9)) mod 64" by (simp add: r_def mod_add_left_eq)
  finally show ?thesis using fill by (simp add: ac_simps)
qed

text \<open>The FIPS 180-4 test vector for \<^verbatim>\<open>abc\<close>.\<close>

lemma sha256_abc:
  "sha256_hex (encode ''abc'') = ''ba7816bf8f01cfea414140de5dae2223b00361a396177a9cb410ff61f20015ad''"
  by code_simp

end
