(* ===== verification/Crypto.thy ===== *)
theory Crypto
  imports Sha256
begin

text \<open>
  The third-party cryptography the program calls: the packages \<^verbatim>\<open>cryptography\<close> (HKDF, AES-GCM,
  X25519, Ed25519) and \<^verbatim>\<open>oqs\<close> (ML-KEM-768, ML-DSA-65). Their code is not part of the program, so
  every operation is a field of a record that the model takes as an argument. An operation that
  may raise returns a result, with any exception. Keys are their raw bytes; randomness a library
  call draws inside is an explicit argument of the call.

  The predicates below state documented behaviour of these packages: decryption undoes
  encryption, both sides of a key agreement get the same secret, a signature made with a key
  verifies under its public half. They are hypotheses of the round-trip theorems only; every
  fail-closed theorem holds for arbitrary operations. \<open>sample_crypto\<close> is a concrete instance that
  satisfies all of them, for the witnesses.
\<close>

record crypto =
  hkdf_sha512 :: "nat \<Rightarrow> bytes \<Rightarrow> bytes \<Rightarrow> bytes \<Rightarrow> bytes"
    \<comment> \<open>length, salt, info, input key\<close>
  aesgcm_encrypt :: "bytes \<Rightarrow> bytes \<Rightarrow> bytes \<Rightarrow> bytes option \<Rightarrow> bytes res"
    \<comment> \<open>key, nonce, data, associated data\<close>
  aesgcm_decrypt :: "bytes \<Rightarrow> bytes \<Rightarrow> bytes \<Rightarrow> bytes option \<Rightarrow> bytes res"
  x25519_public :: "bytes \<Rightarrow> bytes"
  x25519_load :: "bytes \<Rightarrow> bytes res"
    \<comment> \<open>\<^verbatim>\<open>X25519PublicKey.from_public_bytes\<close>\<close>
  x25519_exchange :: "bytes \<Rightarrow> bytes \<Rightarrow> bytes res"
  ed25519_public :: "bytes \<Rightarrow> bytes"
  ed25519_load :: "bytes \<Rightarrow> bytes res"
    \<comment> \<open>\<^verbatim>\<open>Ed25519PublicKey.from_public_bytes\<close>\<close>
  ed25519_sign :: "bytes \<Rightarrow> bytes \<Rightarrow> bytes"
  ed25519_verify :: "bytes \<Rightarrow> bytes \<Rightarrow> bytes \<Rightarrow> unit res"
    \<comment> \<open>public key, signature, message\<close>
  oqs_import :: "unit res"
    \<comment> \<open>\<^verbatim>\<open>importlib.import_module("oqs")\<close>\<close>
  oqs_kem_public :: "bytes \<Rightarrow> bytes"
  oqs_encap :: "bytes \<Rightarrow> bytes \<Rightarrow> (bytes \<times> bytes) res"
    \<comment> \<open>coins, peer public key\<close>
  oqs_decap :: "bytes \<Rightarrow> bytes \<Rightarrow> bytes res"
  oqs_sig_public :: "bytes \<Rightarrow> bytes"
  oqs_sign :: "bytes \<Rightarrow> bytes \<Rightarrow> bytes res"
  oqs_verify :: "bytes \<Rightarrow> bytes \<Rightarrow> bytes \<Rightarrow> bool res"
    \<comment> \<open>message, signature, public key\<close>

section \<open>Documented behaviour\<close>

definition aead_correct :: "crypto \<Rightarrow> bool" where
  "aead_correct c \<longleftrightarrow>
     (\<forall>k n p a. length k = 32 \<longrightarrow> length n = 12 \<longrightarrow>
        (\<exists>ct. aesgcm_encrypt c k n p a = Inr ct \<and> length ct = length p + 16
              \<and> aesgcm_decrypt c k n ct a = Inr p))"

definition hkdf_length :: "crypto \<Rightarrow> bool" where
  "hkdf_length c \<longleftrightarrow> (\<forall>n salt info ikm. length (hkdf_sha512 c n salt info ikm) = n)"

text \<open>Key agreement on public halves that load; the shared secret of honest keys is not refused.\<close>

definition x25519_agrees :: "crypto \<Rightarrow> bool" where
  "x25519_agrees c \<longleftrightarrow>
     (\<forall>a. length (x25519_public c a) = 32 \<and> x25519_load c (x25519_public c a) = Inr (x25519_public c a)) \<and>
     (\<forall>a b. \<exists>s. x25519_exchange c a (x25519_public c b) = Inr s
                \<and> x25519_exchange c b (x25519_public c a) = Inr s)"

definition ed25519_correct :: "crypto \<Rightarrow> bool" where
  "ed25519_correct c \<longleftrightarrow>
     (\<forall>sk m. length (ed25519_public c sk) = 32
        \<and> ed25519_load c (ed25519_public c sk) = Inr (ed25519_public c sk)
        \<and> length (ed25519_sign c sk m) = 64
        \<and> ed25519_verify c (ed25519_public c sk) (ed25519_sign c sk m) m = Inr ())"

text \<open>A signature that does not verify raises \<^verbatim>\<open>InvalidSignature\<close>, and nothing else.\<close>

definition ed25519_rejects :: "crypto \<Rightarrow> bool" where
  "ed25519_rejects c \<longleftrightarrow> (\<forall>pk s m e. ed25519_verify c pk s m = Inl e \<longrightarrow> e = InvalidSignature)"

text \<open>ML-KEM has a negligible failure rate, so correctness is stated of one encapsulation.\<close>

definition mlkem_correct :: "crypto \<Rightarrow> bytes \<Rightarrow> bytes \<Rightarrow> bool" where
  "mlkem_correct c coins sk \<longleftrightarrow>
     oqs_import c = Inr () \<and>
     (\<exists>ct ss. oqs_encap c coins (oqs_kem_public c sk) = Inr (ct, ss)
                        \<and> oqs_decap c sk ct = Inr ss)"

definition mldsa_correct :: "crypto \<Rightarrow> bool" where
  "mldsa_correct c \<longleftrightarrow>
     oqs_import c = Inr () \<and>
     (\<forall>sk m. \<exists>s. oqs_sign c sk m = Inr s \<and> length s < 2 ^ 32
                \<and> oqs_verify c m s (oqs_sig_public c sk) = Inr True)"

section \<open>A concrete instance\<close>

definition sample_crypto :: crypto where
  "sample_crypto = \<lparr>
     hkdf_sha512 = (\<lambda>n salt info ikm. take n (ikm @ replicate n 0)),
     aesgcm_encrypt = (\<lambda>k n p a. Inr (p @ replicate 16 0)),
     aesgcm_decrypt = (\<lambda>k n ct a. if length ct < 16 then Inl InvalidTag
                                  else Inr (take (length ct - 16) ct)),
     x25519_public = (\<lambda>sk. fit 32 sk),
     x25519_load = (\<lambda>pk. if length pk = 32 then Inr pk else Inl (ValueError ''key length'')),
     x25519_exchange = (\<lambda>sk pk. Inr (map2 (+) (fit 32 sk) pk)),
     ed25519_public = (\<lambda>sk. fit 32 sk),
     ed25519_load = (\<lambda>pk. if length pk = 32 then Inr pk else Inl (ValueError ''key length'')),
     ed25519_sign = (\<lambda>sk m. fit 32 sk @ fit 32 m),
     ed25519_verify = (\<lambda>pk s m. if s = pk @ fit 32 m then Inr () else Inl InvalidSignature),
     oqs_import = Inr (),
     oqs_kem_public = (\<lambda>sk. fit 32 sk),
     oqs_encap = (\<lambda>coins pk. Inr (fit 32 coins, fit 32 coins @ pk)),
     oqs_decap = (\<lambda>sk ct. Inr (ct @ fit 32 sk)),
     oqs_sig_public = (\<lambda>sk. fit 32 sk),
     oqs_sign = (\<lambda>sk m. Inr (fit 32 sk @ fit 32 m)),
     oqs_verify = (\<lambda>m s pk. Inr (s = pk @ fit 32 m))\<rparr>"

lemma map2_add_commute: "map2 (+) xs ys = map2 (+) ys (xs :: bytes)"
  by (induction xs ys rule: list_induct2') (simp_all add: add.commute)

lemma sample_aead: "aead_correct sample_crypto"
  by (simp add: aead_correct_def sample_crypto_def)

lemma sample_hkdf: "hkdf_length sample_crypto"
  by (auto simp: hkdf_length_def sample_crypto_def)

lemma sample_x25519: "x25519_agrees sample_crypto"
  by (auto simp: x25519_agrees_def sample_crypto_def intro: map2_add_commute)

lemma sample_ed25519: "ed25519_correct sample_crypto"
  by (simp add: ed25519_correct_def sample_crypto_def)

lemma sample_ed25519_rejects: "ed25519_rejects sample_crypto"
  by (simp add: ed25519_rejects_def sample_crypto_def split: if_splits)

lemma sample_mlkem: "mlkem_correct sample_crypto coins sk"
  by (simp add: mlkem_correct_def sample_crypto_def)

lemma sample_mldsa: "mldsa_correct sample_crypto"
  by (simp add: mldsa_correct_def sample_crypto_def)

lemmas sample_correct =
  sample_aead sample_hkdf sample_x25519 sample_ed25519 sample_mlkem sample_mldsa

end
