(* ===== verification/Pqc.thy ===== *)
theory Pqc
  imports Crypto
begin

text \<open>
  \<^verbatim>\<open>src/src/pqc.py\<close>: the lazily loaded \<^verbatim>\<open>oqs\<close> wrapper and the ML-KEM / ML-DSA operations. The
  module keeps one piece of state, the loaded library, and changes the process environment before
  its first import; both are in the record \<open>pqc_module\<close>. The operations create a library object,
  use it and free it; here an operation is the value it returns or the exception that leaves it, and
  \<open>Pqc_Objects\<close> adds the objects.
\<close>

section \<open>Loading the library\<close>

record pqc_module =
  oqs_loaded :: bool
    \<comment> \<open>\<^verbatim>\<open>_oqs is not None\<close>\<close>
  environ :: "string \<rightharpoonup> string"
    \<comment> \<open>\<^verbatim>\<open>os.environ\<close>\<close>

text \<open>\<^verbatim>\<open>not os.environ.get(k)\<close>: unset or empty.\<close>

definition env_unset :: "(string \<rightharpoonup> string) \<Rightarrow> string \<Rightarrow> bool" where
  "env_unset env k = (case env k of None \<Rightarrow> True | Some v \<Rightarrow> v = [])"

definition env_get :: "(string \<rightharpoonup> string) \<Rightarrow> string \<Rightarrow> string \<Rightarrow> string" where
  "env_get env k d = (case env k of None \<Rightarrow> d | Some v \<Rightarrow> v)"

text \<open>The environment changes of \<^verbatim>\<open>_load\<close>, given \<open>expanduser("~/_oqs")\<close> and \<open>isdir\<close>.\<close>

definition configure_env :: "string \<Rightarrow> (string \<Rightarrow> bool) \<Rightarrow> (string \<rightharpoonup> string) \<Rightarrow> (string \<rightharpoonup> string)" where
  "configure_env home_oqs isdir env =
     (if env_unset env ''OQS_INSTALL_PATH'' then
        (if isdir home_oqs then
           (let env1 = env(''OQS_INSTALL_PATH'' \<mapsto> home_oqs)
            in env1(''LD_LIBRARY_PATH'' \<mapsto> home_oqs @ ''/lib:'' @ env_get env1 ''LD_LIBRARY_PATH'' []))
         else env)
      else env)"

definition oqs_load ::
    "crypto \<Rightarrow> string \<Rightarrow> (string \<Rightarrow> bool) \<Rightarrow> pqc_module \<Rightarrow> unit res \<times> pqc_module" where
  "oqs_load c home_oqs isdir m =
     (if oqs_loaded m then (Inr (), m)
      else
        (let m1 = m\<lparr>environ := configure_env home_oqs isdir (environ m)\<rparr>
         in case oqs_import c of
              Inl e \<Rightarrow> (Inl e, m1)
            | Inr u \<Rightarrow> (Inr (), m1\<lparr>oqs_loaded := True\<rparr>)))"

definition pqc_available ::
    "crypto \<Rightarrow> string \<Rightarrow> (string \<Rightarrow> bool) \<Rightarrow> pqc_module \<Rightarrow> bool \<times> pqc_module" where
  "pqc_available c home_oqs isdir m =
     (case oqs_load c home_oqs isdir m of (r, m') \<Rightarrow> (is_ok r, m'))"

lemma configure_env_idem:
  "home_oqs \<noteq> [] \<Longrightarrow>
   configure_env home_oqs isdir (configure_env home_oqs isdir env) = configure_env home_oqs isdir env"
  by (simp add: configure_env_def env_unset_def Let_def)

section \<open>KEM, signatures, combiner\<close>

text \<open>Every operation calls \<^verbatim>\<open>_load()\<close> first; the coins of the encapsulation are explicit.\<close>

definition kem_private_public :: "crypto \<Rightarrow> bytes \<Rightarrow> bytes res" where
  "kem_private_public c sk = bind_res (oqs_import c) (\<lambda>_. Inr (oqs_kem_public c sk))"

definition kem_decap :: "crypto \<Rightarrow> bytes \<Rightarrow> bytes \<Rightarrow> bytes res" where
  "kem_decap c sk ct = oqs_decap c sk ct"

definition kem_encap :: "crypto \<Rightarrow> bytes \<Rightarrow> bytes \<Rightarrow> (bytes \<times> bytes) res" where
  "kem_encap c coins peer_public = bind_res (oqs_import c) (\<lambda>_. oqs_encap c coins peer_public)"

definition sig_generate :: "crypto \<Rightarrow> bytes \<Rightarrow> (bytes \<times> bytes) res" where
  "sig_generate c sk = bind_res (oqs_import c) (\<lambda>_. Inr (oqs_sig_public c sk, sk))"

definition sig_sign :: "crypto \<Rightarrow> bytes \<Rightarrow> bytes \<Rightarrow> bytes res" where
  "sig_sign c sk msg = bind_res (oqs_import c) (\<lambda>_. oqs_sign c sk msg)"

definition sig_verify :: "crypto \<Rightarrow> bytes \<Rightarrow> bytes \<Rightarrow> bytes \<Rightarrow> bool res" where
  "sig_verify c pk msg sig = bind_res (oqs_import c) (\<lambda>_. oqs_verify c msg sig pk)"

definition combine :: "crypto \<Rightarrow> bytes list \<Rightarrow> bytes \<Rightarrow> bytes \<Rightarrow> nat \<Rightarrow> bytes" where
  "combine c secrets salt info len = hkdf_sha512 c len salt info (concat secrets)"

lemma sig_verify_sign:
  "mldsa_correct c \<Longrightarrow>
   \<exists>s. sig_sign c sk m = Inr s \<and> length s < 2 ^ 32 \<and> sig_verify c (oqs_sig_public c sk) m s = Inr True"
  unfolding mldsa_correct_def sig_sign_def sig_verify_def by auto

lemma kem_decap_encap:
  "mlkem_correct c coins sk \<Longrightarrow>
   \<exists>ct ss. kem_encap c coins (oqs_kem_public c sk) = Inr (ct, ss) \<and> kem_decap c sk ct = Inr ss"
  unfolding mlkem_correct_def kem_encap_def kem_decap_def by auto

end
