(* ===== verification/Hybrid.thy ===== *)
theory Hybrid
  imports Pqc
begin

text \<open>
  \<^verbatim>\<open>src/src/hybrid.py\<close>: length-prefixed framing, the hybrid signature (Ed25519 and ML-DSA-65, both
  must verify) and the hybrid wrap of the content-encryption key (X25519 and ML-KEM-768, combined
  with HKDF). The frame is an interpretation of \<open>codec\<close>.
\<close>

section \<open>Framing\<close>

text \<open>\<^verbatim>\<open>b"".join(struct.pack(">I", len(p)) + p for p in parts)\<close>.\<close>

fun frame :: "bytes list \<Rightarrow> bytes res" where
  "frame [] = Inr []"
| "frame (p # ps) =
     bind_res (pack_be32 (length p)) (\<lambda>n. bind_res (frame ps) (\<lambda>r. Inr (n @ p @ r)))"

text \<open>
  The loop of \<^verbatim>\<open>unframe\<close>: \<open>i\<close> is the read position, \<open>out\<close> the parts so far. A slice past the end
  is short, not an error: only the length field is checked, by \<^verbatim>\<open>struct.unpack\<close>.
\<close>

function unframe_loop :: "bytes \<Rightarrow> nat \<Rightarrow> bytes list \<Rightarrow> bytes list res" where
  "unframe_loop blob i out =
     (if i < length blob then
        bind_res (unpack_be32 (py_slice i (i + 4) blob))
          (\<lambda>n. unframe_loop blob (i + 4 + n) (out @ [py_slice (i + 4) (i + 4 + n) blob]))
      else Inr out)"
  by pat_completeness auto
termination
  by (relation "measure (\<lambda>(blob, i, out). length blob - i)") auto

declare unframe_loop.simps [simp del]

definition unframe :: "bytes \<Rightarrow> bytes list res" where
  "unframe blob = unframe_loop blob 0 []"

definition frameable :: "bytes list \<Rightarrow> bool" where
  "frameable ps \<longleftrightarrow> (\<forall>p \<in> set ps. length p < 2 ^ 32)"

text \<open>The framing of parts that fit, as a plain function.\<close>

fun frame_bytes :: "bytes list \<Rightarrow> bytes" where
  "frame_bytes [] = []"
| "frame_bytes (p # ps) = rev (le_bytes 4 (length p)) @ p @ frame_bytes ps"

lemma frame_eq: "frame ps = (if frameable ps then Inr (frame_bytes ps) else Inl StructError)"
  by (induction ps) (auto simp: frameable_def pack_be32_def)

lemma unpack_be32_length: "n < 2 ^ 32 \<Longrightarrow> unpack_be32 (rev (le_bytes 4 n)) = Inr n"
  using le_val_le_bytes [of n 4] by (simp add: unpack_be32_def)

lemma unframe_loop_step:
  assumes "length pre = i" "length p < 2 ^ 32"
  shows "unframe_loop (pre @ rev (le_bytes 4 (length p)) @ p @ rest) i out =
    unframe_loop (pre @ rev (le_bytes 4 (length p)) @ p @ rest) (i + 4 + length p) (out @ [p])"
proof -
  let ?blob = "pre @ rev (le_bytes 4 (length p)) @ p @ rest"
  have "py_slice i (i + 4) ?blob = rev (le_bytes 4 (length p))"
    using assms(1) by (intro py_slice_full) simp_all
  moreover have "py_slice (i + 4) (i + 4 + length p) ?blob = p"
    using py_slice_full [of p "i + 4 + length p" "i + 4" "pre @ rev (le_bytes 4 (length p))" rest] assms(1)
    by simp
  ultimately show ?thesis
    using assms by (subst unframe_loop.simps) (simp add: unpack_be32_length)
qed

lemma unframe_loop_frame:
  "frameable ps \<Longrightarrow> unframe_loop (pre @ frame_bytes ps) (length pre) out = Inr (out @ ps)"
proof (induction ps arbitrary: pre out)
  case Nil
  then show ?case by (subst unframe_loop.simps) simp
next
  case (Cons p ps)
  let ?h = "rev (le_bytes 4 (length p)) @ p"
  have "unframe_loop (pre @ frame_bytes (p # ps)) (length pre) out =
      unframe_loop (pre @ frame_bytes (p # ps)) (length pre + 4 + length p) (out @ [p])"
    using Cons.prems unframe_loop_step [of pre "length pre" p "frame_bytes ps" out]
    by (simp add: frameable_def)
  also have "\<dots> = unframe_loop ((pre @ ?h) @ frame_bytes ps) (length (pre @ ?h)) (out @ [p])"
    by (simp add: add.assoc)
  also have "\<dots> = Inr ((out @ [p]) @ ps)"
    using Cons.prems by (intro Cons.IH) (simp add: frameable_def)
  finally show ?case by simp
qed

lemma unframe_frame_bytes: "frameable ps \<Longrightarrow> unframe (frame_bytes ps) = Inr ps"
  using unframe_loop_frame [of ps "[]" "[]"] by (simp add: unframe_def)

interpretation framec: codec frame_bytes unframe frameable
  by unfold_locales (rule unframe_frame_bytes)

section \<open>Hybrid signatures\<close>

definition hybrid_sign :: "crypto \<Rightarrow> bytes \<Rightarrow> bytes \<Rightarrow> bytes \<Rightarrow> bytes res" where
  "hybrid_sign c ed_priv mldsa_sk msg =
     bind_res (sig_sign c mldsa_sk msg) (\<lambda>s. frame [ed25519_sign c ed_priv msg, s])"

definition hybrid_verify :: "crypto \<Rightarrow> bytes \<Rightarrow> bytes \<Rightarrow> bytes \<Rightarrow> bytes \<Rightarrow> bool res" where
  "hybrid_verify c ed_pub mldsa_pub msg sig_blob =
     bind_res (unframe sig_blob) (\<lambda>parts.
       if length parts \<noteq> 2 then Inr False
       else
         (let ed_sig = parts ! 0; mldsa_sig = parts ! 1
          in case ed25519_verify c ed_pub ed_sig msg of
               Inl e \<Rightarrow> Inr False
             | Inr u \<Rightarrow> sig_verify c mldsa_pub msg mldsa_sig))"

lemma hybrid_verify_frame:
  assumes "frameable [a, b]"
  shows "hybrid_verify c ed pq msg (frame_bytes [a, b]) =
    (case ed25519_verify c ed a msg of Inl e \<Rightarrow> Inr False | Inr u \<Rightarrow> sig_verify c pq msg b)"
  unfolding hybrid_verify_def framec.bind_dec_enc [OF assms] by simp

text \<open>Acceptance means exactly that both halves of a two-part blob verify.\<close>

lemma hybrid_verify_iff:
  "hybrid_verify c ed pq msg blob = Inr True \<longleftrightarrow>
   (\<exists>a b. unframe blob = Inr [a, b] \<and> ed25519_verify c ed a msg = Inr ()
          \<and> sig_verify c pq msg b = Inr True)"
proof
  assume "hybrid_verify c ed pq msg blob = Inr True"
  then obtain ps where ps: "unframe blob = Inr ps" "length ps = 2"
    "ed25519_verify c ed (ps ! 0) msg = Inr ()" "sig_verify c pq msg (ps ! 1) = Inr True"
    by (auto simp: hybrid_verify_def bind_res_Inr Let_def split: if_splits sum.splits)
  from ps(2) have "ps = [ps ! 0, ps ! 1]" by (auto simp: length_Suc_conv numeral_2_eq_2)
  with ps show "\<exists>a b. unframe blob = Inr [a, b] \<and> ed25519_verify c ed a msg = Inr ()
      \<and> sig_verify c pq msg b = Inr True"
    by metis
qed (auto simp: hybrid_verify_def)

lemma hybrid_verify_sign:
  assumes "ed25519_correct c" "mldsa_correct c"
  shows "\<exists>s. hybrid_sign c ed_priv mldsa_sk msg = Inr s
    \<and> hybrid_verify c (ed25519_public c ed_priv) (oqs_sig_public c mldsa_sk) msg s = Inr True"
proof -
  obtain s where s: "sig_sign c mldsa_sk msg = Inr s" "length s < 2 ^ 32"
    "sig_verify c (oqs_sig_public c mldsa_sk) msg s = Inr True"
    using sig_verify_sign [OF assms(2)] by blast
  let ?parts = "[ed25519_sign c ed_priv msg, s]"
  have "length (ed25519_sign c ed_priv msg) = 64"
    and v: "ed25519_verify c (ed25519_public c ed_priv) (ed25519_sign c ed_priv msg) msg = Inr ()"
    using assms(1) by (simp_all add: ed25519_correct_def)
  then have f: "frameable ?parts" using s(2) by (simp add: frameable_def)
  have "hybrid_sign c ed_priv mldsa_sk msg = Inr (frame_bytes ?parts)"
    using s(1) f by (simp add: hybrid_sign_def frame_eq del: frame.simps frame_bytes.simps)
  then show ?thesis using hybrid_verify_frame [OF f] v s(3) by auto
qed

section \<open>Hybrid wrap of the content-encryption key\<close>

definition WRAP_INFO :: bytes where
  "WRAP_INFO = encode ''botsmaster/krs-cek-hybrid-wrap/v1''"

definition wrap_key :: "crypto \<Rightarrow> bytes \<Rightarrow> bytes \<Rightarrow> bytes \<Rightarrow> bytes" where
  "wrap_key c ss_classical ss_pqc salt = hkdf_sha512 c 32 salt WRAP_INFO (ss_classical @ ss_pqc)"

text \<open>
  KRS side. The fresh values are arguments: the ephemeral private key \<open>krs_x\<close>, the coins of the
  encapsulation and the AES-GCM nonce.
\<close>

definition wrap_cek ::
    "crypto \<Rightarrow> bytes \<Rightarrow> bytes \<Rightarrow> bytes \<Rightarrow> bytes \<Rightarrow> bytes \<Rightarrow> bytes \<Rightarrow> (bytes \<times> bytes \<times> bytes) res" where
  "wrap_cek c krs_x coins nonce client_x_pub client_kem_pub cek =
     (let krs_x_pub = x25519_public c krs_x in
      bind_res (x25519_load c client_x_pub) (\<lambda>peer.
      bind_res (x25519_exchange c krs_x peer) (\<lambda>ss_classical.
      bind_res (kem_encap c coins client_kem_pub) (\<lambda>(kem_ct, ss_pqc).
      bind_res (aesgcm_encrypt c
          (wrap_key c ss_classical ss_pqc (client_x_pub @ client_kem_pub @ krs_x_pub)) nonce cek None)
        (\<lambda>ct. Inr (krs_x_pub, kem_ct, nonce @ ct))))))"

text \<open>VM side.\<close>

definition unwrap_cek ::
    "crypto \<Rightarrow> bytes \<Rightarrow> bytes \<Rightarrow> bytes \<Rightarrow> bytes \<Rightarrow> bytes \<Rightarrow> bytes \<Rightarrow> bytes \<Rightarrow> bytes res" where
  "unwrap_cek c x_eph kem client_x_pub client_kem_pub krs_x_pub kem_ct wrapped =
     bind_res (x25519_load c krs_x_pub) (\<lambda>peer.
     bind_res (x25519_exchange c x_eph peer) (\<lambda>ss_classical.
     bind_res (kem_decap c kem kem_ct) (\<lambda>ss_pqc.
     aesgcm_decrypt c
       (wrap_key c ss_classical ss_pqc (client_x_pub @ client_kem_pub @ krs_x_pub))
       (take 12 wrapped) (drop 12 wrapped) None)))"

lemma wrap_unwrap_cek:
  assumes "x25519_agrees c" "mlkem_correct c coins kem" "aead_correct c" "hkdf_length c"
    and "length nonce = 12"
  shows "\<exists>kem_ct wrapped.
    wrap_cek c krs_x coins nonce (x25519_public c x_eph) (oqs_kem_public c kem) cek =
      Inr (x25519_public c krs_x, kem_ct, wrapped)
    \<and> unwrap_cek c x_eph kem (x25519_public c x_eph) (oqs_kem_public c kem)
        (x25519_public c krs_x) kem_ct wrapped = Inr cek"
proof -
  obtain s where s: "x25519_exchange c krs_x (x25519_public c x_eph) = Inr s"
    "x25519_exchange c x_eph (x25519_public c krs_x) = Inr s"
    using assms(1) unfolding x25519_agrees_def by blast
  have ld: "x25519_load c (x25519_public c a) = Inr (x25519_public c a)" for a
    using assms(1) by (simp add: x25519_agrees_def)
  obtain kct ss where k: "kem_encap c coins (oqs_kem_public c kem) = Inr (kct, ss)"
    "kem_decap c kem kct = Inr ss"
    using kem_decap_encap [OF assms(2)] by blast
  define key where
    "key = wrap_key c s ss (x25519_public c x_eph @ oqs_kem_public c kem @ x25519_public c krs_x)"
  have "length key = 32" using assms(4) by (simp add: key_def wrap_key_def hkdf_length_def)
  then obtain ct where ct: "aesgcm_encrypt c key nonce cek None = Inr ct"
    "aesgcm_decrypt c key nonce ct None = Inr cek"
    using assms(3,5) unfolding aead_correct_def by blast
  have "wrap_cek c krs_x coins nonce (x25519_public c x_eph) (oqs_kem_public c kem) cek =
      Inr (x25519_public c krs_x, kct, nonce @ ct)"
    using s k ct ld by (simp add: wrap_cek_def key_def Let_def)
  moreover have "unwrap_cek c x_eph kem (x25519_public c x_eph) (oqs_kem_public c kem)
        (x25519_public c krs_x) kct (nonce @ ct) = Inr cek"
    using s k ct ld assms(5) by (simp add: unwrap_cek_def key_def)
  ultimately show ?thesis by blast
qed

section \<open>Properties\<close>

lemma le_bytes_4: "le_bytes 4 n =
    [of_nat (n mod 256), of_nat (n div 256 mod 256), of_nat (n div 256 div 256 mod 256),
     of_nat (n div 256 div 256 div 256 mod 256)]"
proof -
  have "le_bytes (Suc (Suc (Suc (Suc 0)))) n =
    [of_nat (n mod 256), of_nat (n div 256 mod 256), of_nat (n div 256 div 256 mod 256),
     of_nat (n div 256 div 256 div 256 mod 256)]" by simp
  then show ?thesis by (simp only: numeral_eq_Suc pred_numeral_simps BitM.simps nat.inject)
qed

text \<open>Framing loses nothing: whenever \<open>frame\<close> returns a blob, \<open>unframe\<close> returns the framed parts.\<close>

theorem frame_unframe: "frame ps = Inr blob \<Longrightarrow> unframe blob = Inr ps"
  using framec.dec_enc by (auto simp: frame_eq split: if_splits)

theorem frame_unframe_witness:
  "frame [[1, 2], []] = Inr [0, 0, 0, 2, 1, 2, 0, 0, 0, 0] \<and> unframe [0, 0, 0, 2, 1, 2, 0, 0, 0, 0] = Inr [[1, 2], []]"
proof -
  have "frame [[1, 2], []] = Inr [0, 0, 0, 2, 1, 2, 0, 0, 0, 0]"
    by (simp add: pack_be32_def le_bytes_4)
  then show ?thesis using frame_unframe by blast
qed

text \<open>The loop consumes the length field and the slice of every part it returns.\<close>

lemma unframe_loop_bound:
  "i \<le> length blob \<Longrightarrow> 4 * length out + length (concat out) \<le> i \<Longrightarrow>
   unframe_loop blob i out = Inl StructError \<or>
   (\<exists>ps. unframe_loop blob i out = Inr ps \<and> 4 * length ps + length (concat ps) \<le> length blob)"
proof (induction blob i out rule: unframe_loop.induct)
  case (1 blob i out)
  show ?case
  proof (cases "unpack_be32 (py_slice i (i + 4) blob)")
    case (Inl e)
    then show ?thesis
      using "1.prems" by (subst (1 2) unframe_loop.simps) (auto simp: unpack_be32_def split: if_splits)
  next
    case (Inr n)
    let ?out = "out @ [py_slice (i + 4) (i + 4 + n) blob]"
    have four: "i + 4 \<le> length blob" if "i < length blob" using Inr that by (auto simp: unpack_be32_def split: if_splits)
    have step: "unframe_loop blob i out = (if i < length blob then unframe_loop blob (i + 4 + n) ?out else Inr out)"
      using Inr by (subst unframe_loop.simps) simp
    show ?thesis
    proof (cases "i < length blob \<and> i + 4 + n \<le> length blob")
      case True
      then show ?thesis using "1.IH" [OF _ Inr] "1.prems" step by simp
    next
      case False
      have "unframe_loop blob (i + 4 + n) ?out = Inr ?out" if "length blob < i + 4 + n"
        using that by (subst unframe_loop.simps) simp
      then show ?thesis using False "1.prems" step four by (auto simp: min_def split: if_splits)
    qed
  qed
qed

text \<open>
  C27. Unframing always ends, on every input: it returns the parts or raises \<^verbatim>\<open>struct.error\<close>, never
  another exception, and the parts with their length fields are no longer than the input, so
  that a hostile length field neither keeps the loop running nor makes it allocate more.
\<close>

theorem unframe_total:
  "unframe blob = Inl StructError \<or>
   (\<exists>ps. unframe blob = Inr ps \<and> 4 * length ps + length (concat ps) \<le> length blob)"
  unfolding unframe_def by (rule unframe_loop_bound) simp_all

text \<open>
  A hybrid signature is accepted exactly when its blob has two parts, the first verifies under
  the Ed25519 key and the second under the ML-DSA key: neither scheme alone is enough.
\<close>

theorem hybrid_needs_both:
  "hybrid_verify c ed pq msg blob = Inr True \<longleftrightarrow>
   (\<exists>a b. unframe blob = Inr [a, b] \<and> ed25519_verify c ed a msg = Inr ()
          \<and> sig_verify c pq msg b = Inr True)"
  by (rule hybrid_verify_iff)

text \<open>A signature made by \<open>hybrid_sign\<close> verifies under the public halves of its keys.\<close>

theorem hybrid_sign_verifies:
  assumes "ed25519_correct c" "mldsa_correct c"
  shows "bind_res (hybrid_sign c ed_priv mldsa_sk msg)
    (hybrid_verify c (ed25519_public c ed_priv) (oqs_sig_public c mldsa_sk) msg) = Inr True"
  using hybrid_verify_sign [OF assms] by (metis bind_res_simps(2))

theorem hybrid_sign_verifies_witness:
  "bind_res (hybrid_sign sample_crypto [1] [2] [3])
    (hybrid_verify sample_crypto (ed25519_public sample_crypto [1]) (oqs_sig_public sample_crypto [2]) [3]) = Inr True"
  using hybrid_sign_verifies [OF sample_ed25519 sample_mldsa] .

text \<open>
  C29. The key wrapped by the service for the VM's two public keys is what the VM unwraps with the
  two private keys.
\<close>

theorem cek_wrap_roundtrip:
  assumes "x25519_agrees c" "mlkem_correct c coins kem" "aead_correct c" "hkdf_length c" "length nonce = 12"
  shows "bind_res (wrap_cek c krs_x coins nonce (x25519_public c x_eph) (oqs_kem_public c kem) cek)
    (\<lambda>(krs_x_pub, kem_ct, wrapped).
       unwrap_cek c x_eph kem (x25519_public c x_eph) (oqs_kem_public c kem) krs_x_pub kem_ct wrapped) = Inr cek"
  using wrap_unwrap_cek [OF assms, of krs_x x_eph cek] by auto

theorem cek_wrap_roundtrip_witness:
  "bind_res (wrap_cek sample_crypto [1] [2] (replicate 12 0) (x25519_public sample_crypto [4]) (oqs_kem_public sample_crypto [5]) [6])
    (\<lambda>(krs_x_pub, kem_ct, wrapped).
       unwrap_cek sample_crypto [4] [5] (x25519_public sample_crypto [4]) (oqs_kem_public sample_crypto [5]) krs_x_pub kem_ct wrapped) = Inr [6]"
  by (rule cek_wrap_roundtrip) (simp_all add: sample_correct)

lemma unframe_loop_short:
  assumes "length p < 2 ^ 32" "n \<le> length p"
  shows "unframe_loop (pre @ rev (le_bytes 4 (length p)) @ take n p) (length pre) out = Inr (out @ [take n p])"
proof -
  let ?blob = "pre @ rev (le_bytes 4 (length p)) @ take n p"
  have "py_slice (length pre) (length pre + 4) ?blob = rev (le_bytes 4 (length p))"
    by (intro py_slice_full) simp_all
  moreover have "py_slice (length pre + 4) (length pre + 4 + length p) ?blob = take n p"
    using assms(2) by (simp add: py_slice_def min_def)
  moreover have "unframe_loop ?blob (length pre + 4 + length p) (out @ [take n p]) = Inr (out @ [take n p])"
    by (subst unframe_loop.simps) simp
  ultimately show ?thesis
    using assms(1) by (subst unframe_loop.simps) (simp add: unpack_be32_length)
qed

text \<open>
  \<open>unframe\<close> does not notice a cut last part: the blob without the end of its last part still
  parses, to the shortened part.
\<close>

theorem unframe_accepts_truncation:
  assumes "length a < 2 ^ 32" "length b < 2 ^ 32" "n \<le> length b"
  shows "unframe (rev (le_bytes 4 (length a)) @ a @ rev (le_bytes 4 (length b)) @ take n b) = Inr [a, take n b]"
proof -
  let ?pre = "rev (le_bytes 4 (length a)) @ a"
  have "unframe_loop (?pre @ rev (le_bytes 4 (length b)) @ take n b) 0 [] =
      unframe_loop (?pre @ rev (le_bytes 4 (length b)) @ take n b) (length ?pre) [a]"
    using unframe_loop_step [of "[]" 0 a "rev (le_bytes 4 (length b)) @ take n b" "[]"] assms(1) by simp
  also have "\<dots> = Inr [a, take n b]"
    using unframe_loop_short [OF assms(2,3), of ?pre "[a]"] by simp
  finally show ?thesis by (simp add: unframe_def)
qed

theorem unframe_accepts_truncation_witness:
  "unframe [0, 0, 0, 1, 7, 0, 0, 0, 2, 8] = Inr [[7], [8]]"
  using unframe_accepts_truncation [of "[7]" "[8, 9]" 1] by (simp add: le_bytes_4)

end
