(* ===== verification/Snp_Verify.thy ===== *)
theory Snp_Verify
  imports Codec
begin

unbundle bit_operations_syntax

text \<open>
  \<^verbatim>\<open>src/src/snp_verify.py\<close>: the \<^verbatim>\<open>SNP_GET_REPORT\<close> ioctl, the parsing of the report's public
  fields, and \<^verbatim>\<open>SnpVerifier\<close>. The kernel driver, the external tool \<^verbatim>\<open>snpguest\<close> and the temporary
  file names are parameters (\<open>snp_device\<close>, \<open>snp_host\<close>); the request and response buffers, the
  order of the checks and the life of the temporary report file are modelled. The locale
  \<open>attestation_gate\<close> is what a client of the verifier may rely on.
\<close>

section \<open>Layout constants\<close>

definition OFF_POLICY :: nat where "OFF_POLICY = 0x008"
definition OFF_CURRENT_TCB :: nat where "OFF_CURRENT_TCB = 0x038"
definition OFF_REPORT_DATA :: nat where "OFF_REPORT_DATA = 0x050"
definition OFF_MEASUREMENT :: nat where "OFF_MEASUREMENT = 0x090"
definition OFF_REPORTED_TCB :: nat where "OFF_REPORTED_TCB = 0x180"
definition REPORT_LEN :: nat where "REPORT_LEN = 1184"
definition POLICY_DEBUG_BIT :: nat where "POLICY_DEBUG_BIT = 19"
definition POLICY_SMT_BIT :: nat where "POLICY_SMT_BIT = 16"

lemmas layout_defs [py_simps] =
  OFF_POLICY_def OFF_CURRENT_TCB_def OFF_REPORT_DATA_def OFF_MEASUREMENT_def OFF_REPORTED_TCB_def
  REPORT_LEN_def POLICY_DEBUG_BIT_def POLICY_SMT_BIT_def

definition SEV_GUEST_DEVICE :: string where "SEV_GUEST_DEVICE = ''/dev/sev-guest''"

definition IOC_WRITE :: nat where "IOC_WRITE = 1"
definition IOC_READ :: nat where "IOC_READ = 2"

definition IOWR :: "char \<Rightarrow> nat \<Rightarrow> nat \<Rightarrow> nat" where
  "IOWR t nr sz =
     push_bit 30 (IOC_WRITE OR IOC_READ) OR push_bit 16 sz OR push_bit 8 (of_char t) OR nr"

definition SNP_GET_REPORT :: nat where
  "SNP_GET_REPORT = IOWR (CHR ''S'') 0 32"

section \<open>Fetching a report\<close>

text \<open>
  The driver: which paths exist, where the two buffers lie, and the effect of \<^verbatim>\<open>open\<close> and
  \<^verbatim>\<open>ioctl\<close> on the request code, the request buffer and the argument structure. It returns the
  bytes it wrote over the argument structure and over the response buffer, or an exception.
\<close>

record snp_device =
  path_exists :: "string \<Rightarrow> bool"
  req_addr :: nat
  resp_addr :: nat
  dev_ioctl :: "nat \<Rightarrow> bytes \<Rightarrow> bytes \<Rightarrow> (bytes \<times> bytes) res"

text \<open>\<^verbatim>\<open>struct snp_report_req\<close>: 64 bytes of user data, the VMPL, 28 reserved bytes.\<close>

definition report_req :: "bytes \<Rightarrow> nat \<Rightarrow> bytes" where
  "report_req rd vmpl = rd @ le_bytes 4 vmpl @ replicate 28 0"

text \<open>\<^verbatim>\<open>struct.pack("<BxxxxxxxQQQ", 1, req, resp, 0)\<close>.\<close>

definition ioctl_arg :: "nat \<Rightarrow> nat \<Rightarrow> bytes" where
  "ioctl_arg req resp = [1] @ replicate 7 0 @ le_bytes 8 req @ le_bytes 8 resp @ le_bytes 8 0"

definition fetch_report_ioctl :: "snp_device \<Rightarrow> bytes \<Rightarrow> nat \<Rightarrow> bytes res" where
  "fetch_report_ioctl d report_data vmpl =
     (if \<not> path_exists d SEV_GUEST_DEVICE
      then Inl (SnpAttestationError ''/dev/sev-guest absent'')
      else
        (let rd = ljust 64 0 (take 64 report_data);
             req = report_req rd vmpl;
             arg = ioctl_arg (req_addr d) (resp_addr d)
         in case dev_ioctl d SNP_GET_REPORT req arg of
              Inl e \<Rightarrow> (if is_os_error e then Inl (SnpAttestationError ''SNP_GET_REPORT ioctl failed'')
                       else Inl e)
            | Inr (arg_out, resp_out) \<Rightarrow>
                (let arg' = fit 32 arg_out; resp = fit 4000 resp_out
                 in bind_res (unpack_le 8 arg' 24) (\<lambda>fw_err.
                    bind_res (raise_if (fw_err \<noteq> 0) (SnpAttestationError ''PSP firmware error'')) (\<lambda>_.
                    bind_res (unpack_le 4 resp 0) (\<lambda>status.
                    bind_res (unpack_le 4 resp 4) (\<lambda>report_size.
                    bind_res (raise_if (status \<noteq> 0) (SnpAttestationError ''report status nonzero'')) (\<lambda>_.
                    bind_res (raise_if (report_size < REPORT_LEN) (SnpAttestationError ''report too small'')) (\<lambda>_.
                    Inr (py_slice 32 (32 + REPORT_LEN) resp))))))))))"

section \<open>Parsing the public fields\<close>

definition parse_measurement :: "bytes \<Rightarrow> bytes res" where
  "parse_measurement report =
     (if length report < OFF_MEASUREMENT + 48
      then Inl (SnpAttestationError ''report truncated (measurement)'')
      else Inr (py_slice OFF_MEASUREMENT (OFF_MEASUREMENT + 48) report))"

definition parse_report_data :: "bytes \<Rightarrow> bytes" where
  "parse_report_data report = py_slice OFF_REPORT_DATA (OFF_REPORT_DATA + 64) report"

definition parse_policy :: "bytes \<Rightarrow> nat res" where
  "parse_policy report = unpack_le 8 report OFF_POLICY"

definition parse_reported_tcb :: "bytes \<Rightarrow> nat res" where
  "parse_reported_tcb report = unpack_le 8 report OFF_REPORTED_TCB"

section \<open>The verifier\<close>

record snp_verifier =
  snpguest :: string
  processor :: string
  allow :: "bytes set"
  min_reported_tcb :: int
  require_no_debug :: bool
  require_smt_disabled :: bool
  cert_dir :: "string option"

definition SnpVerifier ::
    "string \<Rightarrow> string \<Rightarrow> bytes list \<Rightarrow> int \<Rightarrow> bool \<Rightarrow> bool \<Rightarrow> string option \<Rightarrow> snp_verifier" where
  "SnpVerifier sg proc measurement_allowlist min_tcb no_debug no_smt cdir =
     \<lparr>snpguest = sg, processor = proc,
      allow = set (map (\<lambda>m. take 48 (ljust 48 0 m)) measurement_allowlist),
      min_reported_tcb = min_tcb, require_no_debug = no_debug,
      require_smt_disabled = no_smt, cert_dir = cdir\<rparr>"

text \<open>A finished process: return code, standard output, standard error.\<close>

type_synonym proc = "int \<times> string \<times> string"
type_synonym files = "string \<rightharpoonup> bytes"

text \<open>
  The host: the result of running a command line against the files it can read, and the results
  of creating a temporary directory, a temporary file and a directory.
\<close>

record snp_host =
  run_tool :: "files \<Rightarrow> string list \<Rightarrow> proc res"
  mkdtemp :: "string res"
  mktemp :: "string res"
  mkdir_p :: "string \<Rightarrow> unit res"

definition run_snpguest :: "snp_host \<Rightarrow> snp_verifier \<Rightarrow> files \<Rightarrow> string list \<Rightarrow> proc res" where
  "run_snpguest h v fs args =
     (case run_tool h fs (snpguest v # args) of
        Inl FileNotFoundError \<Rightarrow> Inl (SnpAttestationError ''snpguest not installed'')
      | Inl e \<Rightarrow> Inl e
      | Inr p \<Rightarrow> Inr p)"

definition chain_steps :: "string \<Rightarrow> string \<Rightarrow> string \<Rightarrow> string list list" where
  "chain_steps proc cdir report_path =
     [[''fetch'', ''ca'', ''pem'', proc, cdir],
      [''fetch'', ''vcek'', ''pem'', proc, cdir, report_path],
      [''verify'', ''certs'', cdir],
      [''verify'', ''attestation'', cdir, report_path]]"

fun run_steps :: "snp_host \<Rightarrow> snp_verifier \<Rightarrow> files \<Rightarrow> string list list \<Rightarrow> unit res" where
  "run_steps h v fs [] = Inr ()"
| "run_steps h v fs (st # sts) =
     bind_res (run_snpguest h v fs st) (\<lambda>(rc, out, err).
       if rc \<noteq> 0 then Inl (SnpAttestationError ''snpguest step failed'') else run_steps h v fs sts)"

text \<open>\<^verbatim>\<open>self.cert_dir or tempfile.mkdtemp(...)\<close>: an empty path counts as none.\<close>

definition cert_path :: "snp_host \<Rightarrow> snp_verifier \<Rightarrow> string res" where
  "cert_path h v =
     (case cert_dir v of
        Some d \<Rightarrow> if d = [] then mkdtemp h else Inr d
      | None \<Rightarrow> mkdtemp h)"

definition verify_signature_chain :: "snp_host \<Rightarrow> snp_verifier \<Rightarrow> files \<Rightarrow> string \<Rightarrow> unit res" where
  "verify_signature_chain h v fs report_path =
     bind_res (cert_path h v) (\<lambda>cdir.
     bind_res (mkdir_p h cdir) (\<lambda>_.
     run_steps h v fs (chain_steps (processor v) cdir report_path)))"

text \<open>Checks 2 to 5 of \<^verbatim>\<open>verify\<close>: binding, allowlist, policy, TCB floor.\<close>

definition check_report :: "snp_verifier \<Rightarrow> bytes \<Rightarrow> bytes \<Rightarrow> bytes res" where
  "check_report v report expected_report_data =
     bind_res (raise_if (parse_report_data report \<noteq> ljust 64 0 (take 64 expected_report_data))
        (SnpAttestationError ''report_data mismatch (stale/forwarded report)'')) (\<lambda>_.
     bind_res (parse_measurement report) (\<lambda>meas.
     bind_res (raise_if (meas \<notin> allow v) (SnpAttestationError ''measurement not in allowlist'')) (\<lambda>_.
     bind_res (parse_policy report) (\<lambda>policy.
     bind_res (raise_if (require_no_debug v \<and> drop_bit POLICY_DEBUG_BIT policy AND 1 \<noteq> 0)
        (SnpAttestationError ''guest policy permits DEBUG'')) (\<lambda>_.
     bind_res (raise_if (require_smt_disabled v \<and> drop_bit POLICY_SMT_BIT policy AND 1 \<noteq> 0)
        (SnpAttestationError ''guest policy permits SMT'')) (\<lambda>_.
     bind_res (parse_reported_tcb report) (\<lambda>rtcb.
     bind_res (raise_if (int rtcb < min_reported_tcb v)
        (SnpAttestationError ''reported_tcb below floor'')) (\<lambda>_.
     Inr meas))))))))"

text \<open>
  \<^verbatim>\<open>verify\<close>: the report is written to a temporary file for the tool and the file is removed on
  every path out of the chain verification, before the remaining checks run.
\<close>

definition snp_verify :: "snp_host \<Rightarrow> snp_verifier \<Rightarrow> files \<Rightarrow> bytes \<Rightarrow> bytes \<Rightarrow> bytes res \<times> files" where
  "snp_verify h v fs report expected_report_data =
     (if length report < REPORT_LEN then (Inl (SnpAttestationError ''report too short''), fs)
      else (case mktemp h of
          Inl e \<Rightarrow> (Inl e, fs)
        | Inr rp \<Rightarrow>
           (let fs1 = fs(rp \<mapsto> report);
                chain = verify_signature_chain h v fs1 rp;
                fs2 = fs1(rp := None)
            in (bind_res chain (\<lambda>_. check_report v report expected_report_data), fs2))))"

section \<open>What a client of a verifier may rely on\<close>

text \<open>
  A gate maps a report and the expected report data to the verified measurement or an exception.
  Its promise: what it accepts carries the expected report data, and the measurement it returns
  is the report's own and is on the allowlist.
\<close>

locale attestation_gate =
  fixes gate :: "bytes \<Rightarrow> bytes \<Rightarrow> bytes res"
    and allowed :: "bytes set"
  assumes gate_binding: "gate r rd = Inr m \<Longrightarrow> parse_report_data r = fit 64 rd"
    and gate_measurement: "gate r rd = Inr m \<Longrightarrow> parse_measurement r = Inr m"
    and gate_allowed: "gate r rd = Inr m \<Longrightarrow> m \<in> allowed"
begin

text \<open>A report passes the gate for at most one report data of a given length.\<close>

lemma gate_binds_one:
  assumes "gate r rd = Inr m" "gate r rd' = Inr m'" "length rd = length rd'" "length rd \<le> 64"
  shows "rd = rd'"
proof -
  have "fit 64 rd = fit 64 rd'" using gate_binding assms(1,2) by metis
  then show ?thesis using assms(3) assms(4) [unfolded assms(3)] by (rule fit_inj)
qed

lemma gate_measurement_unique: "gate r rd = Inr m \<Longrightarrow> gate r rd' = Inr m' \<Longrightarrow> m = m'"
  using gate_measurement by (metis sum.inject(2))

lemma gate_measurement_length: "gate r rd = Inr m \<Longrightarrow> length m = 48"
  using gate_measurement [of r rd m] by (auto simp: parse_measurement_def split: if_splits)

text \<open>A report whose data field holds something else is refused, whatever else it says.\<close>

lemma gate_refuses_other_data:
  "parse_report_data r = fit 64 rd \<Longrightarrow> length rd = length rd' \<Longrightarrow> length rd \<le> 64 \<Longrightarrow> rd \<noteq> rd' \<Longrightarrow>
   \<exists>e. gate r rd' = Inl e"
  using gate_binding [of r rd'] fit_inj [of 64 rd rd'] by (cases "gate r rd'") auto

end

section \<open>Properties of the fetch\<close>

lemma unpack_le_fit: "off + w \<le> n \<Longrightarrow> unpack_le w (fit n b) off = Inr (le_val (py_slice off (off + w) (fit n b)))"
  by (simp add: unpack_le_def)

lemma fetch_report_ioctl_Inr:
  "fetch_report_ioctl d report_data vmpl = Inr r \<longleftrightarrow>
   path_exists d SEV_GUEST_DEVICE \<and>
   (\<exists>arg_out resp_out.
      dev_ioctl d SNP_GET_REPORT (report_req (fit 64 report_data) vmpl)
          (ioctl_arg (req_addr d) (resp_addr d)) = Inr (arg_out, resp_out)
      \<and> le_val (py_slice 24 32 (fit 32 arg_out)) = 0
      \<and> le_val (py_slice 0 4 (fit 4000 resp_out)) = 0
      \<and> REPORT_LEN \<le> le_val (py_slice 4 8 (fit 4000 resp_out))
      \<and> r = py_slice 32 (32 + REPORT_LEN) (fit 4000 resp_out))"
proof (cases "dev_ioctl d SNP_GET_REPORT (report_req (fit 64 report_data) vmpl)
    (ioctl_arg (req_addr d) (resp_addr d))")
  case (Inl e)
  then show ?thesis by (simp add: fetch_report_ioctl_def fit_def Let_def)
next
  case (Inr p)
  obtain arg_out resp_out where p: "p = (arg_out, resp_out)" by (cases p)
  have "fetch_report_ioctl d report_data vmpl =
    (if \<not> path_exists d SEV_GUEST_DEVICE then Inl (SnpAttestationError ''/dev/sev-guest absent'')
     else if le_val (py_slice 24 32 (fit 32 arg_out)) \<noteq> 0 then Inl (SnpAttestationError ''PSP firmware error'')
     else if le_val (py_slice 0 4 (fit 4000 resp_out)) \<noteq> 0 then Inl (SnpAttestationError ''report status nonzero'')
     else if le_val (py_slice 4 8 (fit 4000 resp_out)) < REPORT_LEN then Inl (SnpAttestationError ''report too small'')
     else Inr (py_slice 32 (32 + REPORT_LEN) (fit 4000 resp_out)))"
    unfolding fetch_report_ioctl_def Let_def fit_def [symmetric, of 64] Inr p
    by (simp add: unpack_le_fit raise_if_def)
  with Inr p show ?thesis by auto
qed

lemma fetch_report_length: "fetch_report_ioctl d report_data vmpl = Inr r \<Longrightarrow> length r = REPORT_LEN"
  by (auto simp: fetch_report_ioctl_Inr layout_defs)

lemma length_report_req: "length rd = 64 \<Longrightarrow> length (report_req rd vmpl) = 96"
  by (simp add: report_req_def)

lemma length_ioctl_arg: "length (ioctl_arg a b) = 32"
  by (simp add: ioctl_arg_def)

section \<open>Properties of the verifier\<close>

text \<open>Bit \<open>i\<close> of the policy is read from byte \<open>8 + i div 8\<close> of the report.\<close>

lemma and_1_bit: "drop_bit i (n :: nat) AND 1 \<noteq> 0 \<longleftrightarrow> bit n i"
  by (auto simp: and_one_eq bit_iff_odd_drop_bit odd_iff_mod_2_eq_one)

lemma bit_policy:
  assumes "REPORT_LEN \<le> length report" "i < 64"
  shows "bit (le_val (py_slice OFF_POLICY (OFF_POLICY + 8) report)) i
    \<longleftrightarrow> bit (report ! (8 + i div 8)) (i mod 8)"
proof -
  have "i div 8 < 8" using assms(2) by (simp add: less_mult_imp_div_less)
  with assms(1) show ?thesis by (simp add: bit_le_val nth_py_slice layout_defs)
qed

lemma run_snpguest_Inr: "run_snpguest h v fs args = Inr p \<longleftrightarrow> run_tool h fs (snpguest v # args) = Inr p"
proof (cases "run_tool h fs (snpguest v # args)")
  case (Inl e)
  then show ?thesis by (cases e) (simp_all add: run_snpguest_def)
qed (simp add: run_snpguest_def)

lemma run_steps_Inr:
  "run_steps h v fs sts = Inr () \<longleftrightarrow>
   (\<forall>st \<in> set sts. \<exists>out err. run_tool h fs (snpguest v # st) = Inr (0, out, err))"
  by (induction sts) (auto simp: bind_res_Inr run_snpguest_Inr split: if_splits)

text \<open>The checks in terms of the bytes of a full-length report.\<close>

definition report_acceptable :: "snp_verifier \<Rightarrow> bytes \<Rightarrow> bytes \<Rightarrow> bool" where
  "report_acceptable v report rd \<longleftrightarrow>
     py_slice 0x50 0x90 report = fit 64 rd \<and>
     py_slice 0x90 0xC0 report \<in> allow v \<and>
     (require_no_debug v \<longrightarrow> \<not> bit (report ! 10) 3) \<and>
     (require_smt_disabled v \<longrightarrow> \<not> bit (report ! 10) 0) \<and>
     min_reported_tcb v \<le> int (le_val (py_slice 0x180 0x188 report))"

lemma check_report_Inr:
  assumes "REPORT_LEN \<le> length report"
  shows "check_report v report rd = Inr m \<longleftrightarrow>
    report_acceptable v report rd \<and> m = py_slice 0x90 0xC0 report"
proof -
  let ?pol = "le_val (py_slice OFF_POLICY (OFF_POLICY + 8) report)"
  have pol: "parse_policy report = Inr ?pol"
    using assms by (simp add: parse_policy_def unpack_le_def layout_defs)
  have meas: "parse_measurement report = Inr (py_slice 0x90 0xC0 report)"
    using assms by (simp add: parse_measurement_def layout_defs)
  have tcb: "parse_reported_tcb report = Inr (le_val (py_slice 0x180 0x188 report))"
    using assms by (simp add: parse_reported_tcb_def unpack_le_def layout_defs)
  have dbg: "drop_bit POLICY_DEBUG_BIT ?pol AND 1 \<noteq> 0 \<longleftrightarrow> bit (report ! 10) 3"
    using bit_policy [OF assms, of POLICY_DEBUG_BIT] by (simp only: and_1_bit) (simp add: POLICY_DEBUG_BIT_def)
  have smt: "drop_bit POLICY_SMT_BIT ?pol AND 1 \<noteq> 0 \<longleftrightarrow> bit (report ! 10) 0"
    using bit_policy [OF assms, of POLICY_SMT_BIT] by (simp only: and_1_bit) (simp add: POLICY_SMT_BIT_def)
  have rd: "parse_report_data report = py_slice 0x50 0x90 report"
    by (simp add: parse_report_data_def layout_defs)
  show ?thesis
    unfolding check_report_def pol meas tcb rd bind_res_simps dbg smt fit_def [symmetric]
    by (auto simp: bind_res_Inr report_acceptable_def not_less)
qed

lemma snp_verify_Inr:
  "fst (snp_verify h v fs report rd) = Inr m \<longleftrightarrow>
   REPORT_LEN \<le> length report \<and>
   (\<exists>rp. mktemp h = Inr rp \<and> verify_signature_chain h v (fs(rp \<mapsto> report)) rp = Inr ()) \<and>
   report_acceptable v report rd \<and> m = py_slice 0x90 0xC0 report"
proof (cases "length report < REPORT_LEN")
  case False
  then show ?thesis
    using check_report_Inr [of report v rd m]
    by (auto simp: snp_verify_def Let_def bind_res_Inr split: sum.splits)
qed (simp add: snp_verify_def)

text \<open>No path leaves the temporary report behind.\<close>

lemma snp_verify_files:
  "(\<And>rp. mktemp h = Inr rp \<Longrightarrow> fs rp = None) \<Longrightarrow> snd (snp_verify h v fs report rd) = fs"
  by (auto simp: snp_verify_def Let_def split: sum.splits)

interpretation snpg: attestation_gate "\<lambda>r rd. fst (snp_verify h v fs r rd)" "allow v" for h v fs
proof unfold_locales
  fix r rd m assume "fst (snp_verify h v fs r rd) = Inr m"
  then have *: "REPORT_LEN \<le> length r" "report_acceptable v r rd" "m = py_slice 0x90 0xC0 r"
    by (simp_all add: snp_verify_Inr)
  show "parse_report_data r = fit 64 rd"
    using * by (simp add: report_acceptable_def parse_report_data_def layout_defs)
  show "parse_measurement r = Inr m" using * by (simp add: parse_measurement_def layout_defs)
  show "m \<in> allow v" using * by (simp add: report_acceptable_def)
qed

section \<open>Properties\<close>

text \<open>
  C3. The verifier accepts exactly the full-length reports for which every \<^verbatim>\<open>snpguest\<close> step returned
  0 and whose bytes pass the checks: report data at 0x050, an allowlisted measurement at 0x090,
  the debug bit (bit 3 of byte 10) clear if required, the SMT bit (bit 0 of byte 10) clear if
  required, the little-endian TCB at 0x180 not below the floor. It returns the report's measurement.
\<close>

theorem snp_verify_accepts_iff:
  "fst (snp_verify h v fs report rd) = Inr m \<longleftrightarrow>
   1184 \<le> length report \<and>
   (\<exists>rp cdir. mktemp h = Inr rp \<and> cert_path h v = Inr cdir \<and> mkdir_p h cdir = Inr () \<and>
      list_all (\<lambda>st. \<exists>out err. run_tool h (fs(rp \<mapsto> report)) (snpguest v # st) = Inr (0, out, err))
        (chain_steps (processor v) cdir rp)) \<and>
   py_slice 0x50 0x90 report = fit 64 rd \<and>
   py_slice 0x90 0xC0 report \<in> allow v \<and>
   \<not> (require_no_debug v \<and> bit (report ! 10) 3) \<and>
   \<not> (require_smt_disabled v \<and> bit (report ! 10) 0) \<and>
   min_reported_tcb v \<le> int (le_val (py_slice 0x180 0x188 report)) \<and>
   m = py_slice 0x90 0xC0 report"
  unfolding snp_verify_Inr report_acceptable_def verify_signature_chain_def list_all_iff run_steps_Inr [symmetric]
  by (auto simp: bind_res_Inr REPORT_LEN_def)

text \<open>
  The verifier's temporary copy of the report is gone on every way out, so the files are what
  they were, provided the temporary name was unused.
\<close>

theorem snp_verify_removes_report:
  assumes "\<And>rp. mktemp h = Inr rp \<Longrightarrow> fs rp = None"
  shows "snd (snp_verify h v fs report rd) = fs"
  using assms by (rule snp_verify_files)

definition sample_snp_host :: snp_host where
  "sample_snp_host = \<lparr>run_tool = (\<lambda>fs args. Inr (0, [], [])), mkdtemp = Inr ''/tmp/snp_certs_1'',
     mktemp = Inr ''/tmp/r.bin'', mkdir_p = (\<lambda>d. Inr ())\<rparr>"

theorem snp_verify_removes_report_witness:
  "snd (snp_verify sample_snp_host (SnpVerifier ''snpguest'' ''milan'' [[]] 0 True False None) Map.empty
     (replicate 1184 0) []) = Map.empty"
  by (rule snp_verify_removes_report) simp

text \<open>
  A report passes the verifier for at most one report data: if it is accepted for two values of
  the same length up to 64 bytes, they are equal. A report cannot be reused for another binding.
\<close>

theorem snp_report_single_binding:
  assumes "fst (snp_verify h v fs r rd) = Inr m" "fst (snp_verify h v fs r rd') = Inr m'"
    and "length rd = length rd'" "length rd \<le> 64"
  shows "rd = rd' \<and> m = m'"
  using snpg.gate_binds_one [OF assms] snpg.gate_measurement_unique [OF assms(1,2)] by blast

lemma snp_sample_accepts:
  "fst (snp_verify sample_snp_host (SnpVerifier ''snpguest'' ''milan'' [[]] 0 True False None) fs
     (replicate 80 0 @ fit 64 rd @ replicate 1040 0) rd) = Inr (replicate 48 0)"
proof -
  let ?r = "replicate 80 0 @ fit 64 rd @ replicate 1040 (0 :: byte)"
  have "py_slice 0x50 0x90 ?r = fit 64 rd" by (intro py_slice_full) simp_all
  moreover have "py_slice 0x90 0xC0 ?r = replicate 48 0" by (simp add: py_slice_def)
  moreover have "?r ! 10 = 0" by (simp add: nth_append)
  ultimately show ?thesis
    by (simp add: snp_verify_Inr report_acceptable_def verify_signature_chain_def bind_res_Inr run_steps_Inr
        sample_snp_host_def SnpVerifier_def cert_path_def layout_defs ljust_def)
qed

theorem snp_report_single_binding_witness:
  "fst (snp_verify sample_snp_host (SnpVerifier ''snpguest'' ''milan'' [[]] 0 True False None) Map.empty
     (replicate 80 0 @ fit 64 [7] @ replicate 1040 0) [7]) = Inr (replicate 48 0) \<and>
   [7] = [7 :: byte] \<and> replicate 48 (0 :: byte) = replicate 48 0"
  using snp_report_single_binding [OF snp_sample_accepts [of Map.empty "[7]"] snp_sample_accepts [of Map.empty "[7]"]]
    snp_sample_accepts [of Map.empty "[7]"]
  by simp

text \<open>
  A successful fetch asked the driver, with the request code 0xC0205300, for a report over the
  caller's data (64 bytes, zero-padded, then the VMPL and 28 zero bytes) and returns the 1184 bytes
  that follow the 32-byte response header.
\<close>

theorem fetch_report_requests:
  assumes "fetch_report_ioctl d report_data vmpl = Inr r"
  shows "length r = 1184 \<and> (\<exists>arg_out resp_out.
    dev_ioctl d 0xC0205300 (fit 64 report_data @ le_bytes 4 vmpl @ replicate 28 0)
      (ioctl_arg (req_addr d) (resp_addr d)) = Inr (arg_out, resp_out) \<and>
    r = py_slice 32 1216 (fit 4000 resp_out) \<and>
    le_val (py_slice 24 32 (fit 32 arg_out)) = 0 \<and> le_val (py_slice 0 4 (fit 4000 resp_out)) = 0)"
proof -
  have code: "SNP_GET_REPORT = 0xC0205300"
    by (simp add: SNP_GET_REPORT_def IOWR_def IOC_WRITE_def IOC_READ_def)
  show ?thesis
    using assms fetch_report_length [OF assms]
    unfolding fetch_report_ioctl_Inr code report_req_def by (auto simp: REPORT_LEN_def)
qed

definition sample_device :: snp_device where
  "sample_device = \<lparr>path_exists = (\<lambda>p. p = SEV_GUEST_DEVICE), req_addr = 4096, resp_addr = 8192,
     dev_ioctl = (\<lambda>code req arg. Inr (replicate 32 0,
       replicate 4 0 @ le_bytes 4 1184 @ replicate 24 0 @ replicate 80 0 @ take 64 req @ replicate 1040 0))\<rparr>"

lemma sample_device_fetch:
  "fetch_report_ioctl sample_device rd 0 = Inr (replicate 80 0 @ fit 64 rd @ replicate 1040 0)"
proof -
  have f: "fit 4000 (replicate 4 0 @ le_bytes 4 1184 @ replicate 24 0 @ replicate 80 0 @ take 64 (report_req (fit 64 rd) 0) @ replicate 1040 0)
    = replicate 4 0 @ le_bytes 4 1184 @ replicate 24 0 @ (replicate 80 0 @ fit 64 rd @ replicate 1040 0) @ replicate 2784 (0 :: byte)"
    by (simp add: fit_short report_req_def)
  have z: "le_val (replicate n 0) = 0" for n by (induction n) simp_all
  have "le_val (le_bytes 4 1184) = 1184" by (rule le_val_le_bytes) simp
  moreover have "py_slice 32 1216 (replicate 4 0 @ le_bytes 4 1184 @ replicate 24 0 @ (replicate 80 0 @ fit 64 rd @ replicate 1040 0) @ replicate 2784 (0 :: byte))
      = replicate 80 0 @ fit 64 rd @ replicate 1040 0"
    by (simp add: py_slice_def)
  ultimately show ?thesis
    unfolding fetch_report_ioctl_Inr by (simp add: sample_device_def f z layout_defs py_slice_def)
qed

theorem fetch_report_requests_witness:
  "\<exists>r. fetch_report_ioctl sample_device [1, 2] 0 = Inr r \<and> length r = 1184"
  using fetch_report_requests [OF sample_device_fetch [of "[1, 2]"]] sample_device_fetch by blast

end
