(* ===== verification/Replay.thy ===== *)
theory Replay
  imports Prelude
begin

text \<open>
  The replay caches: \<^verbatim>\<open>_ReplayCache\<close> of \<^verbatim>\<open>src/src/krs_server.py\<close> and \<^verbatim>\<open>ReplayCache\<close> of
  \<^verbatim>\<open>src/src/cloud_protection.py\<close>. Both hold a set of digests and empty it when it is full. The
  locales state what a replay check promises: \<open>replay_guard\<close> what one check does,
  \<open>keeping_guard\<close> that nothing is ever forgotten (the executor's set of seen intent ids),
  \<open>bounded_guard\<close> that nothing is forgotten before the cache is full. A set under a lock is read
  and changed by one thread at a time, so a run of concurrent requests is a sequence of checks.
\<close>

section \<open>The contract of a replay check\<close>

text \<open>The keys that a sequence of checks lets through, in order.\<close>

fun accepted :: "('k \<Rightarrow> 's \<Rightarrow> bool \<times> 's) \<Rightarrow> 's \<Rightarrow> 'k list \<Rightarrow> 'k list" where
  "accepted check s [] = []"
| "accepted check s (k # ks) =
     (if fst (check k s) then [k] else []) @ accepted check (snd (check k s)) ks"

lemma set_accepted: "set (accepted check s ks) \<subseteq> set ks"
  by (induction ks arbitrary: s) auto

locale replay_guard =
  fixes check :: "'k \<Rightarrow> 's \<Rightarrow> bool \<times> 's"
    and members :: "'s \<Rightarrow> 'k set"
    and inv :: "'s \<Rightarrow> bool"
  assumes accept_iff: "fst (check k s) \<longleftrightarrow> k \<notin> members s"
    and accept_member: "fst (check k s) \<Longrightarrow> k \<in> members (snd (check k s))"
    and reject_same: "\<not> fst (check k s) \<Longrightarrow> snd (check k s) = s"
    and inv_check: "inv s \<Longrightarrow> inv (snd (check k s))"
begin

lemma member_after: "k \<in> members (snd (check k s))"
  using accept_iff accept_member reject_same by (cases "fst (check k s)") auto

text \<open>A key presented twice in a row is refused the second time.\<close>

lemma immediate_replay_refused: "\<not> fst (check k (snd (check k s)))"
  using member_after accept_iff by blast

end

locale keeping_guard = replay_guard +
  assumes keeps: "members s \<subseteq> members (snd (check k s))"
begin

lemma accepted_distinct: "distinct (accepted check s ks) \<and> set (accepted check s ks) \<inter> members s = {}"
proof (induction ks arbitrary: s)
  case (Cons k ks)
  let ?s' = "snd (check k s)"
  have "distinct (accepted check ?s' ks)" "set (accepted check ?s' ks) \<inter> members ?s' = {}"
    using Cons by blast+
  moreover have "k \<in> members ?s'" by (rule member_after)
  ultimately show ?case using keeps [of s k] accept_iff [of k s] by auto
qed simp

end

locale bounded_guard = replay_guard +
  fixes bound :: "'s \<Rightarrow> nat"
  assumes fits: "inv s \<Longrightarrow> finite (members s) \<and> card (members s) \<le> bound s"
    and bound_same: "bound (snd (check k s)) = bound s"
    and keeps_below: "inv s \<Longrightarrow> card (members s) < bound s \<Longrightarrow>
      members (snd (check k s)) = insert k (members s)"
    and forgets_at: "inv s \<Longrightarrow> bound s \<le> card (members s) \<Longrightarrow> k \<notin> members s \<Longrightarrow>
      members (snd (check k s)) = {k}"
begin

text \<open>Within the free capacity no key is let through twice.\<close>

lemma accepted_distinct_within:
  "inv s \<Longrightarrow> card (members s) + length ks \<le> bound s \<Longrightarrow>
   distinct (accepted check s ks) \<and> set (accepted check s ks) \<inter> members s = {}"
proof (induction ks arbitrary: s)
  case (Cons k ks)
  let ?s' = "snd (check k s)"
  have m: "members ?s' = insert k (members s)" using Cons.prems by (intro keeps_below) simp_all
  have "card (members ?s') \<le> Suc (card (members s))"
    using fits [OF Cons.prems(1)] m by (simp add: card_insert_if)
  then have "distinct (accepted check ?s' ks) \<and> set (accepted check ?s' ks) \<inter> members ?s' = {}"
    using Cons.prems inv_check bound_same by (intro Cons.IH) auto
  then show ?case using m accept_iff [of k s] by auto
qed simp

text \<open>Once the cache is full, one fresh key makes every other key acceptable again.\<close>

lemma replay_after_overflow:
  assumes "inv s" "bound s \<le> card (members s)" "k \<in> members s" "k' \<notin> members s"
  shows "\<not> fst (check k s) \<and> fst (check k' s) \<and> fst (check k (snd (check k' s)))"
proof -
  have "k \<noteq> k'" using assms(3,4) by blast
  moreover have "members (snd (check k' s)) = {k'}" using assms by (intro forgets_at) simp_all
  ultimately show ?thesis using assms(3,4) accept_iff by simp
qed

end

section \<open>The cache of the key-release service\<close>

record krs_cache =
  krs_seen :: "bytes set"
  krs_cap :: nat

definition new_krs_cache :: "nat \<Rightarrow> krs_cache" where
  "new_krs_cache c = \<lparr>krs_seen = {}, krs_cap = c\<rparr>"

definition krs_default_cap :: nat where
  "krs_default_cap = 100000"

text \<open>\<^verbatim>\<open>_ReplayCache.fresh\<close>.\<close>

definition krs_fresh :: "bytes \<Rightarrow> krs_cache \<Rightarrow> bool \<times> krs_cache" where
  "krs_fresh h rc =
     (if h \<in> krs_seen rc then (False, rc)
      else
        (let seen = (if krs_cap rc \<le> card (krs_seen rc) then {} else krs_seen rc)
         in (True, rc\<lparr>krs_seen := insert h seen\<rparr>)))"

definition krs_cache_inv :: "krs_cache \<Rightarrow> bool" where
  "krs_cache_inv rc \<longleftrightarrow> 0 < krs_cap rc \<and> finite (krs_seen rc) \<and> card (krs_seen rc) \<le> krs_cap rc"

interpretation krsg: bounded_guard krs_fresh krs_seen krs_cache_inv krs_cap
  by unfold_locales
     (auto simp: krs_fresh_def krs_cache_inv_def card_insert_if insert_absorb)

lemma new_krs_cache_inv: "0 < c \<Longrightarrow> krs_cache_inv (new_krs_cache c)"
  by (simp add: krs_cache_inv_def new_krs_cache_def)

section \<open>The cache of the protected process\<close>

definition MAX_REPLAY_ENTRIES :: nat where
  "MAX_REPLAY_ENTRIES = 10000"

definition new_replay_cache :: "bytes set" where
  "new_replay_cache = {}"

definition has_seen :: "bytes \<Rightarrow> bytes set \<Rightarrow> bool" where
  "has_seen h seen \<longleftrightarrow> h \<in> seen"

definition record_nonce :: "bytes \<Rightarrow> bytes set \<Rightarrow> bytes set" where
  "record_nonce h seen = insert h (if MAX_REPLAY_ENTRIES \<le> card seen then {} else seen)"

text \<open>The way \<^verbatim>\<open>bootstrap\<close> uses it: refuse what was seen, record the rest.\<close>

definition nonce_check :: "bytes \<Rightarrow> bytes set \<Rightarrow> bool \<times> bytes set" where
  "nonce_check h seen = (if has_seen h seen then (False, seen) else (True, record_nonce h seen))"

definition nonce_cache_inv :: "bytes set \<Rightarrow> bool" where
  "nonce_cache_inv seen \<longleftrightarrow> finite seen \<and> card seen \<le> MAX_REPLAY_ENTRIES"

interpretation cloudg: bounded_guard nonce_check "\<lambda>s. s" nonce_cache_inv "\<lambda>_. MAX_REPLAY_ENTRIES"
  by unfold_locales
     (auto simp: nonce_check_def has_seen_def record_nonce_def nonce_cache_inv_def
        MAX_REPLAY_ENTRIES_def card_insert_if insert_absorb)

section \<open>Properties\<close>

text \<open>
  When a full cache takes one new nonce, a nonce that it refused before is accepted again: the
  cache empties itself, so a recorded request can be replayed after an overflow.
\<close>

theorem krs_replay_after_overflow:
  assumes "krs_cache_inv rc" "krs_cap rc \<le> card (krs_seen rc)" "k \<in> krs_seen rc" "k' \<notin> krs_seen rc"
  shows "\<not> fst (krs_fresh k rc) \<and> fst (krs_fresh k' rc) \<and> fst (krs_fresh k (snd (krs_fresh k' rc)))"
  using assms by (rule krsg.replay_after_overflow)

theorem krs_replay_after_overflow_witness:
  "\<not> fst (krs_fresh [1] \<lparr>krs_seen = {[1]}, krs_cap = 1\<rparr>) \<and> fst (krs_fresh [2] \<lparr>krs_seen = {[1]}, krs_cap = 1\<rparr>)
   \<and> fst (krs_fresh [1] (snd (krs_fresh [2] \<lparr>krs_seen = {[1]}, krs_cap = 1\<rparr>)))"
  by (rule krs_replay_after_overflow) (simp_all add: krs_cache_inv_def)

text \<open>
  The nonce cache of the protected process keeps at most \<open>MAX_REPLAY_ENTRIES\<close> digests, refuses
  what it holds, and lets no digest through twice in any sequence of checks that fits into its free
  space.
\<close>

theorem nonce_cache_no_double:
  assumes "nonce_cache_inv seen" "card seen + length hs \<le> MAX_REPLAY_ENTRIES"
  shows "distinct (accepted nonce_check seen hs) \<and> set (accepted nonce_check seen hs) \<inter> seen = {}"
  using cloudg.accepted_distinct_within [of seen hs] assms by blast

theorem nonce_cache_no_double_witness:
  "distinct (accepted nonce_check new_replay_cache [[1], [2], [1]]) \<and>
   set (accepted nonce_check new_replay_cache [[1], [2], [1]]) \<inter> new_replay_cache = {}"
  by (rule nonce_cache_no_double) (simp_all add: nonce_cache_inv_def new_replay_cache_def MAX_REPLAY_ENTRIES_def)

end
