(* ===== verification/Krs_Server.thy ===== *)
theory Krs_Server
  imports Json Hybrid Snp_Verify Replay
begin

text \<open>
  \<^verbatim>\<open>src/src/krs_server.py\<close>: the configuration, the request handler and a run of the threaded server.
  The only state the handler changes is the replay cache, under its lock, so concurrent requests
  are a sequence of handler calls. The fresh values of a request (ephemeral key, encapsulation
  coins, AES-GCM nonce) are the record \<open>krs_draws\<close>. A request is its path, its \<^verbatim>\<open>Content-Length\<close> header and
  what \<^verbatim>\<open>json.loads\<close> makes of the first \<open>n\<close> bytes of its body; \<open>Krs_Serve\<close> adds the bytes on the wire
  and the connections, \<open>Krs_Threads\<close> the interleaving of requests.
\<close>

section \<open>Configuration\<close>

definition BIND_TAG :: bytes where
  "BIND_TAG = encode ''botsmaster-snp-binding-v2-hybrid''"

definition report_data_for :: "bytes \<Rightarrow> bytes \<Rightarrow> bytes \<Rightarrow> bytes" where
  "report_data_for client_x_pub client_kem_pub nonce =
     sha256 (client_x_pub @ client_kem_pub @ nonce @ BIND_TAG)"

text \<open>The verifier is any object with a \<^verbatim>\<open>verify(report, expected)\<close> method, or \<^verbatim>\<open>None\<close>.\<close>

record krs_config =
  signing_key :: bytes
  mldsa_sk :: bytes
  cek :: bytes
  verifier :: "(bytes \<Rightarrow> bytes \<Rightarrow> bytes res) option"
  production :: bool

definition KrsConfig ::
    "bytes \<Rightarrow> bytes \<Rightarrow> bytes \<Rightarrow> (bytes \<Rightarrow> bytes \<Rightarrow> bytes res) option \<Rightarrow> bool
     \<Rightarrow> (krs_config \<times> krs_cache) res" where
  "KrsConfig sk msk key v prd =
     (if length key \<noteq> 32 then Inl (ValueError ''CEK must be 32 bytes'')
      else Inr (\<lparr>signing_key = sk, mldsa_sk = msk, cek = key, verifier = v, production = prd\<rparr>,
                new_krs_cache krs_default_cap))"

section \<open>The handler\<close>

record http_request =
  path :: string
  content_length :: "string option"
  body_json :: "int \<Rightarrow> json res"
    \<comment> \<open>\<^verbatim>\<open>json.loads(self.rfile.read(n))\<close>\<close>

record http_response =
  status :: nat
  body :: json

record krs_draws =
  draw_x :: bytes
  draw_coins :: bytes
  draw_nonce :: bytes

definition deny :: http_response where
  "deny = \<lparr>status = 403, body = JObj [(''verified'', JBool False), (''reason'', JStr ''denied'')]\<rparr>"

text \<open>The fields of the request, in the order the handler reads them.\<close>

definition parse_request :: "http_request \<Rightarrow> (bytes \<times> bytes \<times> bytes \<times> bytes) res" where
  "parse_request rq =
     bind_res (py_int (case content_length rq of None \<Rightarrow> ''0'' | Some s \<Rightarrow> s)) (\<lambda>n.
     bind_res (body_json rq n) (\<lambda>req.
     bind_res (hex_field req ''report'') (\<lambda>report.
     bind_res (hex_field req ''client_x_pub'') (\<lambda>client_x_pub.
     bind_res (hex_field req ''client_kem_pub'') (\<lambda>client_kem_pub.
     bind_res (b64_field req ''nonce'') (\<lambda>nonce.
     bind_res (raise_if (length client_x_pub \<noteq> 32 \<or> length nonce \<noteq> 32) (ValueError ''bad params'')) (\<lambda>_.
     Inr (report, client_x_pub, client_kem_pub, nonce))))))))"

text \<open>\<open>b"\xde\xad" * 24\<close>, the placeholder of the development mode.\<close>

definition dev_measurement :: bytes where
  "dev_measurement = concat (replicate 24 [0xde, 0xad])"

definition attest :: "krs_config \<Rightarrow> bytes \<Rightarrow> bytes \<Rightarrow> bytes res" where
  "attest cfg report expected_rd =
     (if production cfg then
        (case verifier cfg of
           None \<Rightarrow> Inl (ValueError ''no verifier in production'')
         | Some verify \<Rightarrow> verify report expected_rd)
      else Inr dev_measurement)"

text \<open>The rest of the \<^verbatim>\<open>try\<close> block: attest, wrap, sign, answer.\<close>

definition release_cek ::
    "crypto \<Rightarrow> krs_config \<Rightarrow> krs_draws \<Rightarrow> bytes \<Rightarrow> bytes \<Rightarrow> bytes \<Rightarrow> bytes \<Rightarrow> json res" where
  "release_cek c cfg dr report client_x_pub client_kem_pub nonce =
     bind_res (attest cfg report (report_data_for client_x_pub client_kem_pub nonce)) (\<lambda>measurement.
     bind_res (wrap_cek c (draw_x dr) (draw_coins dr) (draw_nonce dr)
         client_x_pub client_kem_pub (cek cfg)) (\<lambda>(krs_x_pub, kem_ct, wrapped).
     bind_res (hybrid_sign c (signing_key cfg) (mldsa_sk cfg)
         (krs_x_pub @ kem_ct @ wrapped @ measurement @ nonce)) (\<lambda>sig.
     Inr (JObj
       [(''verified'', JBool True),
        (''krs_x_pub'', JHex krs_x_pub),
        (''kem_ct'', JB64 kem_ct),
        (''session_key'', JB64 wrapped),
        (''measurement'', JHex measurement),
        (''nonce_echo'', JB64 nonce),
        (''krs_signature'', JB64 sig)]))))"

definition do_POST ::
    "crypto \<Rightarrow> krs_config \<Rightarrow> krs_draws \<Rightarrow> http_request \<Rightarrow> krs_cache \<Rightarrow> http_response \<times> krs_cache" where
  "do_POST c cfg dr rq rc =
     (if path rq \<noteq> ''/verify'' then (deny, rc)
      else (case parse_request rq of
          Inl e \<Rightarrow> (deny, rc)
        | Inr (report, client_x_pub, client_kem_pub, nonce) \<Rightarrow>
           (case krs_fresh (sha256 nonce) rc of
              (False, rc') \<Rightarrow> (deny, rc')
            | (True, rc') \<Rightarrow>
               (case release_cek c cfg dr report client_x_pub client_kem_pub nonce of
                  Inl e \<Rightarrow> (deny, rc')
                | Inr b \<Rightarrow> (\<lparr>status = 200, body = b\<rparr>, rc')))))"

section \<open>Command line\<close>

text \<open>
  \<^verbatim>\<open>main\<close> up to \<^verbatim>\<open>serve_forever\<close>: the parsed arguments, the CEK from the environment, and either
  the usage error of \<^verbatim>\<open>argparse\<close>, an exception or the configuration that is served.
\<close>

record krs_args =
  arg_signing_key :: string
  arg_mldsa_key :: string
  arg_processor :: string
  arg_measurement :: "string list"
  arg_min_tcb :: int
  arg_production :: bool
  arg_cek_env :: string

datatype 'a startup = UsageError string | Started 'a

definition krs_main ::
    "crypto \<Rightarrow> snp_host \<Rightarrow> files \<Rightarrow> (string \<rightharpoonup> string) \<Rightarrow> krs_args
     \<Rightarrow> (krs_config \<times> krs_cache) startup res" where
  "krs_main c h fs env args =
     bind_res (res_of_option (KeyError (arg_cek_env args)) (env (arg_cek_env args))) (\<lambda>hex.
     bind_res (fromhex hex) (\<lambda>key.
     if arg_production args \<and> arg_measurement args = [] then
       Inr (UsageError ''production requires at least one --measurement'')
     else
     bind_res (if arg_production args then
                 bind_res (map_res fromhex (arg_measurement args)) (\<lambda>ms.
                   Inr (Some (\<lambda>r rd. fst (snp_verify h
                     (SnpVerifier ''snpguest'' (arg_processor args) ms (arg_min_tcb args) True False None)
                     fs r rd))))
               else Inr None) (\<lambda>v.
     bind_res (fromhex (arg_signing_key args)) (\<lambda>sk.
     bind_res (raise_if (length sk \<noteq> 32) (ValueError ''An Ed25519 private key is 32 bytes long'')) (\<lambda>_.
     bind_res (fromhex (arg_mldsa_key args)) (\<lambda>msk.
     bind_res (KrsConfig sk msk key v (arg_production args)) (\<lambda>cfg. Inr (Started cfg))))))))"

section \<open>Lemmas of the handler\<close>

lemma length_dev_measurement [simp]: "length dev_measurement = 48"
  by (simp add: dev_measurement_def length_concat sum_list_replicate)

lemma parse_request_lengths:
  "parse_request rq = Inr (report, x, k, nonce) \<Longrightarrow> length x = 32 \<and> length nonce = 32"
  by (auto simp: parse_request_def bind_res_Inr)

text \<open>
  The preimage of the report data determines the bound values: the two fixed-width fields and the
  tag enclose the one field of variable length.
\<close>

lemma binding_preimage_inj:
  assumes "x @ k @ n @ BIND_TAG = x' @ k' @ n' @ BIND_TAG"
    and "length x = length x'" "length n = length n'"
  shows "x = x' \<and> k = k' \<and> n = n'"
proof -
  have "x = x'" and r: "k @ n @ BIND_TAG = k' @ n' @ BIND_TAG" using assms(1,2) by simp_all
  then have "(k @ n) @ BIND_TAG = (k' @ n') @ BIND_TAG" by simp
  then have "k @ n = k' @ n'" by (simp only: append_same_eq)
  moreover then have "length k = length k'" using assms(3) by (metis add_right_cancel length_append)
  ultimately show ?thesis using \<open>x = x'\<close> by simp
qed

lemma do_POST_cases:
  obtains (path) "path rq \<noteq> ''/verify''" "do_POST c cfg dr rq rc = (deny, rc)"
  | (bad) e where "parse_request rq = Inl e" "do_POST c cfg dr rq rc = (deny, rc)"
  | (ok) report x k nonce where "path rq = ''/verify''" "parse_request rq = Inr (report, x, k, nonce)"
      "snd (do_POST c cfg dr rq rc) = snd (krs_fresh (sha256 nonce) rc)"
      "fst (do_POST c cfg dr rq rc) =
        (if fst (krs_fresh (sha256 nonce) rc) then
           (case release_cek c cfg dr report x k nonce of
              Inl e \<Rightarrow> deny | Inr b \<Rightarrow> \<lparr>status = 200, body = b\<rparr>)
         else deny)"
proof (cases "path rq = ''/verify''")
  case True
  show thesis
  proof (cases "parse_request rq")
    case (Inl e)
    then show thesis by (intro bad) (auto simp: do_POST_def)
  next
    case (Inr q)
    obtain report x k nonce where q: "q = (report, x, k, nonce)" by (cases q)
    obtain b rc' where f: "krs_fresh (sha256 nonce) rc = (b, rc')" by fastforce
    show thesis
      by (rule ok [OF True Inr [unfolded q]])
         (cases b, auto simp: do_POST_def True Inr q f split: sum.splits)+
  qed
qed (auto simp: do_POST_def intro: path)

lemma do_POST_200:
  assumes "status (fst (do_POST c cfg dr rq rc)) = 200"
  obtains report x k nonce b where "path rq = ''/verify''" "parse_request rq = Inr (report, x, k, nonce)"
    "fst (krs_fresh (sha256 nonce) rc)" "release_cek c cfg dr report x k nonce = Inr b"
    "fst (do_POST c cfg dr rq rc) = \<lparr>status = 200, body = b\<rparr>"
proof (cases rule: do_POST_cases [of rq c cfg dr rc])
  case (ok report x k nonce)
  with assms have f: "fst (krs_fresh (sha256 nonce) rc)" by (auto simp: deny_def split: if_splits)
  with assms ok(4) obtain b where "release_cek c cfg dr report x k nonce = Inr b"
    by (cases "release_cek c cfg dr report x k nonce") (auto simp: deny_def)
  with f ok show thesis by (intro that [OF ok(1,2)]) simp_all
qed (use assms in \<open>simp_all add: deny_def\<close>)

lemma release_cek_parts:
  assumes "release_cek c cfg dr report x k nonce = Inr b"
  obtains m x' ct w sig where "attest cfg report (report_data_for x k nonce) = Inr m"
    "wrap_cek c (draw_x dr) (draw_coins dr) (draw_nonce dr) x k (cek cfg) = Inr (x', ct, w)"
    "hybrid_sign c (signing_key cfg) (mldsa_sk cfg) (x' @ ct @ w @ m @ nonce) = Inr sig"
    "b = JObj [(''verified'', JBool True), (''krs_x_pub'', JHex x'), (''kem_ct'', JB64 ct), (''session_key'', JB64 w),
      (''measurement'', JHex m), (''nonce_echo'', JB64 nonce), (''krs_signature'', JB64 sig)]"
proof -
  obtain m where m: "attest cfg report (report_data_for x k nonce) = Inr m"
    using assms by (auto simp: release_cek_def bind_res_Inr)
  obtain t where "wrap_cek c (draw_x dr) (draw_coins dr) (draw_nonce dr) x k (cek cfg) = Inr t"
    using assms m by (auto simp: release_cek_def bind_res_Inr)
  then obtain x' ct w where t: "wrap_cek c (draw_x dr) (draw_coins dr) (draw_nonce dr) x k (cek cfg) = Inr (x', ct, w)"
    by (cases t) simp
  obtain sig where s: "hybrid_sign c (signing_key cfg) (mldsa_sk cfg) (x' @ ct @ w @ m @ nonce) = Inr sig"
    using assms m t by (auto simp: release_cek_def bind_res_Inr)
  show thesis
    by (rule that [OF m t s]) (use assms in \<open>simp only: release_cek_def m t s bind_res_simps prod.case sum.inject\<close>)
qed

text \<open>What a released key means: where every value of the answer comes from.\<close>

lemma do_POST_released:
  assumes "status (fst (do_POST c cfg dr rq rc)) = 200"
  obtains report x k nonce m x' ct w sig where "path rq = ''/verify''" "parse_request rq = Inr (report, x, k, nonce)"
    "sha256 nonce \<notin> krs_seen rc" "sha256 nonce \<in> krs_seen (snd (do_POST c cfg dr rq rc))"
    "attest cfg report (report_data_for x k nonce) = Inr m"
    "wrap_cek c (draw_x dr) (draw_coins dr) (draw_nonce dr) x k (cek cfg) = Inr (x', ct, w)"
    "hybrid_sign c (signing_key cfg) (mldsa_sk cfg) (x' @ ct @ w @ m @ nonce) = Inr sig"
    "fst (do_POST c cfg dr rq rc) = \<lparr>status = 200, body = JObj
       [(''verified'', JBool True), (''krs_x_pub'', JHex x'), (''kem_ct'', JB64 ct), (''session_key'', JB64 w),
        (''measurement'', JHex m), (''nonce_echo'', JB64 nonce), (''krs_signature'', JB64 sig)]\<rparr>"
proof -
  obtain report x k nonce b where *: "path rq = ''/verify''" "parse_request rq = Inr (report, x, k, nonce)"
      "fst (krs_fresh (sha256 nonce) rc)" "release_cek c cfg dr report x k nonce = Inr b"
      "fst (do_POST c cfg dr rq rc) = \<lparr>status = 200, body = b\<rparr>"
    using assms by (rule do_POST_200)
  have "snd (do_POST c cfg dr rq rc) = snd (krs_fresh (sha256 nonce) rc)"
    by (cases rule: do_POST_cases [of rq c cfg dr rc]) (use *(1,2) in simp_all)
  then have seen: "sha256 nonce \<in> krs_seen (snd (do_POST c cfg dr rq rc))" by (simp add: krsg.member_after)
  have new: "sha256 nonce \<notin> krs_seen rc" using *(3) by (simp add: krsg.accept_iff)
  obtain m x' ct w sig where r: "attest cfg report (report_data_for x k nonce) = Inr m"
      "wrap_cek c (draw_x dr) (draw_coins dr) (draw_nonce dr) x k (cek cfg) = Inr (x', ct, w)"
      "hybrid_sign c (signing_key cfg) (mldsa_sk cfg) (x' @ ct @ w @ m @ nonce) = Inr sig"
      "b = JObj [(''verified'', JBool True), (''krs_x_pub'', JHex x'), (''kem_ct'', JB64 ct), (''session_key'', JB64 w),
        (''measurement'', JHex m), (''nonce_echo'', JB64 nonce), (''krs_signature'', JB64 sig)]"
    using *(4) by (rule release_cek_parts)
  show thesis by (rule that [OF *(1,2) new seen r(1-3)]) (simp only: *(5) r(4))
qed

text \<open>The nonces for which a run answers 200, and the digests of all nonces a run checks.\<close>

fun released ::
    "crypto \<Rightarrow> krs_config \<Rightarrow> krs_cache \<Rightarrow> (krs_draws \<times> http_request) list \<Rightarrow> bytes list" where
  "released c cfg rc [] = []"
| "released c cfg rc ((dr, rq) # rqs) =
     (let (resp, rc') = do_POST c cfg dr rq rc
      in (if status resp = 200 then (case parse_request rq of
             Inl e \<Rightarrow> [] | Inr (report, x, k, nonce) \<Rightarrow> [nonce]) else [])
         @ released c cfg rc' rqs)"

fun checked_nonces :: "(krs_draws \<times> http_request) list \<Rightarrow> bytes list" where
  "checked_nonces [] = []"
| "checked_nonces ((dr, rq) # rqs) =
     (if path rq = ''/verify'' then (case parse_request rq of
         Inl e \<Rightarrow> [] | Inr (report, x, k, nonce) \<Rightarrow> [sha256 nonce]) else [])
     @ checked_nonces rqs"

lemma length_checked_nonces: "length (checked_nonces rqs) \<le> length rqs"
  by (induction rqs rule: checked_nonces.induct) (auto split: sum.splits)

lemma released_subseq:
  "set (map sha256 (released c cfg rc rqs)) \<subseteq> set (accepted krs_fresh rc (checked_nonces rqs))
   \<and> (distinct (accepted krs_fresh rc (checked_nonces rqs)) \<longrightarrow> distinct (map sha256 (released c cfg rc rqs)))"
proof (induction rqs arbitrary: rc rule: checked_nonces.induct)
  case (2 dr rq rqs)
  show ?case
  proof (cases rule: do_POST_cases [of rq c cfg dr rc])
    case path
    then show ?thesis using 2 [of rc] by (simp add: deny_def)
  next
    case bad
    then show ?thesis using 2 [of rc] by (simp add: deny_def)
  next
    case (ok report x k nonce)
    obtain resp where p: "do_POST c cfg dr rq rc = (resp, snd (krs_fresh (sha256 nonce) rc))"
      using ok(3) by (metis prod.collapse)
    have s: "status resp = 200 \<Longrightarrow> fst (krs_fresh (sha256 nonce) rc)"
      using ok(4) p by (auto simp: deny_def split: if_splits)
    let ?rc' = "snd (krs_fresh (sha256 nonce) rc)"
    have r: "released c cfg rc ((dr, rq) # rqs) =
        (if status resp = 200 then [nonce] else []) @ released c cfg ?rc' rqs"
      by (simp add: p ok(2))
    have a: "accepted krs_fresh rc (checked_nonces ((dr, rq) # rqs)) =
        (if fst (krs_fresh (sha256 nonce) rc) then [sha256 nonce] else [])
        @ accepted krs_fresh ?rc' (checked_nonces rqs)"
      by (simp add: ok(1,2))
    show ?thesis
      unfolding r a using 2 [of ?rc'] s by (cases "status resp = 200") auto
  qed
qed simp

section \<open>Properties\<close>

text \<open>
  C31. Every answer of the handler is either one and the same refusal, whatever the reason, or a 200 to a
  request for \<^verbatim>\<open>/verify\<close> that parsed, whose nonce was new and whose report was attested for its keys and
  nonce. The body of the 200 then carries exactly the service's key wrapped to the request's two
  public keys, the attested measurement, the request's nonce, and the signature over these; the key
  itself is in it in no other form.
\<close>

theorem do_POST_uniform_refusal:
  "fst (do_POST c cfg dr rq rc) = deny \<or>
   (\<exists>report x k nonce m x' ct w sig.
      path rq = ''/verify'' \<and> parse_request rq = Inr (report, x, k, nonce) \<and> sha256 nonce \<notin> krs_seen rc \<and>
      attest cfg report (report_data_for x k nonce) = Inr m \<and>
      wrap_cek c (draw_x dr) (draw_coins dr) (draw_nonce dr) x k (cek cfg) = Inr (x', ct, w) \<and>
      hybrid_sign c (signing_key cfg) (mldsa_sk cfg) (x' @ ct @ w @ m @ nonce) = Inr sig \<and>
      fst (do_POST c cfg dr rq rc) = \<lparr>status = 200, body = JObj
       [(''verified'', JBool True), (''krs_x_pub'', JHex x'), (''kem_ct'', JB64 ct), (''session_key'', JB64 w),
        (''measurement'', JHex m), (''nonce_echo'', JB64 nonce), (''krs_signature'', JB64 sig)]\<rparr>)"
proof (cases "status (fst (do_POST c cfg dr rq rc)) = 200")
  case True
  then show ?thesis by (rule do_POST_released) blast
next
  case False
  then have "fst (do_POST c cfg dr rq rc) = deny"
    by (cases rule: do_POST_cases [of rq c cfg dr rc]) (auto split: if_splits sum.splits)
  then show ?thesis ..
qed

text \<open>
  Production releases only what was attested: a 200 means that the request parsed, its nonce was
  not in the replay cache and now is, and the configured verifier accepted the report for the
  digest of the client's two public keys and nonce; the key is wrapped to exactly these public
  keys and the response is signed over wrap, measurement and nonce.
\<close>

theorem do_POST_production_release:
  assumes "status (fst (do_POST c cfg dr rq rc)) = 200" "production cfg"
  shows "\<exists>report x k nonce verify m x' ct w sig.
    parse_request rq = Inr (report, x, k, nonce) \<and> length x = 32 \<and> length nonce = 32 \<and>
    sha256 nonce \<notin> krs_seen rc \<and> sha256 nonce \<in> krs_seen (snd (do_POST c cfg dr rq rc)) \<and>
    verifier cfg = Some verify \<and> verify report (report_data_for x k nonce) = Inr m \<and>
    wrap_cek c (draw_x dr) (draw_coins dr) (draw_nonce dr) x k (cek cfg) = Inr (x', ct, w) \<and>
    hybrid_sign c (signing_key cfg) (mldsa_sk cfg) (x' @ ct @ w @ m @ nonce) = Inr sig"
proof -
  obtain report x k nonce m x' ct w sig where r:
      "parse_request rq = Inr (report, x, k, nonce)" "sha256 nonce \<notin> krs_seen rc"
      "sha256 nonce \<in> krs_seen (snd (do_POST c cfg dr rq rc))" "attest cfg report (report_data_for x k nonce) = Inr m"
      "wrap_cek c (draw_x dr) (draw_coins dr) (draw_nonce dr) x k (cek cfg) = Inr (x', ct, w)"
      "hybrid_sign c (signing_key cfg) (mldsa_sk cfg) (x' @ ct @ w @ m @ nonce) = Inr sig"
    using assms(1) by (rule do_POST_released)
  moreover obtain verify where "verifier cfg = Some verify" "verify report (report_data_for x k nonce) = Inr m"
    using r(4) assms(2) by (auto simp: attest_def split: option.splits)
  ultimately show ?thesis using parse_request_lengths [OF r(1)] by blast
qed

text \<open>
  In a run of the server that starts from a cache with room for all its requests, no nonce is
  answered with a released key twice, whatever is requested and in whatever order.
\<close>

theorem krs_no_double_release:
  assumes "krs_cache_inv rc" "card (krs_seen rc) + length rqs \<le> krs_cap rc"
  shows "distinct (released c cfg rc rqs)"
proof -
  have "card (krs_seen rc) + length (checked_nonces rqs) \<le> krs_cap rc"
    using assms(2) length_checked_nonces [of rqs] by linarith
  then have "distinct (accepted krs_fresh rc (checked_nonces rqs))"
    using krsg.accepted_distinct_within assms(1) by blast
  then show ?thesis using released_subseq distinct_map by blast
qed

text \<open>
  The report data binds the client's keys and nonce: two requests with the same report data
  have the same X25519 key, ML-KEM key and nonce, or their two different preimages collide under
  SHA-256.
\<close>

theorem report_data_binds:
  assumes "report_data_for x k n = report_data_for x' k' n'" "length x = 32" "length x' = 32"
    and "length n = 32" "length n' = 32"
  shows "(x = x' \<and> k = k' \<and> n = n') \<or>
    (\<exists>p q. p \<noteq> q \<and> sha256 p = sha256 q \<and> p = x @ k @ n @ BIND_TAG \<and> q = x' @ k' @ n' @ BIND_TAG)"
  using binding_preimage_inj [of x k n x' k' n'] assms by (auto simp: report_data_for_def)

theorem report_data_binds_witness:
  "(replicate 32 1 = replicate 32 (1 :: byte) \<and> [2 :: byte] = [2] \<and> replicate 32 3 = replicate 32 (3 :: byte)) \<or>
    (\<exists>p q. p \<noteq> q \<and> sha256 p = sha256 q \<and> p = replicate 32 1 @ [2] @ replicate 32 3 @ BIND_TAG
      \<and> q = replicate 32 1 @ [2] @ replicate 32 3 @ BIND_TAG)"
  by (rule report_data_binds) simp_all

text \<open>
  A report bound to one nonce is refused under another: in production with the SNP verifier, a
  request whose report carries the digest for nonce \<open>n0\<close> but which presents a nonce \<open>n\<close> different
  from it is denied, unless SHA-256 collides on the two preimages.
\<close>

theorem krs_denies_other_nonce:
  assumes "production cfg" "verifier cfg = Some (\<lambda>r rd. fst (snp_verify h v fs r rd))"
    and "parse_request rq = Inr (report, x, k, n)" "parse_report_data report = fit 64 (report_data_for x k n0)"
    and "n \<noteq> n0"
  shows "fst (do_POST c cfg dr rq rc) = deny \<or>
    sha256 (x @ k @ n @ BIND_TAG) = sha256 (x @ k @ n0 @ BIND_TAG)"
proof (cases "report_data_for x k n = report_data_for x k n0")
  case False
  then obtain e where "fst (snp_verify h v fs report (report_data_for x k n)) = Inl e"
    using snpg.gate_refuses_other_data [OF assms(4), of "report_data_for x k n" h v fs]
    by (auto simp: report_data_for_def length_sha256)
  then have r: "\<exists>e. release_cek c cfg dr report x k n = Inl e"
    using assms(1,2) by (simp add: release_cek_def attest_def)
  have "fst (do_POST c cfg dr rq rc) = deny"
    by (cases rule: do_POST_cases [of rq c cfg dr rc]) (use assms(3) r in auto)
  then show ?thesis by blast
qed (simp add: report_data_for_def)

end
