(* ===== verification/Pyrepr.thy ===== *)
theory Pyrepr
  imports Pyfloat Codec
begin

text \<open>
  \<^verbatim>\<open>str(x)\<close> and \<^verbatim>\<open>float(s)\<close> for Python floats. \<open>float_repr\<close> is the shortest decimal text that reads
  back as the same float, in the layout of the interpreter; \<open>py_float\<close> is the parser with correct
  rounding. The last section proves that 17 significant digits always suffice and that reading
  undoes printing, so the pair is a codec.
\<close>

section \<open>Decimal magnitudes\<close>

definition pow10 :: "int \<Rightarrow> rat" where
  "pow10 k = (if 0 \<le> k then 10 ^ nat k else 1 / 10 ^ nat (- k))"

text \<open>The largest \<open>k\<close> with \<open>10\<^sup>k \<le> x\<close>, for \<open>0 < x\<close>.\<close>

definition ilog10 :: "rat \<Rightarrow> int" where
  "ilog10 x =
     (if 1 \<le> x then int (length (nat_str (nat \<lfloor>x\<rfloor>))) - 1
      else - int (length (nat_str (nat (\<lceil>1 / x\<rceil> - 1)))))"

section \<open>Printing\<close>

text \<open>
  With \<open>n\<close> significant digits the candidates are the two decimals around \<open>x\<close>; one that rounds to
  \<open>x\<close> is taken, the nearer one if both do.
\<close>

definition digits_try :: "rat \<Rightarrow> nat \<Rightarrow> (int \<times> int) option" where
  "digits_try x n =
     (let e = ilog10 x - (int n - 1); s = pow10 e; q = x / s; f = \<lfloor>q\<rfloor>;
          lo = (rmag (of_int f * s) = x); hi = (rmag (of_int (f + 1) * s) = x)
      in if lo \<and> (\<not> hi \<or> q - of_int f \<le> 1 / 2) then Some (f, e)
         else if hi then Some (f + 1, e) else None)"

text \<open>The least number of digits, from \<open>n\<close> on, that works; \<open>fuel\<close> more attempts.\<close>

fun shortest_from :: "rat \<Rightarrow> nat \<Rightarrow> nat \<Rightarrow> (int \<times> int) option" where
  "shortest_from x n 0 = None"
| "shortest_from x n (Suc fuel) =
     (case digits_try x n of Some r \<Rightarrow> Some r | None \<Rightarrow> shortest_from x (Suc n) fuel)"

text \<open>Digits without trailing zeros and the position of the decimal point in front of them.\<close>

definition shortest :: "rat \<Rightarrow> string \<times> int" where
  "shortest x =
     (case shortest_from x 1 17 of
        Some (c, e) \<Rightarrow> (let t = nat_str (nat c) in (rstrip CHR ''0'' t, int (length t) + e))
      | None \<Rightarrow> ([], 0))"

definition exp_str :: "int \<Rightarrow> string" where
  "exp_str k =
     (let t = nat_str (nat \<bar>k\<bar>)
      in (if k < 0 then ''e-'' else ''e+'') @ (if length t < 2 then CHR ''0'' # t else t))"

definition layout :: "string \<Rightarrow> int \<Rightarrow> string" where
  "layout d p =
     (if - 4 < p \<and> p \<le> 16 then
        (if p \<le> 0 then ''0.'' @ replicate (nat (- p)) CHR ''0'' @ d
         else if nat p < length d then take (nat p) d @ ''.'' @ drop (nat p) d
         else d @ replicate (nat p - length d) CHR ''0'' @ ''.0'')
      else take 1 d @ (if length d = 1 then [] else CHR ''.'' # drop 1 d) @ exp_str (p - 1))"

fun float_repr :: "pyfloat \<Rightarrow> string" where
  "float_repr PNan = ''nan''"
| "float_repr (PInf s) = (if s then ''-inf'' else ''inf'')"
| "float_repr PNegZero = ''-0.0''"
| "float_repr (PFin x) =
     (if x = 0 then ''0.0''
      else (if x < 0 then ''-'' else []) @ (case shortest \<bar>x\<bar> of (d, p) \<Rightarrow> layout d p))"

section \<open>Reading\<close>

definition is_digit :: "char \<Rightarrow> bool" where
  "is_digit c \<longleftrightarrow> digit_val c \<noteq> None"

fun dval_from :: "nat \<Rightarrow> string \<Rightarrow> nat" where
  "dval_from a [] = a"
| "dval_from a (c # cs) = dval_from (10 * a + (case digit_val c of None \<Rightarrow> 0 | Some d \<Rightarrow> d)) cs"

abbreviation dval :: "string \<Rightarrow> nat" where
  "dval s \<equiv> dval_from 0 s"

text \<open>An underscore is allowed between two digits; \<open>p\<close> tells whether the last character was a digit.\<close>

fun underscores_ok :: "bool \<Rightarrow> string \<Rightarrow> bool" where
  "underscores_ok p [] = True"
| "underscores_ok p (c # cs) =
     (if c = CHR ''_'' then p \<and> cs \<noteq> [] \<and> is_digit (hd cs) \<and> underscores_ok False cs
      else underscores_ok (is_digit c) cs)"

definition to_lower :: "string \<Rightarrow> string" where
  "to_lower = map (\<lambda>c. let n = (of_char c :: nat) in if 65 \<le> n \<and> n \<le> 90 then char_of (n + 32) else c)"

text \<open>The exponent part: nothing, or \<open>e\<close> with an optional sign and at least one digit.\<close>

definition read_exp :: "string \<Rightarrow> int option" where
  "read_exp t =
     (case t of
        [] \<Rightarrow> Some 0
      | c # cs \<Rightarrow>
         (if c \<noteq> CHR ''e'' \<and> c \<noteq> CHR ''E'' then None
          else
            (let neg = (cs \<noteq> [] \<and> hd cs = CHR ''-'');
                 ds = (if cs \<noteq> [] \<and> (hd cs = CHR ''-'' \<or> hd cs = CHR ''+'') then tl cs else cs)
             in if ds \<noteq> [] \<and> list_all is_digit ds
                then Some (if neg then - int (dval ds) else int (dval ds)) else None)))"

definition signed_rnd :: "bool \<Rightarrow> rat \<Rightarrow> pyfloat" where
  "signed_rnd neg v = (if neg then (if v = 0 then PNegZero else rnd (- v)) else rnd v)"

text \<open>A number without sign: its exact value, or nothing.\<close>

definition read_decimal :: "string \<Rightarrow> rat option" where
  "read_decimal r =
     (let ip = takeWhile is_digit r; r1 = dropWhile is_digit r;
          dot = (r1 \<noteq> [] \<and> hd r1 = CHR ''.'');
          fp = (if dot then takeWhile is_digit (tl r1) else []);
          r2 = (if dot then dropWhile is_digit (tl r1) else r1)
      in if ip = [] \<and> fp = [] then None
         else map_option (\<lambda>e. of_nat (dval (ip @ fp)) * pow10 (e - int (length fp))) (read_exp r2))"

definition py_float :: "string \<Rightarrow> pyfloat res" where
  "py_float s =
     (let t = py_strip s; err = Inl (ValueError ''could not convert string to float'') in
      if \<not> underscores_ok False t then err
      else
        (let u = filter (\<lambda>c. c \<noteq> CHR ''_'') t;
             neg = (u \<noteq> [] \<and> hd u = CHR ''-'');
             r = (if u \<noteq> [] \<and> (hd u = CHR ''-'' \<or> hd u = CHR ''+'') then tl u else u);
             l = to_lower r
         in if l = ''inf'' \<or> l = ''infinity'' then Inr (PInf neg)
            else if l = ''nan'' then Inr PNan
            else (case read_decimal r of None \<Rightarrow> err | Some v \<Rightarrow> Inr (signed_rnd neg v))))"

section \<open>Seventeen digits suffice\<close>

lemma pow10_powi: "pow10 k = 10 powi k"
  by (simp add: pow10_def power_int_def inverse_eq_divide power_one_over)

lemma pow10_pos [simp]: "0 < pow10 k"
  by (simp add: pow10_def)

lemma pow10_neq_0 [simp]: "pow10 k \<noteq> 0"
  using pow10_pos [of k] by linarith

lemma pow10_add: "pow10 (a + b) = pow10 a * pow10 b"
  by (simp add: pow10_powi power_int_add)

lemma pow10_nat: "pow10 (int n) = 10 ^ n"
  by (simp add: pow10_def)

lemma pow10_minus: "pow10 (- k) = 1 / pow10 k"
  by (simp add: pow10_powi power_int_minus inverse_eq_divide)

lemma length_nat_str: "0 < n \<Longrightarrow> 10 ^ (length (nat_str n) - 1) \<le> n \<and> n < 10 ^ length (nat_str n)"
proof (induction n rule: nat_str.induct)
  case (1 n)
  show ?case
  proof (cases "n < 10")
    case True
    with 1 show ?thesis by (simp add: nat_str.simps [of n])
  next
    case False
    have l: "length (nat_str n) = Suc (length (nat_str (n div 10)))" using False by (simp add: nat_str.simps [of n])
    have IH: "10 ^ (length (nat_str (n div 10)) - 1) \<le> n div 10" "n div 10 < 10 ^ length (nat_str (n div 10))"
      using 1 False by simp_all
    have "length (nat_str (n div 10)) \<noteq> 0" by simp
    then have "(10 :: nat) ^ length (nat_str (n div 10)) = 10 * 10 ^ (length (nat_str (n div 10)) - 1)"
      by (simp add: power_eq_if)
    then show ?thesis using IH l by (auto simp: div_less_iff_less_mult less_eq_div_iff_mult_less_eq mult.commute)
  qed
qed

lemma pow10_length_nat_str:
  assumes "0 < n"
  shows "pow10 (int (length (nat_str n)) - 1) \<le> of_nat n" and "of_nat n < pow10 (int (length (nat_str n)))"
proof -
  note l = length_nat_str [OF assms]
  have "length (nat_str n) \<noteq> 0" by simp
  then have "int (length (nat_str n)) - 1 = int (length (nat_str n) - 1)" by linarith
  then have "pow10 (int (length (nat_str n)) - 1) = of_nat (10 ^ (length (nat_str n) - 1))"
    by (simp only: pow10_nat of_nat_power of_nat_numeral)
  also have "\<dots> \<le> of_nat n" using l by (simp only: of_nat_le_iff)
  finally show "pow10 (int (length (nat_str n)) - 1) \<le> of_nat n" .
  have "of_nat n < (of_nat (10 ^ length (nat_str n)) :: rat)" using l by (simp only: of_nat_less_iff)
  then show "of_nat n < pow10 (int (length (nat_str n)))" by (simp add: pow10_nat)
qed

lemma ilog10_lower: assumes "0 < x" shows "pow10 (ilog10 x) \<le> x"
proof (cases "1 \<le> x")
  case True
  then have "0 < nat \<lfloor>x\<rfloor>" by (simp add: le_floor_iff)
  then have "pow10 (ilog10 x) \<le> of_nat (nat \<lfloor>x\<rfloor>)" using True pow10_length_nat_str(1) [of "nat \<lfloor>x\<rfloor>"] by (simp add: ilog10_def)
  also have "\<dots> \<le> x" using True by (simp add: of_nat_nat)
  finally show ?thesis .
next
  case False
  define m where "m = nat (\<lceil>1 / x\<rceil> - 1)"
  have y: "1 < 1 / x" using False assms by simp
  then have "1 < \<lceil>1 / x\<rceil>" by (metis of_int_1 less_ceiling_iff)
  then have m: "0 < m" "\<lceil>1 / x\<rceil> = int m + 1" unfolding m_def by linarith+
  have "m < 10 ^ length (nat_str m)" using length_nat_str [OF m(1)] by simp
  then have "of_nat (Suc m) \<le> (of_nat (10 ^ length (nat_str m)) :: rat)" by (simp only: of_nat_le_iff Suc_le_eq)
  then have "of_nat m + 1 \<le> pow10 (int (length (nat_str m)))" by (simp add: pow10_nat)
  moreover have "1 / x \<le> of_nat m + 1" using le_of_int_ceiling [of "1 / x"] m(2) by simp
  ultimately have "1 / x \<le> pow10 (int (length (nat_str m)))" by linarith
  then have "1 / pow10 (int (length (nat_str m))) \<le> x" using assms by (simp add: field_simps)
  then show ?thesis using False by (simp add: ilog10_def pow10_minus m_def)
qed

lemma rhe_near: assumes "\<bar>q - of_int n\<bar> < 1 / 2" shows "rhe q = n"
proof -
  have "\<bar>of_int (rhe q) - of_int n\<bar> < (1 :: rat)" using assms rhe_error [of q] by linarith
  then have "\<bar>of_int (rhe q - n)\<bar> < (1 :: rat)" by simp
  then have "\<bar>rhe q - n\<bar> < 1" by linarith
  then show ?thesis by simp
qed

lemma rmag_grid:
  assumes "0 < y" "ulp y = v" "x = of_int n * v" "\<bar>y - x\<bar> < v / 2" shows "rmag y = x"
proof -
  have v: "0 < v" using ulp_pos [of y] assms(2) by simp
  have "y / v - of_int n = (y - x) / v" using v assms(3) by (simp add: diff_divide_distrib)
  then have "\<bar>y / v - of_int n\<bar> = \<bar>y - x\<bar> / v" using abs_div_pos [OF v, of "y - x"] by (simp only:)
  also have "\<dots> < 1 / 2" using assms(4) v by (simp add: pos_divide_less_eq)
  finally have "rhe (y / v) = n" by (rule rhe_near)
  then show ?thesis using assms(1) unfolding rmag_def assms(2,3) by simp
qed

text \<open>A decimal within half a unit of the seventeenth digit rounds to the float it came from.\<close>

lemma rmag_near:
  assumes "is_double x" "0 < x" "\<bar>y - x\<bar> \<le> x / (2 * 10 ^ 16)"
  shows "rmag y = x"
proof -
  define E u where "E = max (ilog2 x) (- 1022)" and "u = pow2 (E - 52)"
  have ulp: "ulp x = u" by (simp add: ulp_def E_def u_def)
  obtain n where n: "x = of_int n * u" using is_doubleD [OF assms(1,2)] ulp by auto
  have u0: "0 < u" by (simp add: u_def)
  have p: "pow2 E = 2 ^ 52 * u" "pow2 (E + 1) = 2 ^ 53 * u"
    using pow2_add [of 52 "E - 52"] pow2_add [of 53 "E - 52"] by (simp_all add: u_def pow2_numeral add.commute)
  have "ilog2 x + 1 \<le> E + 1" by (simp add: E_def)
  then have "x < pow2 (E + 1)" using ilog2_bounds(2) [OF assms(2)] by (meson order_less_le_trans pow2_le)
  then have xu: "x < 2 ^ 53 * u" by (simp add: p)
  have d: "\<bar>y - x\<bar> < x / 2 ^ 54"
  proof -
    have "x / (2 * 10 ^ 16) < x / 2 ^ 54" using assms(2) by (intro divide_strict_left_mono) simp_all
    then show ?thesis using assms(3) by linarith
  qed
  have d2: "\<bar>y - x\<bar> < u / 2" using d xu by simp
  have "x / 2 ^ 54 < x" using assms(2) by simp
  then have y0: "0 < y" using d by linarith
  define F where "F = max (ilog2 y) (- 1022)"
  have uy: "ulp y = pow2 (F - 52)" by (simp add: ulp_def F_def)
  consider "F = E" | "E < F" | "F < E" by linarith
  then show ?thesis
  proof cases
    case 1
    then show ?thesis using uy n d2 by (intro rmag_grid [OF y0 _ n d2]) (simp add: u_def)
  next
    case 2
    then have "F = ilog2 y" "E + 1 \<le> F" by (auto simp: F_def E_def)
    then have "pow2 (E + 1) \<le> y" using ilog2_bounds(1) [OF y0] by (metis order_trans pow2_le)
    then have yb: "2 ^ 53 * u \<le> y" by (simp add: p)
    have "of_int n < (2 :: rat) ^ 53" using xu n u0 by (simp add: mult_less_cancel_right)
    then have "of_int n < (of_int (2 ^ 53) :: rat)" by simp
    then have "n < 2 ^ 53" by (simp only: of_int_less_iff)
    then have "of_int n \<le> (of_int (2 ^ 53 - 1) :: rat)" by (simp only: of_int_le_iff)
    then have "of_int n * u \<le> (2 ^ 53 - 1) * u" using u0 by (intro mult_right_mono) simp_all
    then have "x \<le> 2 ^ 53 * u - u" using n by (simp add: left_diff_distrib)
    then show ?thesis using yb d2 u0 by linarith
  next
    case 3
    then have "ilog2 x = E" by (auto simp: E_def F_def max_def split: if_splits)
    then have xE: "2 ^ 52 * u \<le> x" using ilog2_bounds(1) [OF assms(2)] p by simp
    have "y < pow2 (F + 1)"
      using ilog2_bounds(2) [OF y0] by (simp add: F_def) (meson less_le_trans max.cobounded1 add_le_cancel_right pow2_le)
    moreover have "pow2 (F + 1) \<le> pow2 E" using 3 by simp
    ultimately have yE: "y < 2 ^ 52 * u" using p by linarith
    have "n = 2 ^ 52"
    proof (rule ccontr)
      assume "n \<noteq> 2 ^ 52"
      moreover have "of_int (2 ^ 52) \<le> (of_int n :: rat)" using xE n u0 by simp
      then have "2 ^ 52 \<le> n" by (simp only: of_int_le_iff)
      ultimately have "of_int (2 ^ 52 + 1) \<le> (of_int n :: rat)" by (simp only: of_int_le_iff)
      then have "(2 ^ 52 + 1) * u \<le> of_int n * u" using u0 by (intro mult_right_mono) simp_all
      then have "2 ^ 52 * u + u \<le> x" using n by (simp add: distrib_right)
      then show False using yE d2 u0 by linarith
    qed
    then have x: "x = 2 ^ 52 * u" using n by simp
    have d4: "\<bar>y - x\<bar> < u / 4" using d x by simp
    have v: "u = 2 * pow2 (E - 53)" using pow2_add [of 1 "E - 53"] by (simp add: u_def)
    have "pow2 (E - 1) = 2 ^ 51 * u" using pow2_add [of 51 "E - 52"] by (simp add: u_def pow2_numeral)
    moreover have "u / 4 + 2 ^ 51 * u \<le> 2 ^ 52 * u" using u0 by simp
    ultimately have "pow2 (E - 1) \<le> y" using d4 x by linarith
    then have "pow2 (E - 1) < pow2 (ilog2 y + 1)" using ilog2_bounds(2) [OF y0] by linarith
    then have "F = E - 1" using 3 by (simp add: F_def)
    then have "ulp y = pow2 (E - 53)" using uy by simp
    then show ?thesis using d4 v x by (intro rmag_grid [OF y0, where n = "2 ^ 53" and v = "pow2 (E - 53)"]) simp_all
  qed
qed

lemma digits_try_sound: "digits_try x n = Some (c, e) \<Longrightarrow> rmag (of_int c * pow10 e) = x"
  by (auto simp: digits_try_def Let_def split: if_splits)

lemma digits_try_nonneg: "0 < x \<Longrightarrow> digits_try x n = Some (c, e) \<Longrightarrow> 0 \<le> c"
proof -
  assume a: "0 < x" "digits_try x n = Some (c, e)"
  have "0 \<le> \<lfloor>x / pow10 e\<rfloor>" using a(1) by (simp add: less_imp_le)
  then show "0 \<le> c" using a(2) by (auto simp: digits_try_def Let_def split: if_splits)
qed

lemma digits_try_17:
  assumes "is_double x" "0 < x" shows "digits_try x 17 \<noteq> None"
proof -
  define s where "s = pow10 (ilog10 x - 16)"
  have s0: "0 < s" by (simp add: s_def)
  have "pow10 (ilog10 x) = s * 10 ^ 16" using pow10_add [of "ilog10 x - 16" 16] by (simp add: s_def pow10_def)
  then have "s * 10 ^ 16 \<le> x" using ilog10_lower [OF assms(2)] by simp
  then have sx: "s / 2 \<le> x / (2 * 10 ^ 16)" by simp
  define q where "q = x / s"
  have near: "rmag (of_int c * s) = x" if "\<bar>of_int c - q\<bar> \<le> 1 / 2" for c
  proof (rule rmag_near [OF assms])
    have "of_int c * s - x = (of_int c - q) * s" using s0 by (simp add: q_def left_diff_distrib)
    then have "\<bar>of_int c * s - x\<bar> = \<bar>of_int c - q\<bar> * s" using s0 by (simp only: abs_mult abs_of_pos)
    also have "\<dots> \<le> 1 / 2 * s" using that s0 by (intro mult_right_mono) simp_all
    finally show "\<bar>of_int c * s - x\<bar> \<le> x / (2 * 10 ^ 16)" using sx by simp
  qed
  have "rmag (of_int \<lfloor>q\<rfloor> * s) = x" if "q - of_int \<lfloor>q\<rfloor> \<le> 1 / 2"
    using that of_int_floor_le [of q] by (intro near) linarith
  moreover have "rmag (of_int (\<lfloor>q\<rfloor> + 1) * s) = x" if "\<not> q - of_int \<lfloor>q\<rfloor> \<le> 1 / 2"
    using that floor_correct [of q] by (intro near) (simp add: abs_le_iff)
  ultimately show ?thesis by (auto simp: digits_try_def Let_def s_def q_def)
qed

lemma shortest_from_Some: "shortest_from x n k = Some r \<Longrightarrow> \<exists>m. digits_try x m = Some r"
  by (induction k arbitrary: n) (auto split: option.splits)

lemma shortest_from_total:
  "digits_try x m \<noteq> None \<Longrightarrow> n \<le> m \<Longrightarrow> m < n + k \<Longrightarrow> \<exists>r. shortest_from x n k = Some r"
proof (induction k arbitrary: n)
  case (Suc k)
  show ?case
  proof (cases "digits_try x n")
    case None
    with Suc.prems(1) have "n \<noteq> m" by auto
    with Suc.prems have "\<exists>r. shortest_from x (Suc n) k = Some r" by (intro Suc.IH) simp_all
    with None show ?thesis by simp
  qed simp
qed simp

section \<open>Reading undoes printing\<close>

lemma is_digit_digit_char: "d < 10 \<Longrightarrow> is_digit (digit_char d)"
  by (simp add: is_digit_def digit_facts)

lemma nat_str_digits: "list_all is_digit (nat_str n)"
  using nat_str_chars is_digit_digit_char by (fastforce simp: list_all_iff)

lemma dval_from_append: "dval_from a (xs @ ys) = dval_from (dval_from a xs) ys"
  by (induction xs arbitrary: a) simp_all

lemma dval_from_shift: "dval_from a xs = a * 10 ^ length xs + dval xs"
proof (induction xs arbitrary: a)
  case (Cons c xs)
  show ?case
    using Cons [of "10 * a + (case digit_val c of None \<Rightarrow> 0 | Some d \<Rightarrow> d)"]
      Cons [of "case digit_val c of None \<Rightarrow> 0 | Some d \<Rightarrow> d"]
    by (simp add: algebra_simps)
qed simp

lemma dval_append: "dval (xs @ ys) = dval xs * 10 ^ length ys + dval ys"
  by (simp add: dval_from_append dval_from_shift [of "dval xs"])

lemma dval_nat_str: "dval (nat_str n) = n"
proof (induction n rule: nat_str.induct)
  case (1 n)
  then show ?case by (cases "n < 10") (simp_all add: nat_str.simps [of n] digit_facts dval_append)
qed

lemma digit_zero: "digit_val CHR ''0'' = Some 0" "is_digit CHR ''0''"
  by (simp_all add: digit_val_def is_digit_def)

lemma dval_zeros: "dval (replicate k CHR ''0'') = 0"
  by (induction k) (simp_all add: digit_zero)

lemma rstrip_split: "\<exists>k. xs = rstrip c xs @ replicate k c"
proof (induction xs rule: rev_induct)
  case (snoc x xs)
  show ?case
  proof (cases "x = c")
    case True
    obtain k where "xs = rstrip c xs @ replicate k c" using snoc by blast
    then have "xs @ [x] = rstrip c xs @ replicate (Suc k) c" using True
      by (metis append.assoc replicate_append_same replicate_Suc)
    moreover have "rstrip c (xs @ [x]) = rstrip c xs" using True by (simp add: rstrip_def)
    ultimately show ?thesis by metis
  next
    case False
    then have "xs @ [x] = rstrip c (xs @ [x]) @ replicate 0 c" by (simp add: rstrip_def)
    then show ?thesis by blast
  qed
qed (simp add: rstrip_def)

text \<open>The value of digits with the decimal point \<open>p\<close> places after their start.\<close>

definition decv :: "string \<Rightarrow> int \<Rightarrow> rat" where
  "decv d p = of_nat (dval d) * pow10 (p - int (length d))"

lemma shortest_facts:
  assumes "is_double x" "0 < x" "shortest x = (d, p)"
  shows "d \<noteq> []" and "list_all is_digit d" and "rmag (decv d p) = x"
proof -
  obtain c e where ce: "shortest_from x 1 17 = Some (c, e)"
    using shortest_from_total [OF digits_try_17 [OF assms(1,2)], of 1 17] by auto
  then obtain m where t: "digits_try x m = Some (c, e)" using shortest_from_Some by blast
  note r = digits_try_sound [OF t] and c0 = digits_try_nonneg [OF assms(2) t]
  define t' where "t' = nat_str (nat c)"
  have d: "d = rstrip CHR ''0'' t'" "p = int (length t') + e"
    using assms(3) ce by (simp_all add: shortest_def t'_def Let_def)
  obtain k where k: "t' = d @ replicate k CHR ''0''" using rstrip_split [of t'] d(1) by blast
  show digits: "list_all is_digit d" using nat_str_digits [of "nat c"] k by (simp add: t'_def [symmetric])
  have v: "nat c = dval d * 10 ^ k"
    using dval_nat_str [of "nat c"] k dval_zeros by (simp add: t'_def [symmetric] dval_append)
  have "decv d p = of_nat (dval d) * pow10 (int k + e)" by (simp add: decv_def d(2) k)
  also have "\<dots> = of_nat (nat c) * pow10 e" by (simp add: v pow10_add pow10_nat)
  also have "\<dots> = of_int c * pow10 e" using c0 by simp
  finally show "rmag (decv d p) = x" using r by simp
  show "d \<noteq> []"
  proof
    assume "d = []"
    then have "c = 0" using v c0 by simp
    then show False using r assms(2) by simp
  qed
qed

lemma takeWhile_digits:
  assumes "list_all is_digit ds" "t = [] \<or> \<not> is_digit (hd t)"
  shows "takeWhile is_digit (ds @ t) = ds \<and> dropWhile is_digit (ds @ t) = t"
  using assms by (induction ds) (auto, (cases t; auto)+)

lemma read_decimal_dot:
  assumes "list_all is_digit ip" "ip \<noteq> []" "list_all is_digit fp" "t = [] \<or> \<not> is_digit (hd t)"
  shows "read_decimal (ip @ CHR ''.'' # fp @ t) =
    map_option (\<lambda>e. of_nat (dval (ip @ fp)) * pow10 (e - int (length fp))) (read_exp t)"
proof -
  have "\<not> is_digit CHR ''.''" by (simp add: is_digit_def digit_val_def)
  then have "takeWhile is_digit (ip @ CHR ''.'' # fp @ t) = ip"
      "dropWhile is_digit (ip @ CHR ''.'' # fp @ t) = CHR ''.'' # fp @ t"
    using takeWhile_digits [OF assms(1), of "CHR ''.'' # fp @ t"] by simp_all
  then show ?thesis
    using takeWhile_digits [OF assms(3,4)] assms(2) by (simp add: read_decimal_def Let_def)
qed

lemma read_decimal_plain:
  assumes "list_all is_digit ip" "ip \<noteq> []" "t = [] \<or> \<not> is_digit (hd t) \<and> hd t \<noteq> CHR ''.''"
  shows "read_decimal (ip @ t) = map_option (\<lambda>e. of_nat (dval ip) * pow10 e) (read_exp t)"
proof -
  have tw: "takeWhile is_digit (ip @ t) = ip" "dropWhile is_digit (ip @ t) = t"
    using takeWhile_digits [OF assms(1), of t] assms(3) by blast+
  have "\<not> (t \<noteq> [] \<and> hd t = CHR ''.'')" using assms(3) by blast
  then show ?thesis using assms(2) by (auto simp: read_decimal_def Let_def tw)
qed

lemma read_exp_str: "read_exp (exp_str k) = Some k"
proof -
  define t where "t = (if length (nat_str (nat \<bar>k\<bar>)) < 2 then CHR ''0'' # nat_str (nat \<bar>k\<bar>) else nat_str (nat \<bar>k\<bar>))"
  have t: "t \<noteq> []" "list_all is_digit t" "dval t = nat \<bar>k\<bar>"
    using nat_str_digits [of "nat \<bar>k\<bar>"] dval_nat_str [of "nat \<bar>k\<bar>"] by (simp_all add: t_def digit_zero)
  have "exp_str k = (if k < 0 then ''e-'' else ''e+'') @ t" by (simp add: exp_str_def t_def Let_def)
  then show ?thesis using t by (simp add: read_exp_def)
qed

lemma exp_str_start: "exp_str k \<noteq> [] \<and> hd (exp_str k) = CHR ''e''"
  by (simp add: exp_str_def Let_def)

lemma read_decimal_layout:
  assumes "d \<noteq> []" "list_all is_digit d"
  shows "read_decimal (layout d p) = Some (decv d p)"
proof -
  have e0: "read_exp [] = Some 0" by (simp add: read_exp_def)
  have ne: "\<not> is_digit CHR ''e''" by (simp add: is_digit_def digit_val_def)
  have z: "list_all is_digit (replicate k CHR ''0'')" for k by (simp add: list_all_iff digit_zero)
  consider (exp) "\<not> (- 4 < p \<and> p \<le> 16)" | (small) "- 4 < p" "p \<le> 0" | (mid) "0 < p" "p \<le> 16" "nat p < length d"
    | (big) "0 < p" "p \<le> 16" "length d \<le> nat p" by linarith
  then show ?thesis
  proof cases
    case small
    have l: "layout d p = ''0'' @ CHR ''.'' # (replicate (nat (- p)) CHR ''0'' @ d) @ []"
      using small by (simp add: layout_def)
    have "dval (''0'' @ replicate (nat (- p)) CHR ''0'' @ d) = dval d"
      by (simp add: dval_append dval_zeros digit_zero dval_from_append)
    then show ?thesis
      unfolding l using small assms(2) z e0 by (subst read_decimal_dot) (simp_all add: digit_zero decv_def)
  next
    case mid
    have l: "layout d p = take (nat p) d @ CHR ''.'' # drop (nat p) d @ []" using mid by (simp add: layout_def)
    have "list_all is_digit (take (nat p) d)" "list_all is_digit (drop (nat p) d)"
      using assms(2) by (auto simp: list_all_iff dest: in_set_takeD in_set_dropD)
    then show ?thesis
      unfolding l using mid e0 assms(1) by (subst read_decimal_dot) (simp_all add: decv_def)
  next
    case big
    have l: "layout d p = (d @ replicate (nat p - length d) CHR ''0'') @ CHR ''.'' # ''0'' @ []"
      using big by (simp add: layout_def)
    have "dval ((d @ replicate (nat p - length d) CHR ''0'') @ ''0'') = dval d * 10 ^ (nat p - length d) * 10"
      by (simp add: dval_append dval_zeros digit_zero)
    moreover have "pow10 (p - int (length d)) = 10 ^ (nat p - length d)"
      using big pow10_nat [of "nat p - length d"] by (simp add: of_nat_diff)
    moreover have "pow10 (- 1) = 1 / 10" by (simp add: pow10_def)
    ultimately show ?thesis
      unfolding l using e0 assms z by (subst read_decimal_dot) (simp_all add: digit_zero decv_def)
  next
    case exp
    obtain a ds where d: "d = a # ds" using assms(1) by (cases d) simp_all
    have t: "exp_str (p - 1) = [] \<or> \<not> is_digit (hd (exp_str (p - 1))) \<and> hd (exp_str (p - 1)) \<noteq> CHR ''.''"
      using exp_str_start [of "p - 1"] ne by simp
    show ?thesis
    proof (cases "ds = []")
      case True
      then have l: "layout d p = [a] @ exp_str (p - 1)" using exp d by (auto simp: layout_def)
      show ?thesis
        unfolding l using assms(2) d True t by (subst read_decimal_plain) (simp_all add: read_exp_str decv_def)
    next
      case False
      then have l: "layout d p = [a] @ CHR ''.'' # ds @ exp_str (p - 1)" using exp d by (auto simp: layout_def)
      show ?thesis
        unfolding l using assms(2) d t by (subst read_decimal_dot) (auto simp: read_exp_str decv_def diff_diff_eq)
    qed
  qed
qed

text \<open>The characters a printed float consists of.\<close>

definition repr_char :: "char \<Rightarrow> bool" where
  "repr_char c \<longleftrightarrow> is_digit c \<or> c \<in> set ''.e+-naif''"

lemma is_digit_code: "is_digit c \<longleftrightarrow> 48 \<le> (of_char c :: nat) \<and> (of_char c :: nat) \<le> 57"
  by (simp add: is_digit_def digit_val_def Let_def)

lemma repr_char_plain: "repr_char c \<Longrightarrow> \<not> is_ws c \<and> c \<noteq> CHR ''_'' \<and> c \<noteq> CHR ''|''"
  by (auto simp: repr_char_def is_digit_code is_ws_def Let_def)

lemma repr_char_digits: "list_all is_digit d \<Longrightarrow> list_all repr_char d"
  by (auto simp: repr_char_def list_all_iff)

lemma repr_char_signs [simp]:
  "repr_char CHR ''.''" "repr_char CHR ''e''" "repr_char CHR ''+''" "repr_char CHR ''-''" "repr_char CHR ''0''"
  "repr_char CHR ''n''" "repr_char CHR ''a''" "repr_char CHR ''i''" "repr_char CHR ''f''"
  by (simp_all add: repr_char_def digit_zero)

lemma repr_char_exp: "list_all repr_char (exp_str k)"
  using repr_char_digits [OF nat_str_digits [of "nat \<bar>k\<bar>"]] by (simp add: exp_str_def Let_def)

lemma repr_char_layout: "list_all is_digit d \<Longrightarrow> list_all repr_char (layout d p)"
proof -
  assume "list_all is_digit d"
  then have d: "list_all repr_char d" by (rule repr_char_digits)
  have z: "list_all repr_char (replicate k CHR ''0'')" for k by (simp add: list_all_iff)
  have td: "list_all repr_char (take k d)" "list_all repr_char (drop k d)" for k
    using d by (auto simp: list_all_iff dest: in_set_takeD in_set_dropD)
  show ?thesis using d z td repr_char_exp by (simp add: layout_def)
qed

lemma hd_layout: assumes "d \<noteq> []" "list_all is_digit d" shows "layout d p \<noteq> [] \<and> is_digit (hd (layout d p))"
proof -
  obtain a ds where d: "d = a # ds" using assms(1) by (cases d) simp_all
  show ?thesis using assms(2) by (simp add: d layout_def digit_zero take_Cons')
qed

definition float_wf :: "pyfloat \<Rightarrow> bool" where
  "float_wf f \<longleftrightarrow> (case f of PFin x \<Rightarrow> is_double x | _ \<Rightarrow> True)"

lemma float_wf_simps [simp]:
  "float_wf PNan" "float_wf (PInf s)" "float_wf PNegZero" "float_wf (PFin x) \<longleftrightarrow> is_double x"
  by (simp_all add: float_wf_def)

lemma is_double_abs: "is_double x \<Longrightarrow> is_double \<bar>x\<bar>"
  by (simp add: is_double_def)

lemma float_repr_chars: "float_wf f \<Longrightarrow> list_all repr_char (float_repr f)"
proof (cases f)
  case (PFin x)
  assume "float_wf f"
  moreover obtain d p where dp: "shortest \<bar>x\<bar> = (d, p)" by (cases "shortest \<bar>x\<bar>")
  ultimately show ?thesis
    using PFin shortest_facts(2) [OF is_double_abs _ dp] repr_char_layout [of d p] by auto
qed auto

lemma underscores_ok_free: "CHR ''_'' \<notin> set s \<Longrightarrow> underscores_ok b s"
  by (induction s arbitrary: b) auto

lemma py_float_plain:
  assumes "list_all repr_char s" "s \<noteq> []"
  shows "py_float s =
    (let neg = (hd s = CHR ''-''); r = (if hd s = CHR ''-'' \<or> hd s = CHR ''+'' then tl s else s); l = to_lower r
     in if l = ''inf'' \<or> l = ''infinity'' then Inr (PInf neg)
        else if l = ''nan'' then Inr PNan
        else (case read_decimal r of
            None \<Rightarrow> Inl (ValueError ''could not convert string to float'')
          | Some v \<Rightarrow> Inr (signed_rnd neg v)))"
proof -
  have c: "c \<in> set s \<Longrightarrow> \<not> is_ws c \<and> c \<noteq> CHR ''_''" for c
    using assms(1) repr_char_plain by (auto simp: list_all_iff)
  then have "py_strip s = s" "filter (\<lambda>c. c \<noteq> CHR ''_'') s = s" "underscores_ok False s"
    by (auto intro!: py_strip_id underscores_ok_free filter_True)
  then show ?thesis using assms(2) by (auto simp: py_float_def Let_def split: option.splits)
qed

lemma digits_not_word:
  assumes "r \<noteq> []" "is_digit (hd r)"
  shows "hd r \<noteq> CHR ''-'' \<and> hd r \<noteq> CHR ''+'' \<and> to_lower r \<noteq> ''inf'' \<and> to_lower r \<noteq> ''infinity'' \<and> to_lower r \<noteq> ''nan''"
proof -
  obtain c cs where r: "r = c # cs" using assms(1) by (cases r) simp_all
  then have c: "48 \<le> (of_char c :: nat)" "(of_char c :: nat) \<le> 57" using assms(2) by (simp_all add: is_digit_code)
  then have "c \<noteq> CHR ''-''" "c \<noteq> CHR ''+''" "c \<noteq> CHR ''i''" "c \<noteq> CHR ''n''" by auto
  with c show ?thesis by (simp add: r to_lower_def Let_def)
qed

lemma decv_nonneg: "0 \<le> decv d p"
  by (simp add: decv_def less_imp_le)

lemma signed_rnd_double:
  assumes "is_double x" "x \<noteq> 0" "rmag v = \<bar>x\<bar>" "0 \<le> v"
  shows "signed_rnd (x < 0) v = PFin x"
proof -
  have "v \<noteq> 0" using assms(2,3) by auto
  then show ?thesis using assms by (auto simp: signed_rnd_def rnd_def Let_def is_double_def)
qed

lemma py_float_words:
  "py_float ''nan'' = Inr PNan" "py_float ''inf'' = Inr (PInf False)" "py_float ''-inf'' = Inr (PInf True)"
  "py_float ''-0.0'' = Inr PNegZero" "py_float ''0.0'' = Inr (PFin 0)"
proof -
  have z: "read_decimal ''0.0'' = Some 0" by code_simp
  show "py_float ''nan'' = Inr PNan" "py_float ''inf'' = Inr (PInf False)" "py_float ''-inf'' = Inr (PInf True)"
    "py_float ''-0.0'' = Inr PNegZero" "py_float ''0.0'' = Inr (PFin 0)"
    by (simp_all add: py_float_plain to_lower_def z signed_rnd_def Let_def)
qed

lemma py_float_float_repr:
  assumes "float_wf f" shows "py_float (float_repr f) = Inr f"
proof (cases f)
  case (PFin x)
  show ?thesis
  proof (cases "x = 0")
    case True
    then show ?thesis using PFin by (simp add: py_float_words)
  next
    case False
    obtain d p where dp: "shortest \<bar>x\<bar> = (d, p)" by (cases "shortest \<bar>x\<bar>")
    have x: "is_double x" "is_double \<bar>x\<bar>" "0 < \<bar>x\<bar>" using assms PFin False is_double_abs by auto
    note f = shortest_facts [OF x(2,3) dp]
    note h = hd_layout [OF f(1,2), of p]
    have s: "float_repr f = (if x < 0 then ''-'' else []) @ layout d p" using PFin False dp by simp
    have "py_float (float_repr f) = Inr (signed_rnd (x < 0) (decv d p))"
      using h digits_not_word [of "layout d p"] float_repr_chars [OF assms] read_decimal_layout [OF f(1,2), of p]
      unfolding s by (subst py_float_plain) (auto simp: Let_def)
    then show ?thesis using signed_rnd_double [OF x(1) False f(3) decv_nonneg] PFin by simp
  qed
qed (simp_all add: py_float_words)

interpretation floatc: codec float_repr py_float float_wf
  by unfold_locales (rule py_float_float_repr)

end
