(* ===== verification/Pyconv.thy ===== *)
theory Pyconv
  imports Json Pyrepr
begin

text \<open>
  Python's conversions between numbers, text and decoded JSON values, as \<^verbatim>\<open>signed_order_intent.py\<close>
  uses them: \<^verbatim>\<open>str(x)\<close>, \<^verbatim>\<open>int(x)\<close>, \<^verbatim>\<open>float(x)\<close> on everything \<^verbatim>\<open>json.loads\<close> returns. A number in
  the program is an \<^verbatim>\<open>int\<close> or a \<^verbatim>\<open>float\<close> whatever its annotation says; the two print differently,
  and \<open>num_str_eq\<close> shows that the printed text determines the number and its type. The limit of
  the interpreter on the digits of a converted integer is not modelled.
\<close>

section \<open>Numbers\<close>

datatype pynum = PyInt int | PyFloat pyfloat

fun num_str :: "pynum \<Rightarrow> string" where
  "num_str (PyInt i) = int_str i"
| "num_str (PyFloat f) = float_repr f"

fun num_to_float :: "pynum \<Rightarrow> pyfloat res" where
  "num_to_float (PyInt i) = float_of_int i"
| "num_to_float (PyFloat f) = Inr f"

text \<open>\<open>x \<le> 0\<close>.\<close>

fun num_nonpos :: "pynum \<Rightarrow> bool" where
  "num_nonpos (PyInt i) = (i \<le> 0)"
| "num_nonpos (PyFloat f) = fle_int f 0"

text \<open>\<^verbatim>\<open>int(f)\<close>: truncation towards zero.\<close>

fun int_of_float :: "pyfloat \<Rightarrow> int res" where
  "int_of_float PNan = Inl (ValueError ''cannot convert float NaN to integer'')"
| "int_of_float (PInf s) = Inl OverflowError"
| "int_of_float PNegZero = Inr 0"
| "int_of_float (PFin x) = Inr (if x < 0 then \<lceil>x\<rceil> else \<lfloor>x\<rfloor>)"

fun fneg :: "pyfloat \<Rightarrow> pyfloat" where
  "fneg PNan = PNan"
| "fneg (PInf s) = PInf (\<not> s)"
| "fneg PNegZero = PFin 0"
| "fneg (PFin x) = (if x = 0 then PNegZero else PFin (- x))"

definition fadd :: "pyfloat \<Rightarrow> pyfloat \<Rightarrow> pyfloat" where
  "fadd x y = fsub x (fneg y)"

section \<open>\<^verbatim>\<open>repr\<close> of a decoded JSON value\<close>

text \<open>
  \<^verbatim>\<open>repr\<close> of a string: single quotes unless the text has a single quote and no double quote;
  backslash, the quote in use and the characters that are not printable are escaped.
\<close>

definition printable :: "char \<Rightarrow> bool" where
  "printable c \<longleftrightarrow> (let n = (of_char c :: nat) in 32 \<le> n \<and> n < 127 \<or> 161 \<le> n \<and> n \<noteq> 173)"

definition repr_escape :: "char \<Rightarrow> char \<Rightarrow> string" where
  "repr_escape q c =
     (let n = (of_char c :: nat) in
      if c = q \<or> n = 92 then [char_of (92 :: nat), c]
      else if n = 9 then [char_of (92 :: nat), CHR ''t'']
      else if n = 10 then [char_of (92 :: nat), CHR ''n'']
      else if n = 13 then [char_of (92 :: nat), CHR ''r'']
      else if printable c then [c]
      else [char_of (92 :: nat), CHR ''x'', hex_digits ! (n div 16), hex_digits ! (n mod 16)])"

definition str_repr :: "string \<Rightarrow> string" where
  "str_repr s =
     (let sq = char_of (39 :: nat); dq = char_of (34 :: nat);
          q = (if sq \<in> set s \<and> dq \<notin> set s then dq else sq)
      in [q] @ concat (map (repr_escape q) s) @ [q])"

text \<open>A dictionary keeps the place of a key's first occurrence and the value of its last.\<close>

definition dict_items :: "(string \<times> 'v) list \<Rightarrow> (string \<times> 'v) list" where
  "dict_items kvs = map (\<lambda>k. (k, the (map_of (rev kvs) k))) (rev (remdups (rev (map fst kvs))))"

fun json_repr :: "json \<Rightarrow> string" where
  "json_repr JNull = ''None''"
| "json_repr (JBool b) = (if b then ''True'' else ''False'')"
| "json_repr (JInt i) = int_str i"
| "json_repr (JFloat f) = float_repr f"
| "json_repr (JStr s) = str_repr s"
| "json_repr (JList xs) = ''['' @ join '', '' (map json_repr xs) @ '']''"
| "json_repr (JObj kvs) =
     ''{'' @ join '', '' (map (\<lambda>(k, r). str_repr k @ '': '' @ r)
       (dict_items (map (\<lambda>(k, v). (k, json_repr v)) kvs))) @ ''}''"

section \<open>\<^verbatim>\<open>str\<close>, \<^verbatim>\<open>int\<close> and \<^verbatim>\<open>float\<close> of a decoded JSON value\<close>

fun json_str :: "json \<Rightarrow> string" where
  "json_str (JStr s) = s"
| "json_str j = json_repr j"

fun json_int :: "json \<Rightarrow> int res" where
  "json_int (JInt i) = Inr i"
| "json_int (JBool b) = Inr (if b then 1 else 0)"
| "json_int (JFloat f) = int_of_float f"
| "json_int (JStr s) = py_int s"
| "json_int j = Inl TypeError"

fun json_float :: "json \<Rightarrow> pyfloat res" where
  "json_float (JInt i) = float_of_int i"
| "json_float (JBool b) = Inr (PFin (if b then 1 else 0))"
| "json_float (JFloat f) = Inr f"
| "json_float (JStr s) = py_float s"
| "json_float j = Inl TypeError"

fun json_num :: "pynum \<Rightarrow> json" where
  "json_num (PyInt i) = JInt i"
| "json_num (PyFloat f) = JFloat f"

section \<open>Results of rounding are floats\<close>

lemma rnd_exact: "rmag \<bar>d\<bar> = \<bar>d\<bar> \<Longrightarrow> \<bar>d\<bar> < pow2 1024 \<Longrightarrow> rnd d = PFin d"
  by (auto simp: rnd_def Let_def not_le)

lemma is_double_int: assumes "\<bar>k\<bar> \<le> 2 ^ 53" shows "is_double (of_int k)"
proof -
  have "\<bar>of_int k :: rat\<bar> \<le> of_int (2 ^ 53)" using assms by (metis of_int_abs of_int_le_iff)
  then have le: "\<bar>of_int k :: rat\<bar> \<le> pow2 53" by (simp add: pow2_def)
  then have "rmag \<bar>of_int k\<bar> = \<bar>of_int k\<bar>" by (intro rmag_repr [of _ "\<bar>k\<bar>" 0]) simp_all
  moreover have "pow2 53 < pow2 1024" by simp
  ultimately show ?thesis using le by (simp add: is_double_def del: pow2_less)
qed

lemma rnd_double: "is_double x \<Longrightarrow> rnd x = PFin x"
  by (simp add: is_double_def rnd_exact)

lemma float_of_int_exact: "\<bar>k\<bar> \<le> 2 ^ 53 \<Longrightarrow> float_of_int k = Inr (PFin (of_int k))"
  by (simp add: float_of_int_def rnd_double is_double_int)

lemma rmag_idem: assumes "0 \<le> a" shows "rmag (rmag a) = rmag a"
proof (cases "a = 0")
  case False
  with assms have pos: "0 < a" by linarith
  define e where "e = max (ilog2 a) (- 1022) - 52"
  have "a \<le> pow2 (e + 53)"
    using ilog2_bounds(2) [OF pos] pow2_le [of "ilog2 a + 1" "e + 53"] by (simp add: e_def del: pow2_le)
  then have "rmag a \<le> pow2 (e + 53)" using pos by (intro rmag_le_pow2) (simp_all add: e_def)
  moreover have "rmag a = of_int (rhe (a / ulp a)) * pow2 e" using False by (simp add: rmag_def ulp_def e_def)
  moreover have "- 1074 \<le> e" by (simp add: e_def)
  ultimately show ?thesis using rmag_nonneg [OF assms] by (metis rmag_repr)
qed simp

lemma rnd_wf: "float_wf (rnd x)"
  using rmag_idem [of x] rmag_idem [of "- x"] rmag_nonneg [of "\<bar>x\<bar>"] by (auto simp: rnd_def Let_def is_double_def)

lemma float_of_int_wf: "float_of_int k = Inr f \<Longrightarrow> float_wf f"
  using rnd_wf [of "of_int k"] by (cases "rnd (of_int k)") (auto simp: float_of_int_def)

lemma float_of_int_overflow: assumes "2 ^ 1024 \<le> k" shows "float_of_int k = Inl OverflowError"
proof -
  have "of_int (2 ^ 1024) \<le> (of_int k :: rat)" using assms by (simp only: of_int_le_iff)
  then have k: "pow2 1024 \<le> (of_int k :: rat)" by (simp add: pow2_def)
  then have "pow2 1024 \<le> rmag \<bar>of_int k\<bar>" using pow2_pos [of 1024] by (intro rmag_ge_pow2) linarith+
  then show ?thesis by (simp add: float_of_int_def rnd_def Let_def)
qed

section \<open>Printed numbers determine the number\<close>

definition num_wf :: "pynum \<Rightarrow> bool" where
  "num_wf n \<longleftrightarrow> (case n of PyInt i \<Rightarrow> True | PyFloat f \<Rightarrow> float_wf f)"

lemma num_to_float_wf: "num_wf n \<Longrightarrow> num_to_float n = Inr f \<Longrightarrow> float_wf f"
  by (cases n) (auto simp: num_wf_def float_of_int_wf)

lemma num_wf_simps [simp]: "num_wf (PyInt i)" "num_wf (PyFloat f) \<longleftrightarrow> float_wf f"
  by (simp_all add: num_wf_def)

lemma int_str_digits: "c \<in> set (int_str i) \<Longrightarrow> is_digit c \<or> c = CHR ''-''"
  using nat_str_digits by (auto simp: int_str_def list_all_iff split: if_splits)

text \<open>Every printed float has a character that no printed integer has.\<close>

lemma float_repr_mark: "set (float_repr f) \<inter> set ''.en'' \<noteq> {}"
proof (cases f)
  case (PFin x)
  obtain d p where dp: "shortest \<bar>x\<bar> = (d, p)" by (cases "shortest \<bar>x\<bar>")
  have "CHR ''e'' \<in> set (exp_str k)" for k by (simp add: exp_str_def Let_def)
  then have "set (layout d p) \<inter> set ''.en'' \<noteq> {}" by (auto simp: layout_def)
  then show ?thesis using PFin dp by auto
qed auto

lemma int_str_unmarked: "set (int_str i) \<inter> set ''.en'' = {}"
proof -
  have "\<not> is_digit c" if "c \<in> set ''.en''" for c using that by (auto simp: is_digit_code)
  then show ?thesis using int_str_digits [of _ i] by fastforce
qed

lemma int_str_not_float: "int_str i \<noteq> float_repr f"
proof
  assume "int_str i = float_repr f"
  then have "set (int_str i) \<inter> set ''.en'' = set (float_repr f) \<inter> set ''.en''" by simp
  then show False using float_repr_mark [of f] int_str_unmarked [of i] by simp
qed

lemma num_str_eq: "num_wf m \<Longrightarrow> num_wf n \<Longrightarrow> num_str m = num_str n \<longleftrightarrow> m = n"
  using int_str_not_float by (cases m; cases n) (simp_all add: intc.enc_eq_iff floatc.enc_eq_iff not_sym)

lemma num_str_no_pipe: "num_wf n \<Longrightarrow> CHR ''|'' \<notin> set (num_str n)"
proof (cases n)
  case (PyInt i)
  have "\<not> is_digit CHR ''|''" by (simp add: is_digit_code)
  then show ?thesis using int_str_digits [of "CHR ''|''" i] PyInt by auto
next
  case (PyFloat f)
  assume "num_wf n"
  then have "list_all repr_char (float_repr f)" using PyFloat float_repr_chars by simp
  then show ?thesis using PyFloat repr_char_plain by (auto simp: list_all_iff)
qed

lemma int_str_no_pipe: "CHR ''|'' \<notin> set (int_str i)"
  using num_str_no_pipe [of "PyInt i"] by simp

lemma hex_encode_chars: "ch \<in> set (hex_encode bs) \<Longrightarrow> ch \<in> set hex_digits"
proof -
  have "unat (b :: byte) div 16 < length hex_digits" "unat b mod 16 < length hex_digits" for b
    using unsigned_less [of b, where ?'a = nat] by (simp_all add: hex_digits_def less_mult_imp_div_less)
  then have "hex_digits ! (unat b div 16) \<in> set hex_digits" "hex_digits ! (unat b mod 16) \<in> set hex_digits" for b :: byte
    by (metis nth_mem)+
  then show "ch \<in> set (hex_encode bs) \<Longrightarrow> ch \<in> set hex_digits" unfolding hex_encode_def by auto
qed

lemma hex_encode_no_pipe: "CHR ''|'' \<notin> set (hex_encode bs)"
  using hex_encode_chars [of "CHR ''|''" bs] by (auto simp: hex_digits_def)

lemma hex_encode_strip: "py_strip (hex_encode bs) = hex_encode bs"
proof (rule py_strip_id)
  fix ch assume "ch \<in> set (hex_encode bs)"
  then have "ch \<in> set hex_digits" by (rule hex_encode_chars)
  then show "\<not> is_ws ch" by (auto simp: hex_digits_def is_ws_def)
qed

end
