(* ===== verification/Json_Text.thy ===== *)
theory Json_Text
  imports Pyconv
begin

text \<open>
  \<^verbatim>\<open>json.dumps\<close> and \<^verbatim>\<open>json.loads\<close> with their default settings: the printer with ASCII escapes,
  \<^verbatim>\<open>", "\<close> and \<^verbatim>\<open>": "\<close> as separators and \<^verbatim>\<open>NaN\<close>, \<^verbatim>\<open>Infinity\<close> for the special floats; the parser as a
  recursive descent over the text with fuel, which \<open>loads\<close> sets to twice the length of the text.
  \<open>parse_fuel\<close> shows that this never runs out, and the last section that parsing undoes printing.
  An escape for a code point above 255 is outside the model and gives an error of its own.
\<close>

section \<open>Printing\<close>

definition esc_char :: "char \<Rightarrow> string" where
  "esc_char c =
     (let n = (of_char c :: nat); b = CHR 0x5C in
      if n = 34 \<or> n = 92 then [b, c]
      else if n = 8 then [b, CHR ''b'']
      else if n = 9 then [b, CHR ''t'']
      else if n = 10 then [b, CHR ''n'']
      else if n = 12 then [b, CHR ''f'']
      else if n = 13 then [b, CHR ''r'']
      else if 32 \<le> n \<and> n < 127 then [c]
      else [b, CHR ''u'', CHR ''0'', CHR ''0'', hex_digits ! (n div 16), hex_digits ! (n mod 16)])"

definition dumps_str :: "string \<Rightarrow> string" where
  "dumps_str s = CHR 0x22 # concat (map esc_char s) @ [CHR 0x22]"

fun dumps_float :: "pyfloat \<Rightarrow> string" where
  "dumps_float PNan = ''NaN''"
| "dumps_float (PInf s) = (if s then ''-Infinity'' else ''Infinity'')"
| "dumps_float f = float_repr f"

fun dumps :: "json \<Rightarrow> string" where
  "dumps JNull = ''null''"
| "dumps (JBool b) = (if b then ''true'' else ''false'')"
| "dumps (JInt i) = int_str i"
| "dumps (JFloat f) = dumps_float f"
| "dumps (JStr s) = dumps_str s"
| "dumps (JList xs) = ''['' @ join '', '' (map dumps xs) @ '']''"
| "dumps (JObj kvs) =
     ''{'' @ join '', '' (map (\<lambda>(k, r). dumps_str k @ '': '' @ r)
       (dict_items (map (\<lambda>(k, v). (k, dumps v)) kvs))) @ ''}''"

section \<open>Parsing\<close>

definition json_ws :: "char \<Rightarrow> bool" where
  "json_ws c = (let n = (of_char c :: nat) in n = 32 \<or> n = 9 \<or> n = 10 \<or> n = 13)"

abbreviation skip_ws :: "string \<Rightarrow> string" where
  "skip_ws s \<equiv> dropWhile json_ws s"

definition cons_fst :: "'a \<Rightarrow> ('a list \<times> string) res \<Rightarrow> ('a list \<times> string) res" where
  "cons_fst x r = bind_res r (\<lambda>(xs, rest). Inr (x # xs, rest))"

definition hex4 :: "char \<Rightarrow> char \<Rightarrow> char \<Rightarrow> char \<Rightarrow> nat option" where
  "hex4 a b c d =
     (case (hex_val a, hex_val b, hex_val c, hex_val d) of
        (Some p, Some q, Some r, Some s) \<Rightarrow> Some (((p * 16 + q) * 16 + r) * 16 + s)
      | _ \<Rightarrow> None)"

definition unescape :: "char \<Rightarrow> char option" where
  "unescape c =
     (if c = CHR 0x22 \<or> c = CHR 0x5C \<or> c = CHR ''/'' then Some c
      else if c = CHR ''b'' then Some (char_of (8 :: nat))
      else if c = CHR ''f'' then Some (char_of (12 :: nat))
      else if c = CHR ''n'' then Some (char_of (10 :: nat))
      else if c = CHR ''r'' then Some (char_of (13 :: nat))
      else if c = CHR ''t'' then Some (char_of (9 :: nat))
      else None)"

text \<open>The character after a backslash, and what follows.\<close>

definition scan_esc :: "string \<Rightarrow> (char \<times> string) res" where
  "scan_esc s =
     (case s of
        [] \<Rightarrow> Inl JSONDecodeError
      | e # ds \<Rightarrow>
         (if e = CHR ''u'' then
            (case ds of
               a # b # x # y # es \<Rightarrow>
                 (case hex4 a b x y of
                    None \<Rightarrow> Inl JSONDecodeError
                  | Some k \<Rightarrow> if k < 256 then Inr (char_of k, es) else Inl (OtherError ''code point above 255''))
             | _ \<Rightarrow> Inl JSONDecodeError)
          else (case unescape e of None \<Rightarrow> Inl JSONDecodeError | Some u \<Rightarrow> Inr (u, ds))))"

lemma scan_esc_shorter: "scan_esc s = Inr (u, r) \<Longrightarrow> length r < length s"
  by (auto simp: scan_esc_def split: list.splits option.splits if_splits)

text \<open>The text of a string after its opening quote, and what follows the closing one.\<close>

function scan_str :: "string \<Rightarrow> (string \<times> string) res" where
  "scan_str [] = Inl JSONDecodeError"
| "scan_str (c # cs) =
     (if c = CHR 0x22 then Inr ([], cs)
      else if c = CHR 0x5C then
        (case scan_esc cs of Inl e \<Rightarrow> Inl e | Inr (u, r) \<Rightarrow> cons_fst u (scan_str r))
      else if (of_char c :: nat) < 32 then Inl JSONDecodeError
      else cons_fst c (scan_str cs))"
  by pat_completeness auto
termination
  by (relation "measure length") (auto dest!: scan_esc_shorter intro: less_SucI)

text \<open>A number: sign, integer part without leading zeros, fraction, exponent; the longest match.\<close>

definition scan_frac :: "string \<Rightarrow> string" where
  "scan_frac r =
     (if r \<noteq> [] \<and> hd r = CHR ''.'' \<and> takeWhile is_digit (tl r) \<noteq> [] then CHR ''.'' # takeWhile is_digit (tl r) else [])"

definition scan_exp :: "string \<Rightarrow> string" where
  "scan_exp r =
     (if r \<noteq> [] \<and> (hd r = CHR ''e'' \<or> hd r = CHR ''E'') then
        (let sign = (if tl r \<noteq> [] \<and> (hd (tl r) = CHR ''-'' \<or> hd (tl r) = CHR ''+'') then [hd (tl r)] else []);
             ds = takeWhile is_digit (drop (length sign) (tl r))
         in if ds = [] then [] else hd r # sign @ ds)
      else [])"

text \<open>Sign, integer part, fraction and exponent at the start of \<open>s\<close>.\<close>

definition number_parts :: "string \<Rightarrow> string \<times> string \<times> string \<times> string" where
  "number_parts s =
     (let sign = (if s \<noteq> [] \<and> hd s = CHR ''-'' then ''-'' else []);
          r0 = drop (length sign) s;
          ip = (if r0 \<noteq> [] \<and> hd r0 = CHR ''0'' then ''0'' else takeWhile is_digit r0);
          r1 = drop (length ip) r0;
          fp = scan_frac r1
      in (sign, ip, fp, scan_exp (drop (length fp) r1)))"

definition scan_number :: "string \<Rightarrow> (json \<times> string) res" where
  "scan_number s =
     (case number_parts s of (sign, ip, fp, ep) \<Rightarrow>
        (let text = sign @ ip @ fp @ ep; rest = drop (length text) s in
         if ip = [] then Inl JSONDecodeError
         else if fp = [] \<and> ep = [] then bind_res (py_int text) (\<lambda>i. Inr (JInt i, rest))
         else bind_res (py_float text) (\<lambda>f. Inr (JFloat f, rest))))"

text \<open>If \<open>s\<close> starts with \<open>w\<close>, the value \<open>j\<close> and the rest; otherwise \<open>k\<close>.\<close>

definition scan_word :: "string \<Rightarrow> json \<Rightarrow> string \<Rightarrow> (json \<times> string) res \<Rightarrow> (json \<times> string) res" where
  "scan_word w j s k = (if take (length w) s = w then Inr (j, drop (length w) s) else k)"

definition scan_atom :: "string \<Rightarrow> (json \<times> string) res" where
  "scan_atom s =
     scan_word ''null'' JNull s (scan_word ''true'' (JBool True) s (scan_word ''false'' (JBool False) s
       (scan_word ''NaN'' (JFloat PNan) s (scan_word ''Infinity'' (JFloat (PInf False)) s
         (scan_word ''-Infinity'' (JFloat (PInf True)) s (scan_number s))))))"

definition no_fuel :: exn where
  "no_fuel = OtherError ''no fuel''"

fun pvalue :: "nat \<Rightarrow> string \<Rightarrow> (json \<times> string) res"
  and pelems :: "nat \<Rightarrow> string \<Rightarrow> (json list \<times> string) res"
  and pmembers :: "nat \<Rightarrow> string \<Rightarrow> ((string \<times> json) list \<times> string) res" where
  "pvalue 0 s = Inl no_fuel"
| "pvalue (Suc n) s =
     (case s of
        [] \<Rightarrow> Inl JSONDecodeError
      | c # cs \<Rightarrow>
         (if c = CHR 0x22 then bind_res (scan_str cs) (\<lambda>(t, rest). Inr (JStr t, rest))
          else if c = CHR ''['' then
            (let r = skip_ws cs in
             if r \<noteq> [] \<and> hd r = CHR '']'' then Inr (JList [], tl r)
             else bind_res (pelems n r) (\<lambda>(xs, rest). Inr (JList xs, rest)))
          else if c = CHR ''{'' then
            (let r = skip_ws cs in
             if r \<noteq> [] \<and> hd r = CHR ''}'' then Inr (JObj [], tl r)
             else bind_res (pmembers n r) (\<lambda>(kvs, rest). Inr (JObj kvs, rest)))
          else scan_atom s))"
| "pelems 0 s = Inl no_fuel"
| "pelems (Suc n) s =
     bind_res (pvalue n s) (\<lambda>(x, r).
       (case skip_ws r of
          [] \<Rightarrow> Inl JSONDecodeError
        | c # cs \<Rightarrow>
           (if c = CHR '']'' then Inr ([x], cs)
            else if c = CHR '','' then cons_fst x (pelems n (skip_ws cs))
            else Inl JSONDecodeError)))"
| "pmembers 0 s = Inl no_fuel"
| "pmembers (Suc n) s =
     (if s = [] \<or> hd s \<noteq> CHR 0x22 then Inl JSONDecodeError
      else bind_res (scan_str (tl s)) (\<lambda>(k, r).
        (case skip_ws r of
           [] \<Rightarrow> Inl JSONDecodeError
         | c # cs \<Rightarrow>
            (if c \<noteq> CHR '':'' then Inl JSONDecodeError
             else bind_res (pvalue n (skip_ws cs)) (\<lambda>(v, r').
               (case skip_ws r' of
                  [] \<Rightarrow> Inl JSONDecodeError
                | d # ds \<Rightarrow>
                   (if d = CHR ''}'' then Inr ([(k, v)], ds)
                    else if d = CHR '','' then cons_fst (k, v) (pmembers n (skip_ws ds))
                    else Inl JSONDecodeError)))))))"

definition loads :: "string \<Rightarrow> json res" where
  "loads s =
     bind_res (pvalue (2 * length s + 1) (skip_ws s)) (\<lambda>(j, rest).
       if skip_ws rest = [] then Inr j else Inl JSONDecodeError)"

section \<open>The fuel is enough\<close>

lemma cons_fst_Inr: "cons_fst x r = Inr (xs, rest) \<longleftrightarrow> (\<exists>ys. r = Inr (ys, rest) \<and> xs = x # ys)"
  by (auto simp: cons_fst_def bind_res_Inr)

lemma cons_fst_Inl: "cons_fst x r = Inl e \<longleftrightarrow> r = Inl e"
  by (auto simp: cons_fst_def bind_res_Inl)

lemma scan_str_shorter: "scan_str s = Inr (t, r) \<Longrightarrow> length r < length s"
proof (induction s arbitrary: t r rule: scan_str.induct)
  case (2 c cs)
  then show ?case
    by (auto simp: cons_fst_Inr less_SucI dest!: scan_esc_shorter split: if_splits sum.splits) (meson less_SucI less_trans)
qed simp

lemma scan_esc_error: "scan_esc s \<noteq> Inl no_fuel"
  by (auto simp: scan_esc_def no_fuel_def split: list.splits option.splits)

lemma scan_str_error: "scan_str s \<noteq> Inl no_fuel"
proof (induction s rule: scan_str.induct)
  case (2 c cs)
  show ?case
  proof (cases "scan_esc cs")
    case (Inl e)
    then show ?thesis using 2 scan_esc_error [of cs] by (auto simp: cons_fst_Inl) (simp_all add: no_fuel_def)
  next
    case (Inr p)
    then show ?thesis using 2 by (cases p) (auto simp: cons_fst_Inl, simp_all add: no_fuel_def)
  qed
qed (simp add: no_fuel_def)

lemma py_int_error: "py_int s = Inl e \<Longrightarrow> e \<noteq> no_fuel"
  by (auto simp: py_int_def no_fuel_def res_of_option_def split: list.splits option.splits if_splits)

lemma py_float_error: "py_float s = Inl e \<Longrightarrow> e \<noteq> no_fuel"
  by (auto simp: py_float_def no_fuel_def Let_def split: option.splits if_splits)

lemma number_parts_nonempty: "number_parts s = (sign, ip, fp, ep) \<Longrightarrow> ip \<noteq> [] \<Longrightarrow> s \<noteq> []"
  by (auto simp: number_parts_def Let_def)

lemma scan_number_shorter: "scan_number s = Inr (j, r) \<Longrightarrow> length r < length s"
  using number_parts_nonempty by (fastforce simp: scan_number_def Let_def bind_res_Inr split: if_splits prod.splits)

lemma scan_number_error: "scan_number s \<noteq> Inl no_fuel"
  using py_int_error py_float_error
  by (auto simp: scan_number_def Let_def bind_res_Inl no_fuel_def split: prod.splits)

lemma scan_word_shorter:
  "scan_word w j s k = Inr (j', r) \<Longrightarrow> w \<noteq> [] \<Longrightarrow> (k = Inr (j', r) \<Longrightarrow> length r < length s) \<Longrightarrow> length r < length s"
  by (cases s) (auto simp: scan_word_def split: if_splits)

lemma scan_atom_shorter: "scan_atom s = Inr (j, r) \<Longrightarrow> length r < length s"
  unfolding scan_atom_def by (elim scan_word_shorter scan_number_shorter) simp_all

lemma scan_atom_error: "scan_atom s \<noteq> Inl no_fuel"
  using scan_number_error by (simp add: scan_atom_def scan_word_def)

lemma skip_ws_shorter: "length (skip_ws s) \<le> length s"
  by (rule length_dropWhile_le)

lemma skip_ws_Cons: "skip_ws s = c # cs \<Longrightarrow> length cs < length s"
  using length_dropWhile_le [of json_ws s] by simp

text \<open>What the loops over elements and members do after a value.\<close>

lemma pelems_Inr:
  assumes "pelems (Suc n) s = Inr (xs, r)"
  obtains x r1 c cs where "pvalue n s = Inr (x, r1)" "skip_ws r1 = c # cs"
    "r = cs \<and> xs = [x] \<or> (\<exists>ys. pelems n (skip_ws cs) = Inr (ys, r) \<and> xs = x # ys)"
proof -
  obtain x r1 where x: "pvalue n s = Inr (x, r1)" using assms by (auto simp: bind_res_Inr)
  moreover obtain c cs where c: "skip_ws r1 = c # cs" using assms x by (cases "skip_ws r1") simp_all
  ultimately show ?thesis using assms by (intro that [OF x c]) (simp add: cons_fst_Inr split: if_splits)
qed

lemma pelems_no_fuel:
  assumes "pelems (Suc n) s = Inl no_fuel" "pvalue n s \<noteq> Inl no_fuel"
  obtains x r1 c cs where "pvalue n s = Inr (x, r1)" "skip_ws r1 = c # cs" "pelems n (skip_ws cs) = Inl no_fuel"
proof -
  have nf: "JSONDecodeError \<noteq> no_fuel" by (simp add: no_fuel_def)
  obtain x r1 where x: "pvalue n s = Inr (x, r1)" using assms by (cases "pvalue n s") auto
  moreover obtain c cs where c: "skip_ws r1 = c # cs" using assms x nf by (cases "skip_ws r1") simp_all
  ultimately show ?thesis using assms nf by (intro that [OF x c]) (simp add: cons_fst_Inl split: if_splits)
qed

lemma pmembers_Inr:
  assumes "pmembers (Suc n) s = Inr (kvs, r)"
  obtains k r1 c cs v r2 d ds where "s \<noteq> []" "scan_str (tl s) = Inr (k, r1)" "skip_ws r1 = c # cs"
    "pvalue n (skip_ws cs) = Inr (v, r2)" "skip_ws r2 = d # ds"
    "r = ds \<and> kvs = [(k, v)] \<or> (\<exists>ys. pmembers n (skip_ws ds) = Inr (ys, r) \<and> kvs = (k, v) # ys)"
proof -
  have s: "s \<noteq> []" using assms by auto
  obtain k r1 where k: "scan_str (tl s) = Inr (k, r1)" using assms by (auto simp: bind_res_Inr split: if_splits)
  obtain c cs where c: "skip_ws r1 = c # cs" using assms k by (cases "skip_ws r1") (simp_all del: dropWhile_eq_Nil_conv split: if_splits)
  obtain v r2 where v: "pvalue n (skip_ws cs) = Inr (v, r2)"
    using assms k c by (cases "pvalue n (skip_ws cs)") (auto split: if_splits)
  obtain d ds where d: "skip_ws r2 = d # ds" using assms k c v by (cases "skip_ws r2") (simp_all del: dropWhile_eq_Nil_conv split: if_splits)
  show ?thesis
    using assms k c v d by (intro that [OF s k c v d]) (simp add: cons_fst_Inr split: if_splits)
qed

lemma pmembers_no_fuel:
  assumes "pmembers (Suc n) s = Inl no_fuel"
  obtains k r1 c cs where "s \<noteq> []" "scan_str (tl s) = Inr (k, r1)" "skip_ws r1 = c # cs" "pvalue n (skip_ws cs) = Inl no_fuel"
  | k r1 c cs v r2 d ds where "s \<noteq> []" "scan_str (tl s) = Inr (k, r1)" "skip_ws r1 = c # cs"
      "pvalue n (skip_ws cs) = Inr (v, r2)" "skip_ws r2 = d # ds" "pmembers n (skip_ws ds) = Inl no_fuel"
proof -
  have nf: "JSONDecodeError \<noteq> no_fuel" by (simp add: no_fuel_def)
  have s: "s \<noteq> []" using assms nf by auto
  obtain k r1 where k: "scan_str (tl s) = Inr (k, r1)"
    using assms nf scan_str_error [of "tl s"] by (cases "scan_str (tl s)") (auto split: if_splits)
  obtain c cs where c: "skip_ws r1 = c # cs" using assms nf k by (cases "skip_ws r1") (simp_all del: dropWhile_eq_Nil_conv split: if_splits)
  show ?thesis
  proof (cases "pvalue n (skip_ws cs)")
    case (Inl e)
    then show ?thesis using assms nf k c that(1) [OF s k c] by (simp split: if_splits)
  next
    case (Inr p)
    then obtain v r2 where v: "pvalue n (skip_ws cs) = Inr (v, r2)" by (cases p) simp
    obtain d ds where d: "skip_ws r2 = d # ds" using assms nf k c v by (cases "skip_ws r2") (simp_all del: dropWhile_eq_Nil_conv split: if_splits)
    show ?thesis
      using assms nf k c v d by (intro that(2) [OF s k c v d]) (simp add: cons_fst_Inl split: if_splits)
  qed
qed

lemma parse_shorter:
  "(\<forall>s j r. pvalue n s = Inr (j, r) \<longrightarrow> length r < length s)
   \<and> (\<forall>s xs r. pelems n s = Inr (xs, r) \<longrightarrow> length r < length s)
   \<and> (\<forall>s kvs r. pmembers n s = Inr (kvs, r) \<longrightarrow> length r < length s)"
proof (induction n)
  case (Suc n)
  then have v: "\<And>s j r. pvalue n s = Inr (j, r) \<Longrightarrow> length r < length s"
    and e: "\<And>s xs r. pelems n s = Inr (xs, r) \<Longrightarrow> length r < length s"
    and m: "\<And>s kvs r. pmembers n s = Inr (kvs, r) \<Longrightarrow> length r < length s" by blast+
  note ws = length_dropWhile_le [of json_ws]
  have "length r < length s" if p: "pvalue (Suc n) s = Inr (j, r)" for s j r
  proof (cases s)
    case (Cons c cs)
    have "length (tl (skip_ws cs)) < Suc (length cs)" using ws [of cs] by simp
    moreover have "length r < Suc (length cs)" if "pelems n (skip_ws cs) = Inr (xs, r)" for xs
      using e [OF that] ws [of cs] by linarith
    moreover have "length r < Suc (length cs)" if "pmembers n (skip_ws cs) = Inr (xs, r)" for xs
      using m [OF that] ws [of cs] by linarith
    ultimately show ?thesis
      using p Cons scan_atom_shorter [of s j r]
      by (auto simp: bind_res_Inr Let_def less_SucI dest: scan_str_shorter split: if_splits)
  qed (use p in simp)
  moreover have "length r < length s" if p: "pelems (Suc n) s = Inr (xs, r)" for s xs r
  proof -
    obtain x r1 c cs where x: "pvalue n s = Inr (x, r1)" "skip_ws r1 = c # cs"
        "r = cs \<and> xs = [x] \<or> (\<exists>ys. pelems n (skip_ws cs) = Inr (ys, r) \<and> xs = x # ys)"
      using p by (rule pelems_Inr)
    have "length cs < length s" using v [OF x(1)] skip_ws_Cons [OF x(2)] by linarith
    then show ?thesis using x(3) e ws [of cs] by fastforce
  qed
  moreover have "length r < length s" if p: "pmembers (Suc n) s = Inr (kvs, r)" for s kvs r
  proof -
    obtain k r1 c cs v' r2 d ds where x: "s \<noteq> []" "scan_str (tl s) = Inr (k, r1)" "skip_ws r1 = c # cs"
        "pvalue n (skip_ws cs) = Inr (v', r2)" "skip_ws r2 = d # ds"
        "r = ds \<and> kvs = [(k, v')] \<or> (\<exists>ys. pmembers n (skip_ws ds) = Inr (ys, r) \<and> kvs = (k, v') # ys)"
      using p by (rule pmembers_Inr)
    have "length ds < length s"
      using x(1) scan_str_shorter [OF x(2)] skip_ws_Cons [OF x(3)] v [OF x(4)] skip_ws_Cons [OF x(5)] ws [of cs]
      by simp
    then show ?thesis using x(6) m ws [of ds] by fastforce
  qed
  ultimately show ?case by blast
qed simp

lemmas pvalue_shorter = parse_shorter [THEN conjunct1, rule_format]

text \<open>Twice the length of the text is enough; \<open>pelems\<close> and \<open>pmembers\<close> need one more.\<close>

lemma parse_fuel:
  "(\<forall>s. 2 * length s < n \<longrightarrow> pvalue n s \<noteq> Inl no_fuel)
   \<and> (\<forall>s. 2 * length s + 1 < n \<longrightarrow> pelems n s \<noteq> Inl no_fuel)
   \<and> (\<forall>s. 2 * length s + 1 < n \<longrightarrow> pmembers n s \<noteq> Inl no_fuel)"
proof (induction n)
  case (Suc n)
  then have v: "\<And>s. 2 * length s < n \<Longrightarrow> pvalue n s \<noteq> Inl no_fuel"
    and e: "\<And>s. 2 * length s + 1 < n \<Longrightarrow> pelems n s \<noteq> Inl no_fuel"
    and m: "\<And>s. 2 * length s + 1 < n \<Longrightarrow> pmembers n s \<noteq> Inl no_fuel" by blast+
  note ws = length_dropWhile_le [of json_ws]
  have nf: "JSONDecodeError \<noteq> no_fuel" by (simp add: no_fuel_def)
  have "pvalue (Suc n) s \<noteq> Inl no_fuel" if l: "2 * length s < Suc n" for s
  proof (cases s)
    case (Cons c cs)
    have "2 * length (skip_ws cs) + 1 < n" using l ws [of cs] Cons by simp
    then show ?thesis
      using Cons e m scan_atom_error [of s] scan_str_error [of cs] nf by (auto simp: bind_res_Inl Let_def)
  qed (simp add: nf)
  moreover have "pelems (Suc n) s \<noteq> Inl no_fuel" if l: "2 * length s + 1 < Suc n" for s
  proof
    assume a: "pelems (Suc n) s = Inl no_fuel"
    have "pvalue n s \<noteq> Inl no_fuel" using v l by simp
    with a obtain x r1 c cs where x: "pvalue n s = Inr (x, r1)" "skip_ws r1 = c # cs" "pelems n (skip_ws cs) = Inl no_fuel"
      by (rule pelems_no_fuel)
    have "length cs + 1 < length s" using pvalue_shorter [OF x(1)] skip_ws_Cons [OF x(2)] by linarith
    then have "2 * length (skip_ws cs) + 1 < n" using l ws [of cs] by linarith
    then show False using e x(3) by blast
  qed
  moreover have "pmembers (Suc n) s \<noteq> Inl no_fuel" if l: "2 * length s + 1 < Suc n" for s
  proof
    assume "pmembers (Suc n) s = Inl no_fuel"
    then show False
    proof (cases rule: pmembers_no_fuel)
      case (1 k r1 c cs)
      then have "length cs + 1 < length s" using scan_str_shorter [OF 1(2)] skip_ws_Cons [OF 1(3)] by simp
      then show False using 1(4) v l ws [of cs] by simp
    next
      case (2 k r1 c cs v' r2 d ds)
      then have "length cs + 1 < length s" using scan_str_shorter [OF 2(2)] skip_ws_Cons [OF 2(3)] by simp
      moreover have "length ds < length cs"
        using pvalue_shorter [OF 2(4)] skip_ws_Cons [OF 2(5)] ws [of cs] by linarith
      ultimately have "2 * length (skip_ws ds) + 1 < n" using l ws [of ds] by linarith
      then show False using m 2(6) by blast
    qed
  qed
  ultimately show ?case by blast
qed simp

section \<open>Parsing undoes printing\<close>

lemma hex4_byte:
  assumes "n < 256"
  shows "hex4 CHR ''0'' CHR ''0'' (hex_digits ! (n div 16)) (hex_digits ! (n mod 16)) = Some n"
proof -
  have "hex_val CHR ''0'' = Some 0" by (simp add: hex_val_def)
  moreover have "n div 16 < 16" using assms by (simp add: less_mult_imp_div_less)
  ultimately show ?thesis using hex_digit_facts [of "n div 16"] hex_digit_facts [of "n mod 16"] by (simp add: hex4_def)
qed

lemma scan_str_backslash: "scan_esc t = Inr (u, r) \<Longrightarrow> scan_str (CHR 0x5C # t) = cons_fst u (scan_str r)"
  by simp

lemma char_codes: "char_of (34 :: nat) = CHR 0x22" "char_of (92 :: nat) = CHR 0x5C" "char_of (48 :: nat) = CHR ''0''"
  by code_simp+

lemma scan_str_esc: "scan_str (esc_char c @ t) = cons_fst c (scan_str t)"
proof -
  define n where "n = (of_char c :: nat)"
  have c: "c = char_of n" "n < 256" by (simp_all add: n_def)
  consider "n \<in> {8, 9, 10, 12, 13, 34, 92}" | "n \<notin> {34, 92}" "32 \<le> n" "n < 127"
    | "n \<notin> {8, 9, 10, 12, 13, 34, 92}" "\<not> (32 \<le> n \<and> n < 127)" by blast
  then show ?thesis
  proof cases
    case 1
    then consider "n = 8" | "n = 9" | "n = 10" | "n = 12" | "n = 13" | "n = 34" | "n = 92" by blast
    then show ?thesis by cases (simp_all add: c(1) char_codes Let_def esc_char_def scan_esc_def unescape_def)
  next
    case 2
    have "c \<noteq> CHR 0x22" "c \<noteq> CHR 0x5C" using 2(1) n_def by auto
    moreover have "esc_char c = [c]" using 2 by (auto simp: esc_char_def n_def [symmetric] Let_def)
    ultimately show ?thesis using 2(2) by (simp add: n_def)
  next
    case 3
    then have "esc_char c = [CHR 0x5C, CHR ''u'', CHR ''0'', CHR ''0'', hex_digits ! (n div 16), hex_digits ! (n mod 16)]"
      by (auto simp: esc_char_def n_def [symmetric] Let_def)
    then show ?thesis using c hex4_byte [OF c(2)] by (simp add: scan_esc_def)
  qed
qed

lemma scan_str_dumps: "scan_str (concat (map esc_char s) @ CHR 0x22 # rest) = Inr (s, rest)"
  by (induction s) (simp_all add: scan_str_esc cons_fst_def)

lemma hd_nat_str: "0 < n \<Longrightarrow> hd (nat_str n) \<noteq> CHR ''0''"
proof (induction n rule: nat_str.induct)
  case (1 n)
  show ?case
  proof (cases "n < 10")
    case True
    then have "of_char (digit_char n) = n + 48" by (rule digit_facts(3))
    then have "digit_char n \<noteq> CHR ''0''" using 1 by auto
    then show ?thesis using True by (simp add: nat_str.simps [of n])
  next
    case False
    then show ?thesis using 1 by (simp add: nat_str.simps [of n])
  qed
qed

text \<open>An integer part as the grammar wants it, and text that cannot continue a number.\<close>

definition int_part :: "string \<Rightarrow> bool" where
  "int_part ip \<longleftrightarrow> ip = ''0'' \<or> ip \<noteq> [] \<and> list_all is_digit ip \<and> hd ip \<noteq> CHR ''0''"

definition delim :: "string \<Rightarrow> bool" where
  "delim r \<longleftrightarrow> r = [] \<or> hd r \<in> set '',]}''"

lemma int_part_nat_str: "int_part (nat_str n)"
proof (cases "n = 0")
  case True
  then show ?thesis by (simp add: int_part_def nat_str.simps digit_char_def char_codes)
next
  case False
  then show ?thesis using hd_nat_str [of n] nat_str_digits [of n] by (simp add: int_part_def)
qed

lemma int_part_digits: "int_part ip \<Longrightarrow> ip \<noteq> [] \<and> list_all is_digit ip"
  by (auto simp: int_part_def digit_zero)

lemma number_parts_eq:
  assumes "int_part ip" "r = [] \<or> \<not> is_digit (hd r)" "sign = [] \<or> sign = ''-''"
  shows "number_parts (sign @ ip @ r) = (sign, ip, scan_frac r, scan_exp (drop (length (scan_frac r)) r))"
proof -
  note d = int_part_digits [OF assms(1)]
  have "\<not> is_digit CHR ''-''" by (simp add: is_digit_code)
  then have "hd ip \<noteq> CHR ''-''" using d by (cases ip) auto
  then have s: "(if sign @ ip @ r \<noteq> [] \<and> hd (sign @ ip @ r) = CHR ''-'' then ''-'' else []) = sign"
    using assms(3) d by auto
  have ip: "(if ip @ r \<noteq> [] \<and> hd (ip @ r) = CHR ''0'' then ''0'' else takeWhile is_digit (ip @ r)) = ip"
    using assms(1,2) d takeWhile_digits [of ip r] by (auto simp: int_part_def)
  have drops: "drop (length sign) (sign @ ip @ r) = ip @ r" "drop (length ip) (ip @ r) = r" by simp_all
  show ?thesis unfolding number_parts_def Let_def s drops ip ..
qed

lemma scan_frac_eq:
  assumes "fp = [] \<or> (\<exists>ds. fp = CHR ''.'' # ds \<and> ds \<noteq> [] \<and> list_all is_digit ds)"
    and "t = [] \<or> \<not> is_digit (hd t) \<and> hd t \<noteq> CHR ''.''"
  shows "scan_frac (fp @ t) = fp"
  using assms(1)
proof
  assume "fp = []"
  then show ?thesis using assms(2) by (auto simp: scan_frac_def)
next
  assume "\<exists>ds. fp = CHR ''.'' # ds \<and> ds \<noteq> [] \<and> list_all is_digit ds"
  then obtain ds where "fp = CHR ''.'' # ds" "ds \<noteq> []" "list_all is_digit ds" by blast
  moreover from this assms(2) have "takeWhile is_digit (ds @ t) = ds" using takeWhile_digits [of ds t] by blast
  ultimately show ?thesis by (simp add: scan_frac_def)
qed

lemma delim_end: "delim r \<Longrightarrow> r = [] \<or> \<not> is_digit (hd r) \<and> hd r \<noteq> CHR ''.'' \<and> hd r \<noteq> CHR ''e'' \<and> hd r \<noteq> CHR ''E''"
  by (auto simp: delim_def is_digit_code)

lemma scan_exp_eq: "delim r \<Longrightarrow> scan_exp r = []" "delim r \<Longrightarrow> scan_exp (exp_str k @ r) = exp_str k"
proof -
  assume r: "delim r"
  then show "scan_exp r = []" using delim_end by (auto simp: scan_exp_def)
  obtain sg ds where e: "exp_str k = CHR ''e'' # sg # ds" "sg = CHR ''-'' \<or> sg = CHR ''+''" "ds \<noteq> []" "list_all is_digit ds"
    using nat_str_digits [of "nat \<bar>k\<bar>"] by (cases "k < 0") (auto simp: exp_str_def Let_def digit_zero)
  have "takeWhile is_digit (ds @ r) = ds" using takeWhile_digits [OF e(4), of r] delim_end [OF r] by blast
  then show "scan_exp (exp_str k @ r) = exp_str k" using e by (auto simp: scan_exp_def)
qed

text \<open>A number text in its parts is scanned as a whole.\<close>

lemma scan_number_parts:
  assumes "int_part ip" "sign = [] \<or> sign = ''-''"
    and "fp = [] \<or> (\<exists>ds. fp = CHR ''.'' # ds \<and> ds \<noteq> [] \<and> list_all is_digit ds)"
    and "ep = [] \<or> (\<exists>k. ep = exp_str k)" "delim rest"
  shows "scan_number ((sign @ ip @ fp @ ep) @ rest) =
    (if fp = [] \<and> ep = [] then bind_res (py_int (sign @ ip)) (\<lambda>i. Inr (JInt i, rest))
     else bind_res (py_float (sign @ ip @ fp @ ep)) (\<lambda>f. Inr (JFloat f, rest)))"
proof -
  have ne: "\<not> is_digit CHR ''e''" "\<not> is_digit CHR ''.''" by (simp_all add: is_digit_code)
  have t: "ep @ rest = [] \<or> \<not> is_digit (hd (ep @ rest)) \<and> hd (ep @ rest) \<noteq> CHR ''.''"
    using assms(4) delim_end [OF assms(5)] exp_str_start ne by auto
  then have "fp @ ep @ rest = [] \<or> \<not> is_digit (hd (fp @ ep @ rest))" using assms(3) ne by auto
  note parts = number_parts_eq [OF assms(1) this assms(2)]
  have "scan_frac (fp @ ep @ rest) = fp" using assms(3) t by (rule scan_frac_eq)
  moreover have "scan_exp (ep @ rest) = ep" using assms(4,5) scan_exp_eq by auto
  ultimately have "number_parts (sign @ ip @ fp @ ep @ rest) = (sign, ip, fp, ep)" using parts by simp
  then show ?thesis using int_part_digits [OF assms(1)] by (auto simp: scan_number_def Let_def)
qed

lemma scan_number_int: "delim rest \<Longrightarrow> scan_number (int_str i @ rest) = Inr (JInt i, rest)"
  using scan_number_parts [OF int_part_nat_str [of "nat \<bar>i\<bar>"], of "if i < 0 then ''-'' else []" "[]" "[]" rest] py_int_int_str [of i]
  by (auto simp: int_str_def split: if_splits)

text \<open>The shapes of a printed float.\<close>

definition float_shape :: "string \<Rightarrow> bool" where
  "float_shape s \<longleftrightarrow> (\<exists>sign ip fp ep. s = sign @ ip @ fp @ ep \<and> (sign = [] \<or> sign = ''-'') \<and> int_part ip
     \<and> (fp = [] \<or> (\<exists>ds. fp = CHR ''.'' # ds \<and> ds \<noteq> [] \<and> list_all is_digit ds))
     \<and> (ep = [] \<or> (\<exists>k. ep = exp_str k)) \<and> \<not> (fp = [] \<and> ep = []))"

lemma float_shapeI:
  "int_part ip \<Longrightarrow> ds \<noteq> [] \<Longrightarrow> list_all is_digit ds \<Longrightarrow> sign = [] \<or> sign = ''-'' \<Longrightarrow>
   float_shape (sign @ ip @ CHR ''.'' # ds)"
  unfolding float_shape_def by (intro exI [of _ sign] exI [of _ ip] exI [of _ "CHR ''.'' # ds"] exI [of _ "[]"]) auto

lemma layout_shape:
  assumes "d \<noteq> []" "list_all is_digit d" "hd d \<noteq> CHR ''0''" "sign = [] \<or> sign = ''-''"
  shows "float_shape (sign @ layout d p)"
proof -
  have z: "list_all is_digit (replicate k CHR ''0'')" for k by (simp add: list_all_iff digit_zero)
  have td: "list_all is_digit (take k d)" "list_all is_digit (drop k d)" for k
    using assms(2) by (auto simp: list_all_iff dest: in_set_takeD in_set_dropD)
  consider (exp) "\<not> (- 4 < p \<and> p \<le> 16)" | (small) "- 4 < p" "p \<le> 0" | (mid) "0 < p" "p \<le> 16" "nat p < length d"
    | (big) "0 < p" "p \<le> 16" "length d \<le> nat p" by linarith
  then show ?thesis
  proof cases
    case small
    then have "layout d p = ''0'' @ CHR ''.'' # (replicate (nat (- p)) CHR ''0'' @ d)" by (simp add: layout_def)
    then show ?thesis using float_shapeI [of "''0''" "replicate (nat (- p)) CHR ''0'' @ d" sign] assms z
      by (simp add: int_part_def)
  next
    case mid
    then have "layout d p = take (nat p) d @ CHR ''.'' # drop (nat p) d" by (simp add: layout_def)
    moreover have "int_part (take (nat p) d)" using assms td mid by (simp add: int_part_def)
    ultimately show ?thesis using float_shapeI [of "take (nat p) d" "drop (nat p) d" sign] assms td mid by simp
  next
    case big
    then have "layout d p = (d @ replicate (nat p - length d) CHR ''0'') @ CHR ''.'' # ''0''" by (simp add: layout_def)
    moreover have "int_part (d @ replicate (nat p - length d) CHR ''0'')" using assms z by (simp add: int_part_def)
    ultimately show ?thesis
      using float_shapeI [of "d @ replicate (nat p - length d) CHR ''0''" "''0''" sign] assms by (simp add: digit_zero)
  next
    case exp
    obtain a ds where d: "d = a # ds" using assms(1) by (cases d) simp_all
    define fp where "fp = (if ds = [] then [] else CHR ''.'' # ds)"
    have "layout d p = [a] @ fp @ exp_str (p - 1)" using exp d by (auto simp: layout_def fp_def)
    moreover have "int_part [a]" using assms d by (simp add: int_part_def)
    moreover have "fp = [] \<or> (\<exists>ds. fp = CHR ''.'' # ds \<and> ds \<noteq> [] \<and> list_all is_digit ds)"
      using assms(2) d by (simp add: fp_def)
    ultimately show ?thesis using assms(4) exp_str_start [of "p - 1"] unfolding float_shape_def
      by (intro exI [of _ sign] exI [of _ "[a]"] exI [of _ fp] exI [of _ "exp_str (p - 1)"]) auto
  qed
qed

lemma hd_rstrip: "rstrip c xs \<noteq> [] \<Longrightarrow> hd (rstrip c xs) = hd xs"
  using rstrip_split [of xs c] by (metis hd_append2)

lemma shortest_hd:
  assumes "is_double x" "0 < x" "shortest x = (d, p)"
  shows "hd d \<noteq> CHR ''0''"
proof -
  obtain ce where "shortest_from x 1 17 = Some ce"
    using shortest_from_total [OF digits_try_17 [OF assms(1,2)], of 1 17] by auto
  then have d: "d = rstrip CHR ''0'' (nat_str (nat (fst ce)))" using assms(3) by (auto simp: shortest_def Let_def split: prod.splits)
  have "d \<noteq> []" using shortest_facts(1) [OF assms] .
  moreover have "nat (fst ce) \<noteq> 0"
  proof
    assume "nat (fst ce) = 0"
    then have "d = []" using d by (simp add: nat_str.simps digit_char_def char_codes rstrip_def)
    then show False using \<open>d \<noteq> []\<close> by simp
  qed
  ultimately show ?thesis using hd_nat_str [of "nat (fst ce)"] d hd_rstrip [of "CHR ''0''" "nat_str (nat (fst ce))"] by auto
qed

lemma float_repr_shape: assumes "is_double x" shows "float_shape (float_repr (PFin x))"
proof (cases "x = 0")
  case True
  then show ?thesis using float_shapeI [of "''0''" "''0''" "[]"] by (simp add: int_part_def digit_zero)
next
  case False
  obtain d p where dp: "shortest \<bar>x\<bar> = (d, p)" by (cases "shortest \<bar>x\<bar>")
  have x: "is_double \<bar>x\<bar>" "0 < \<bar>x\<bar>" using assms False is_double_abs by auto
  show ?thesis
    using layout_shape [OF shortest_facts(1,2) [OF x dp] shortest_hd [OF x dp], of "if x < 0 then ''-'' else []" p] False dp
    by simp
qed

lemma scan_number_float:
  assumes "float_shape s" "py_float s = Inr f" "delim rest"
  shows "scan_number (s @ rest) = Inr (JFloat f, rest)"
proof -
  obtain sign ip fp ep where s: "s = sign @ ip @ fp @ ep" "sign = [] \<or> sign = ''-''" "int_part ip"
      "fp = [] \<or> (\<exists>ds. fp = CHR ''.'' # ds \<and> ds \<noteq> [] \<and> list_all is_digit ds)"
      "ep = [] \<or> (\<exists>k. ep = exp_str k)" "\<not> (fp = [] \<and> ep = [])"
    using assms(1) unfolding float_shape_def by blast
  then show ?thesis using scan_number_parts [OF s(3,2,4,5) assms(3)] assms(2) by auto
qed

text \<open>How a printed value starts.\<close>

lemma hd_digits: "int_part ip \<Longrightarrow> is_digit (hd (ip @ r))"
  using int_part_digits [of ip] by (cases ip) auto

lemma scan_atom_number:
  assumes "int_part ip" "sign = [] \<or> sign = ''-''"
  shows "scan_atom (sign @ ip @ r) = scan_number (sign @ ip @ r)"
proof -
  obtain c cs where ip: "ip = c # cs" "is_digit c" using int_part_digits [OF assms(1)] by (cases ip) auto
  then have "c \<notin> set ''ntfNI-''" by (auto simp: is_digit_code)
  then show ?thesis using assms(2) ip by (auto simp: scan_atom_def scan_word_def)
qed

lemma pvalue_number:
  assumes "int_part ip" "sign = [] \<or> sign = ''-''"
  shows "pvalue (Suc n) (sign @ ip @ r) = scan_number (sign @ ip @ r)"
proof -
  obtain c cs where ip: "ip = c # cs" "is_digit c" using int_part_digits [OF assms(1)] by (cases ip) auto
  then have "c \<notin> {CHR 0x22, CHR ''['', CHR ''{''}" by (auto simp: is_digit_code)
  then show ?thesis using assms(2) ip scan_atom_number [OF assms, of r] by auto
qed

lemma int_str_parts: "\<exists>sign ip. int_str i = sign @ ip \<and> (sign = [] \<or> sign = ''-'') \<and> int_part ip"
  using int_part_nat_str [of "nat \<bar>i\<bar>"]
  by (intro exI [of _ "if i < 0 then ''-'' else []"] exI [of _ "nat_str (nat \<bar>i\<bar>)"]) (simp add: int_str_def)

lemma pvalue_int: "delim rest \<Longrightarrow> pvalue (Suc n) (int_str i @ rest) = Inr (JInt i, rest)"
  using int_str_parts [of i] pvalue_number scan_number_int [of rest i] by (metis append.assoc)

lemma pvalue_float:
  assumes "float_shape s" "py_float s = Inr f" "delim rest"
  shows "pvalue (Suc n) (s @ rest) = Inr (JFloat f, rest)"
proof -
  obtain sign ip r where "s = sign @ ip @ r" "sign = [] \<or> sign = ''-''" "int_part ip"
    using assms(1) unfolding float_shape_def by blast
  then show ?thesis using pvalue_number [of ip sign n "r @ rest"] scan_number_float [OF assms] by simp
qed

lemma scan_atom_words:
  "scan_atom (''null'' @ rest) = Inr (JNull, rest)"
  "scan_atom (''true'' @ rest) = Inr (JBool True, rest)"
  "scan_atom (''false'' @ rest) = Inr (JBool False, rest)"
  "scan_atom (''NaN'' @ rest) = Inr (JFloat PNan, rest)"
  "scan_atom (''Infinity'' @ rest) = Inr (JFloat (PInf False), rest)"
  "scan_atom (''-Infinity'' @ rest) = Inr (JFloat (PInf True), rest)"
  by (simp_all add: scan_atom_def scan_word_def)

lemma pvalue_words:
  "pvalue (Suc n) (''null'' @ rest) = Inr (JNull, rest)"
  "pvalue (Suc n) (''true'' @ rest) = Inr (JBool True, rest)"
  "pvalue (Suc n) (''false'' @ rest) = Inr (JBool False, rest)"
  "pvalue (Suc n) (''NaN'' @ rest) = Inr (JFloat PNan, rest)"
  "pvalue (Suc n) (''Infinity'' @ rest) = Inr (JFloat (PInf False), rest)"
  "pvalue (Suc n) (''-Infinity'' @ rest) = Inr (JFloat (PInf True), rest)"
  using scan_atom_words [of rest] by simp_all

lemma pvalue_dumps_float:
  assumes "float_wf f" "delim rest"
  shows "pvalue (Suc n) (dumps_float f @ rest) = Inr (JFloat f, rest)"
proof -
  have p: "pvalue (Suc n) (float_repr f @ rest) = Inr (JFloat f, rest)" if "float_shape (float_repr f)"
    using that floatc.dec_enc [OF assms(1)] assms(2) by (rule pvalue_float)
  have z: "float_shape ''-0.0''" using float_shapeI [of "''0''" "''0''" "''-''"] by (simp add: int_part_def digit_zero)
  show ?thesis
  proof (cases f)
    case (PFin x)
    then show ?thesis using p float_repr_shape [of x] assms(1) by (simp del: float_repr.simps pvalue.simps)
  next
    case PNegZero
    then show ?thesis using p z by (simp del: pvalue.simps)
  next
    case (PInf s)
    then show ?thesis using pvalue_words by (cases s) (simp_all del: pvalue.simps)
  qed (use pvalue_words in \<open>simp del: pvalue.simps\<close>)
qed

lemma pvalue_str: "pvalue (Suc n) (dumps_str s @ rest) = Inr (JStr s, rest)"
  using scan_str_dumps [of s rest] by (simp add: dumps_str_def)

lemma dict_items_distinct: "distinct (map fst kvs) \<Longrightarrow> dict_items kvs = kvs"
proof -
  assume d: "distinct (map fst kvs)"
  have "rev (remdups (rev (map fst kvs))) = map fst kvs" using d by (simp add: distinct_remdups_id)
  moreover have "map_of (rev kvs) k = Some v" if "(k, v) \<in> set kvs" for k v
    using that d by (intro map_of_is_SomeI) (simp_all add: rev_map [symmetric])
  ultimately show ?thesis by (auto simp: dict_items_def comp_def intro: map_idI)
qed

fun json_wf :: "json \<Rightarrow> bool" where
  "json_wf (JFloat f) = float_wf f"
| "json_wf (JList xs) = list_all json_wf xs"
| "json_wf (JObj kvs) = (distinct (map fst kvs) \<and> list_all (\<lambda>(k, v). json_wf v) kvs)"
| "json_wf j = True"

definition starts_ok :: "string \<Rightarrow> bool" where
  "starts_ok s \<longleftrightarrow> s \<noteq> [] \<and> \<not> json_ws (hd s) \<and> hd s \<noteq> CHR '']'' \<and> hd s \<noteq> CHR ''}''"

lemma starts_ok_simps [simp]: "starts_ok (c # s) \<longleftrightarrow> \<not> json_ws c \<and> c \<noteq> CHR '']'' \<and> c \<noteq> CHR ''}''"
  by (simp add: starts_ok_def)

lemma json_ws_chars [simp]:
  "\<not> json_ws CHR ''-''" "\<not> json_ws CHR ''N''" "\<not> json_ws CHR ''I''" "\<not> json_ws CHR ''n''" "\<not> json_ws CHR ''t''"
  "\<not> json_ws CHR ''f''" "\<not> json_ws CHR ''[''" "\<not> json_ws CHR ''{''" "\<not> json_ws CHR '']''" "\<not> json_ws CHR ''}''"
  "\<not> json_ws CHR '',''" "\<not> json_ws CHR '':''" "\<not> json_ws CHR 0x22" "json_ws CHR '' ''"
  by (simp_all add: json_ws_def)

lemma starts_ok_number: "int_part ip \<Longrightarrow> sign = [] \<or> sign = ''-'' \<Longrightarrow> starts_ok (sign @ ip @ r)"
proof -
  assume a: "int_part ip" "sign = [] \<or> sign = ''-''"
  obtain c cs where ip: "ip = c # cs" "is_digit c" using int_part_digits [OF a(1)] by (cases ip) auto
  then have "\<not> json_ws c" "c \<noteq> CHR '']''" "c \<noteq> CHR ''}''" by (auto simp: is_digit_code json_ws_def Let_def)
  then show ?thesis using a(2) ip by auto
qed

lemma starts_ok_dumps: "json_wf j \<Longrightarrow> starts_ok (dumps j @ r)"
proof (cases j)
  case (JInt i)
  then show ?thesis using int_str_parts [of i] starts_ok_number by (metis append.assoc dumps.simps(3))
next
  case (JFloat f)
  assume w: "json_wf j"
  show ?thesis
  proof (cases f)
    case (PFin x)
    then have "float_shape (float_repr f)" using w JFloat float_repr_shape by (simp del: float_repr.simps)
    then show ?thesis using PFin JFloat starts_ok_number unfolding float_shape_def
      by (metis append.assoc dumps.simps(4) dumps_float.simps(4))
  qed (simp_all add: JFloat)
qed (simp_all add: dumps_str_def)

text \<open>The induction over values: enough fuel for the text, and a rest that ends the value.\<close>

definition parses :: "json \<Rightarrow> bool" where
  "parses j \<longleftrightarrow> (\<forall>n rest. 2 * length (dumps j) \<le> n \<longrightarrow> delim rest \<longrightarrow> pvalue n (dumps j @ rest) = Inr (j, rest))"

lemma parsesD: "parses j \<Longrightarrow> 2 * length (dumps j) \<le> n \<Longrightarrow> delim rest \<Longrightarrow> pvalue n (dumps j @ rest) = Inr (j, rest)"
  by (simp add: parses_def)

lemma parsesI:
  assumes "\<And>n rest. 2 * length (dumps j) \<le> Suc n \<Longrightarrow> delim rest \<Longrightarrow> pvalue (Suc n) (dumps j @ rest) = Inr (j, rest)" "dumps j \<noteq> []"
  shows "parses j"
  unfolding parses_def
proof (intro allI impI)
  fix n rest assume a: "2 * length (dumps j) \<le> n" "delim rest"
  then obtain m where "n = Suc m" using assms(2) by (cases n) auto
  then show "pvalue n (dumps j @ rest) = Inr (j, rest)" using a assms(1) by blast
qed

lemma delim_simps [simp]: "delim (c # r) \<longleftrightarrow> c \<in> set '',]}''"
  by (simp add: delim_def)

lemma skip_ws_starts [simp]: "starts_ok s \<Longrightarrow> skip_ws s = s"
  by (cases s) auto

lemma starts_ok_join: "xs \<noteq> [] \<Longrightarrow> list_all json_wf xs \<Longrightarrow> starts_ok (join '', '' (map dumps xs) @ r)"
  by (cases xs rule: remdups_adj.cases) (simp_all add: starts_ok_dumps)

lemma pelems_join:
  "xs \<noteq> [] \<Longrightarrow> list_all json_wf xs \<Longrightarrow> (\<And>x. x \<in> set xs \<Longrightarrow> parses x) \<Longrightarrow>
   2 * length (join '', '' (map dumps xs)) + 1 \<le> n \<Longrightarrow>
   pelems n (join '', '' (map dumps xs) @ CHR '']'' # rest) = Inr (xs, rest)"
proof (induction xs arbitrary: n)
  case (Cons x xs)
  then obtain m where n: "n = Suc m" by (cases n) auto
  show ?case
  proof (cases xs)
    case Nil
    then have "pvalue m (dumps x @ CHR '']'' # rest) = Inr (x, CHR '']'' # rest)"
      using Cons.prems n by (intro parsesD) auto
    then show ?thesis using Nil n by simp
  next
    case (Cons y ys)
    let ?j = "join '', '' (map dumps xs) @ CHR '']'' # rest"
    have "pvalue m (dumps x @ '', '' @ ?j) = Inr (x, '', '' @ ?j)"
      using Cons.prems n Cons by (intro parsesD) auto
    moreover have "pelems m ?j = Inr (xs, rest)"
      using Cons.prems n Cons by (intro Cons.IH) auto
    moreover have "skip_ws (CHR '' '' # ?j) = ?j"
      using Cons.prems Cons starts_ok_join [of xs] by simp
    ultimately show ?thesis using Cons n by (simp add: cons_fst_def)
  qed
qed simp

definition member_text :: "string \<times> json \<Rightarrow> string" where
  "member_text kv = dumps_str (fst kv) @ '': '' @ dumps (snd kv)"

lemma starts_ok_members: "kvs \<noteq> [] \<Longrightarrow> starts_ok (join '', '' (map member_text kvs) @ r)"
  by (cases kvs rule: remdups_adj.cases) (simp_all add: member_text_def dumps_str_def)

lemma pmembers_join:
  "kvs \<noteq> [] \<Longrightarrow> (\<And>k v. (k, v) \<in> set kvs \<Longrightarrow> parses v \<and> json_wf v) \<Longrightarrow>
   2 * length (join '', '' (map member_text kvs)) + 1 \<le> n \<Longrightarrow>
   pmembers n (join '', '' (map member_text kvs) @ CHR ''}'' # rest) = Inr (kvs, rest)"
proof (induction kvs arbitrary: n)
  case (Cons kv kvs)
  obtain k v where kv: "kv = (k, v)" by (cases kv)
  obtain m where n: "n = Suc m" using Cons.prems by (cases n) auto
  have pv: "parses v" "json_wf v" using Cons.prems(2) kv by auto
  have step: "pmembers n (member_text kv @ c # r) =
      (if c = CHR ''}'' then Inr ([(k, v)], r) else cons_fst (k, v) (pmembers m (skip_ws r)))"
    if "2 * length (dumps v) \<le> m" "c = CHR ''}'' \<or> c = CHR '',''" for c r
  proof -
    have "pvalue m (dumps v @ c # r) = Inr (v, c # r)" using pv(1) that by (intro parsesD) auto
    moreover have "scan_str (concat (map esc_char k) @ CHR 0x22 # CHR '':'' # CHR '' '' # dumps v @ c # r) =
        Inr (k, CHR '':'' # CHR '' '' # dumps v @ c # r)"
      by (rule scan_str_dumps)
    moreover have "skip_ws (CHR '' '' # dumps v @ c # r) = dumps v @ c # r" using starts_ok_dumps [OF pv(2)] by simp
    ultimately show ?thesis using that(2) n kv by (auto simp: member_text_def dumps_str_def)
  qed
  show ?case
  proof (cases kvs)
    case Nil
    then show ?thesis using step [of "CHR ''}''" rest] Cons.prems n kv by (simp add: member_text_def)
  next
    case (Cons y ys)
    let ?j = "join '', '' (map member_text kvs) @ CHR ''}'' # rest"
    have "pmembers m ?j = Inr (kvs, rest)" using Cons.prems n Cons by (intro Cons.IH) auto
    moreover have "skip_ws (CHR '' '' # ?j) = ?j" using Cons starts_ok_members [of kvs] by simp
    moreover have "2 * length (dumps v) \<le> m" using Cons.prems n kv Cons by (simp add: member_text_def)
    ultimately have "pmembers n (member_text kv @ CHR '','' # CHR '' '' # ?j) = Inr ((k, v) # kvs, rest)"
      using step [of "CHR '',''" "CHR '' '' # ?j"] by (simp add: cons_fst_def del: pmembers.simps)
    moreover have "join '', '' (map member_text (kv # kvs)) @ CHR ''}'' # rest = member_text kv @ CHR '','' # CHR '' '' # ?j"
      by (simp add: Cons)
    ultimately show ?thesis using kv by (simp only:)
  qed
qed simp

lemma dumps_obj:
  assumes "distinct (map fst kvs)"
  shows "dumps (JObj kvs) = ''{'' @ join '', '' (map member_text kvs) @ ''}''"
proof -
  have "dict_items (map (\<lambda>(k, v). (k, dumps v)) kvs) = map (\<lambda>(k, v). (k, dumps v)) kvs"
    using assms by (intro dict_items_distinct) (simp add: comp_def case_prod_unfold)
  then show ?thesis by (simp add: member_text_def [abs_def] comp_def case_prod_unfold)
qed

lemma pvalue_list:
  assumes "list_all json_wf xs" "\<And>x. x \<in> set xs \<Longrightarrow> parses x"
  shows "parses (JList xs)"
proof (rule parsesI)
  fix n rest assume n: "2 * length (dumps (JList xs)) \<le> Suc n"
  show "pvalue (Suc n) (dumps (JList xs) @ rest) = Inr (JList xs, rest)"
  proof (cases "xs = []")
    case False
    let ?j = "join '', '' (map dumps xs) @ CHR '']'' # rest"
    have st: "starts_ok ?j" using starts_ok_join [OF False assms(1)] by simp
    then have "skip_ws ?j = ?j" "?j \<noteq> []" "hd ?j \<noteq> CHR '']''" by (simp_all add: starts_ok_def del: dropWhile_append)
    moreover have "pelems n ?j = Inr (xs, rest)" using assms n False by (intro pelems_join) simp_all
    moreover have "dumps (JList xs) @ rest = CHR ''['' # ?j" by simp
    ultimately show ?thesis by (simp only: pvalue.simps) simp
  qed simp
qed simp

lemma pvalue_obj:
  assumes "distinct (map fst kvs)" "\<And>k v. (k, v) \<in> set kvs \<Longrightarrow> parses v \<and> json_wf v"
  shows "parses (JObj kvs)"
proof (rule parsesI)
  fix n rest assume n: "2 * length (dumps (JObj kvs)) \<le> Suc n"
  show "pvalue (Suc n) (dumps (JObj kvs) @ rest) = Inr (JObj kvs, rest)"
  proof (cases "kvs = []")
    case False
    let ?j = "join '', '' (map member_text kvs) @ CHR ''}'' # rest"
    have st: "starts_ok ?j" using starts_ok_members [OF False] by simp
    then have "skip_ws ?j = ?j" "?j \<noteq> []" "hd ?j \<noteq> CHR ''}''" by (simp_all add: starts_ok_def del: dropWhile_append)
    moreover have "pmembers n ?j = Inr (kvs, rest)"
      using assms(2) n False unfolding dumps_obj [OF assms(1)] by (intro pmembers_join) simp_all
    moreover have "dumps (JObj kvs) @ rest = CHR ''{'' # ?j" by (simp add: dumps_obj [OF assms(1)] del: dumps.simps)
    ultimately show ?thesis by (simp only: pvalue.simps) simp
  qed (simp add: dict_items_def)
qed simp

lemma json_wf_parses: "json_wf j \<Longrightarrow> parses j"
proof (induction j)
  case (JFloat f)
  then have "dumps (JFloat f) \<noteq> []" using starts_ok_dumps [of "JFloat f" "[]"] by (auto simp: starts_ok_def)
  with JFloat show ?case by (intro parsesI) (simp_all add: pvalue_dumps_float del: pvalue.simps)
next
  case (JList xs)
  then show ?case by (intro pvalue_list) (auto simp: list_all_iff)
next
  case (JObj kvs)
  then show ?case by (intro pvalue_obj) (fastforce simp: list_all_iff)+
next
  case JNull
  show ?case by (rule parsesI) (use pvalue_words in \<open>simp_all del: pvalue.simps\<close>)
next
  case (JBool b)
  show ?case by (rule parsesI) (use pvalue_words in \<open>simp_all del: pvalue.simps\<close>)
next
  case (JInt i)
  have "int_str i \<noteq> []" by (simp add: int_str_def)
  then show ?case by (intro parsesI) (simp_all add: pvalue_int del: pvalue.simps)
next
  case (JStr s)
  show ?case by (rule parsesI) (simp_all add: pvalue_str del: pvalue.simps, simp add: dumps_str_def)
qed

lemma loads_dumps: assumes "json_wf j" shows "loads (dumps j) = Inr j"
proof -
  have "pvalue (2 * length (dumps j) + 1) (dumps j @ []) = Inr (j, [])"
    using json_wf_parses [OF assms] by (intro parsesD) (simp_all add: delim_def)
  moreover have "skip_ws (dumps j) = dumps j" using starts_ok_dumps [OF assms, of "[]"] by simp
  ultimately show ?thesis by (simp add: loads_def del: pvalue.simps)
qed

interpretation jsonc: codec dumps loads json_wf
  by unfold_locales (rule loads_dumps)

text \<open>The fuel of \<open>loads\<close> never runs out.\<close>

lemma loads_fuel: "loads s \<noteq> Inl no_fuel"
proof -
  have "2 * length (skip_ws s) < 2 * length s + 1" using length_dropWhile_le [of json_ws s] by simp
  then have "pvalue (2 * length s + 1) (skip_ws s) \<noteq> Inl no_fuel" using parse_fuel by blast
  then show ?thesis by (auto simp: loads_def bind_res_Inl no_fuel_def simp del: pvalue.simps)
qed

section \<open>Floats that are read\<close>

text \<open>Every float in a parsed value is one that Python has.\<close>

lemma signed_rnd_wf: "float_wf (signed_rnd neg x)"
  using rnd_wf [of x] rnd_wf [of "- x"] by (auto simp: signed_rnd_def Let_def)

lemma py_float_wf: "py_float s = Inr f \<Longrightarrow> float_wf f"
  by (auto simp: py_float_def Let_def signed_rnd_wf split: if_splits option.splits)

fun floats_wf :: "json \<Rightarrow> bool" where
  "floats_wf (JFloat f) = float_wf f"
| "floats_wf (JList xs) = list_all floats_wf xs"
| "floats_wf (JObj kvs) = list_all (\<lambda>(k, v). floats_wf v) kvs"
| "floats_wf j = True"

lemma scan_atom_floats: "scan_atom s = Inr (j, r) \<Longrightarrow> floats_wf j"
  by (auto simp: scan_atom_def scan_word_def scan_number_def Let_def bind_res_Inr py_float_wf split: if_splits prod.splits)

lemma parse_floats:
  "(\<forall>s j r. pvalue n s = Inr (j, r) \<longrightarrow> floats_wf j)
   \<and> (\<forall>s xs r. pelems n s = Inr (xs, r) \<longrightarrow> list_all floats_wf xs)
   \<and> (\<forall>s kvs r. pmembers n s = Inr (kvs, r) \<longrightarrow> list_all (\<lambda>(k, v). floats_wf v) kvs)"
proof (induction n)
  case (Suc n)
  then have v: "\<And>s j r. pvalue n s = Inr (j, r) \<Longrightarrow> floats_wf j"
    and e: "\<And>s xs r. pelems n s = Inr (xs, r) \<Longrightarrow> list_all floats_wf xs"
    and m: "\<And>s kvs r. pmembers n s = Inr (kvs, r) \<Longrightarrow> list_all (\<lambda>(k, v). floats_wf v) kvs" by blast+
  have "floats_wf j" if "pvalue (Suc n) s = Inr (j, r)" for s j r
    using that scan_atom_floats [of s j r]
    by (cases s) (auto simp: bind_res_Inr Let_def dest: e m split: if_splits)
  moreover have "list_all floats_wf xs" if "pelems (Suc n) s = Inr (xs, r)" for s xs r
    using that by (rule pelems_Inr) (auto dest: v e)
  moreover have "list_all (\<lambda>(k, v). floats_wf v) kvs" if "pmembers (Suc n) s = Inr (kvs, r)" for s kvs r
    using that by (rule pmembers_Inr) (auto dest: v m)
  ultimately show ?case by blast
qed simp

lemma loads_floats: "loads s = Inr j \<Longrightarrow> floats_wf j"
  using parse_floats [THEN conjunct1, rule_format] by (auto simp: loads_def bind_res_Inr simp del: pvalue.simps split: if_splits)

lemma floats_wf_getitem: "json_getitem j k = Inr v \<Longrightarrow> floats_wf j \<Longrightarrow> floats_wf v"
  by (cases j) (auto simp: obj_lookup_def res_of_option_def list_all_iff dest!: map_of_SomeD split: option.splits)

lemma json_float_wf: "floats_wf j \<Longrightarrow> json_float j = Inr f \<Longrightarrow> float_wf f"
  using is_double_int [of 0] is_double_int [of 1]
  by (cases j) (auto simp: py_float_wf float_of_int_wf)

end
