(* ===== verification/Http.thy ===== *)
theory Http
  imports Json_Text
begin

text \<open>
  HTTP/1.1 on the wire, as far as the key-release service and its client use it: the text that
  \<^verbatim>\<open>release\<close> of \<^verbatim>\<open>src/src/krs_client.py\<close> sends and the way it cuts the payload off a response, the
  head that \<^verbatim>\<open>BaseHTTPRequestHandler\<close> writes before a body, and the lines and header fields it
  reads from a request. The wire carries bytes; a line is read as ISO-8859-1. Header fields are
  looked up in their plain form, without continuation lines.
\<close>

section \<open>Bytes and lines\<close>

text \<open>\<open>s.partition(sep)\<close> for a separator that is not empty; the flag tells whether it occurs.\<close>

fun py_partition :: "'a list \<Rightarrow> 'a list \<Rightarrow> 'a list \<times> bool \<times> 'a list" where
  "py_partition sep s =
     (if take (length sep) s = sep then ([], True, drop (length sep) s)
      else (case s of
          [] \<Rightarrow> ([], False, [])
        | x # xs \<Rightarrow> (case py_partition sep xs of (a, f, b) \<Rightarrow> (x # a, f, b))))"

declare py_partition.simps [simp del]

definition lower_char :: "char \<Rightarrow> char" where
  "lower_char c =
     (let n = (of_char c :: nat) in if 65 \<le> n \<and> n \<le> 90 then char_of (n + 32) else c)"

definition latin1 :: "bytes \<Rightarrow> string" where
  "latin1 bs = map (\<lambda>b. char_of (unat b)) bs"

definition CRLF :: bytes where
  "CRLF = [13, 10]"

text \<open>
  The lines of a head up to the blank line that ends it, and what follows; a line ends with LF and
  loses a CR before it.
\<close>

function read_lines :: "bytes \<Rightarrow> bytes list \<times> bytes" where
  "read_lines s =
     (let l = takeWhile (\<lambda>b. b \<noteq> 10) s; r = tl (dropWhile (\<lambda>b. b \<noteq> 10) s) in
      if l = [] \<or> l = [13] then ([], r)
      else (case read_lines r of (ls, rest) \<Rightarrow> ((if last l = 13 then butlast l else l) # ls, rest)))"
  by pat_completeness auto
termination
proof (relation "measure length")
  fix s :: bytes and l r
  assume a: "l = takeWhile (\<lambda>b. b \<noteq> 10) s" "r = tl (dropWhile (\<lambda>b. b \<noteq> 10) s)" "\<not> (l = [] \<or> l = [13])"
  then have "s \<noteq> []" by auto
  moreover have "length (dropWhile (\<lambda>b. b \<noteq> 10) s) \<le> length s" by (rule length_dropWhile_le)
  ultimately have "length r < length s" using a(2) by (cases "dropWhile (\<lambda>b. b \<noteq> 10) s") auto
  then show "(r, s) \<in> measure length" by simp
qed simp

declare read_lines.simps [simp del]

text \<open>The value of the first field with a name, compared without case.\<close>

fun header_get :: "string \<Rightarrow> string list \<Rightarrow> string option" where
  "header_get name [] = None"
| "header_get name (l # ls) =
     (case py_partition '':'' l of (k, f, v) \<Rightarrow>
        if f \<and> map lower_char k = map lower_char name then Some (py_strip v) else header_get name ls)"

section \<open>Messages\<close>

text \<open>The blank line ends the head: every line and the last one empty.\<close>

definition http_head :: "string list \<Rightarrow> bytes" where
  "http_head ls = concat (map (\<lambda>l. encode l @ CRLF) ls) @ CRLF"

definition http_post :: "string \<Rightarrow> bytes \<Rightarrow> bytes" where
  "http_post server_name body =
     http_head [''POST /verify HTTP/1.1'', ''Host: '' @ server_name, ''Content-Type: application/json'',
       ''Content-Length: '' @ int_str (int (length body)), ''Connection: close''] @ body"

text \<open>\<^verbatim>\<open>_, _, payload = resp.partition(b"\r\n\r\n")\<close>.\<close>

definition http_payload :: "bytes \<Rightarrow> bytes" where
  "http_payload resp = (case py_partition (CRLF @ CRLF) resp of (_, _, payload) \<Rightarrow> payload)"

text \<open>
  What the handler writes for a status and a body; the values of the fields \<^verbatim>\<open>Server\<close> and \<^verbatim>\<open>Date\<close>
  that \<^verbatim>\<open>send_response\<close> adds are arguments.
\<close>

definition reason_phrase :: "nat \<Rightarrow> string" where
  "reason_phrase n = (if n = 200 then ''OK'' else if n = 403 then ''Forbidden'' else '''')"

definition http_reply :: "string \<Rightarrow> string \<Rightarrow> nat \<Rightarrow> bytes \<Rightarrow> bytes" where
  "http_reply server date status body =
     http_head [''HTTP/1.1 '' @ int_str (int status) @ '' '' @ reason_phrase status, ''Server: '' @ server, ''Date: '' @ date,
       ''Content-Type: application/json'', ''Content-Length: '' @ int_str (int (length body))] @ body"

text \<open>Request line, header lines and the rest of a request.\<close>

definition http_request_parts :: "bytes \<Rightarrow> string list \<times> string list \<times> bytes" where
  "http_request_parts raw =
     (case read_lines raw of (ls, rest) \<Rightarrow>
        (case ls of [] \<Rightarrow> ([], [], rest)
         | l # hs \<Rightarrow> (filter (\<lambda>w. w \<noteq> []) (split_on CHR '' '' (latin1 l)), map latin1 hs, rest)))"

section \<open>Lemmas\<close>

lemma py_partition_found:
  assumes "c \<notin> set xs" shows "py_partition [c] (xs @ c # ys) = (xs, True, ys)"
  using assms by (induction xs) (auto simp: py_partition.simps [of "[c]" "_ # _"])

lemma py_partition_absent:
  assumes "c \<notin> set xs" shows "py_partition [c] xs = (xs, False, [])"
  using assms
  by (induction xs) (auto simp: py_partition.simps [of "[c]" "_ # _"] py_partition.simps [of "[c]" "[]"])

text \<open>A line of printable ASCII.\<close>

definition printable :: "string \<Rightarrow> bool" where
  "printable s \<longleftrightarrow> (\<forall>c \<in> set s. 32 \<le> (of_char c :: nat) \<and> (of_char c :: nat) < 127)"

lemma printable_simps [simp]:
  "printable []" "printable (c # s) \<longleftrightarrow> 32 \<le> (of_char c :: nat) \<and> (of_char c :: nat) < 127 \<and> printable s"
  "printable (s @ t) \<longleftrightarrow> printable s \<and> printable t"
  by (auto simp: printable_def)

lemma printable_int_str: "printable (int_str i)"
  by (auto simp: printable_def int_str_def digit_facts dest!: nat_str_chars split: if_splits)

lemma encode_ascii: "printable s \<Longrightarrow> encode s = map (\<lambda>c. of_nat (of_char c)) s"
  by (induction s) (auto simp: encode_Cons utf8_char_def Let_def)

lemma latin1_encode: "printable s \<Longrightarrow> latin1 (encode s) = s"
  by (induction s) (auto simp: encode_ascii latin1_def unat_of_nat_small)

lemma encode_no_control:
  assumes "printable s" "b \<in> set (encode s)" shows "b \<noteq> 13 \<and> b \<noteq> 10"
proof -
  obtain c where c: "b = of_nat (of_char c)" "32 \<le> (of_char c :: nat)" "(of_char c :: nat) < 127"
    using assms by (auto simp: encode_ascii printable_def)
  then have "unat b = of_char c" by (simp add: unat_of_nat_small)
  then show ?thesis using c(2) by auto
qed

lemma encode_Nil [simp]: "encode s = [] \<longleftrightarrow> s = []"
  using encode_inj [of s "[]"] by simp

text \<open>Cutting at the blank line: the steps over a line, over its end and at the end of the head.\<close>

abbreviation blank :: bytes where
  "blank \<equiv> CRLF @ CRLF"

lemma partition_line:
  "13 \<notin> set l \<Longrightarrow> snd (snd (py_partition blank (l @ s))) = snd (snd (py_partition blank s))"
  by (induction l) (auto simp: CRLF_def py_partition.simps [of _ "_ # _"] split: prod.splits)

lemma partition_end_of_line:
  "s \<noteq> [] \<Longrightarrow> hd s \<noteq> 13 \<Longrightarrow> snd (snd (py_partition blank (CRLF @ s))) = snd (snd (py_partition blank s))"
  by (cases s) (auto simp: CRLF_def py_partition.simps [of _ "_ # _ # _"] split: prod.splits)

lemma partition_blank: "py_partition blank (blank @ s) = ([], True, s)"
  by (simp add: CRLF_def py_partition.simps)

definition line_ok :: "string \<Rightarrow> bool" where
  "line_ok l \<longleftrightarrow> l \<noteq> [] \<and> printable l"

lemma http_payload_head:
  assumes "ls \<noteq> []" "list_all line_ok ls" shows "http_payload (http_head ls @ body) = body"
proof -
  have "snd (snd (py_partition blank (http_head ls @ body))) = body"
    using assms
  proof (induction ls)
    case (Cons l ls)
    have free: "13 \<notin> set (encode l)" using Cons.prems encode_no_control by (auto simp: line_ok_def)
    show ?case
    proof (cases "ls = []")
      case True
      then show ?thesis using partition_line [OF free, of "blank @ body"] partition_blank [of body] by (simp add: http_head_def)
    next
      case False
      let ?r = "http_head ls @ body"
      obtain l' ls' where ls: "ls = l' # ls'" using False by (cases ls) auto
      then have "encode l' \<noteq> []" "hd (encode l') \<noteq> 13"
        using Cons.prems encode_no_control [of l' "hd (encode l')"] by (auto simp: line_ok_def)
      then have "?r \<noteq> []" "hd ?r \<noteq> 13" using ls by (simp_all add: http_head_def)
      then have "snd (snd (py_partition blank (encode l @ CRLF @ ?r))) = body"
        using partition_line [OF free, of "CRLF @ ?r"] partition_end_of_line [of ?r] Cons False by simp
      then show ?thesis by (simp add: http_head_def)
    qed
  qed simp
  then show ?thesis by (simp add: http_payload_def case_prod_unfold)
qed

lemma read_lines_blank: "read_lines (CRLF @ body) = ([], body)"
  by (simp add: read_lines.simps CRLF_def)

lemma read_lines_line:
  assumes "line_ok l" shows "read_lines (encode l @ CRLF @ s) = (let (ls, rest) = read_lines s in (encode l # ls, rest))"
proof -
  have free: "b \<noteq> 13 \<and> b \<noteq> 10" if "b \<in> set (encode l)" for b using that assms encode_no_control by (auto simp: line_ok_def)
  then have "takeWhile (\<lambda>b. b \<noteq> 10) (encode l @ CRLF @ s) = encode l @ [13]"
    "dropWhile (\<lambda>b. b \<noteq> 10) (encode l @ CRLF @ s) = 10 # s"
    by (auto simp: CRLF_def takeWhile_append dropWhile_append)
  then show ?thesis using assms by (simp add: read_lines.simps [of "encode l @ CRLF @ s"] line_ok_def Let_def)
qed

lemma read_lines_head: "list_all line_ok ls \<Longrightarrow> read_lines (http_head ls @ body) = (map encode ls, body)"
proof (induction ls)
  case (Cons l ls)
  have "http_head (l # ls) @ body = encode l @ CRLF @ (http_head ls @ body)" by (simp add: http_head_def)
  then show ?case using Cons read_lines_line [of l "http_head ls @ body"] by simp
qed (simp add: http_head_def read_lines_blank)

lemma http_request_parts_head:
  assumes "line_ok l" "list_all line_ok hs"
  shows "http_request_parts (http_head (l # hs) @ body) = (filter (\<lambda>w. w \<noteq> []) (split_on CHR '' '' l), hs, body)"
proof -
  have "map (latin1 \<circ> encode) hs = hs"
    using assms(2) by (intro map_idI) (auto simp: latin1_encode line_ok_def list_all_iff)
  then show ?thesis
    using assms read_lines_head [of "l # hs" body] by (simp add: http_request_parts_def latin1_encode line_ok_def)
qed

text \<open>What the server makes of the client's request.\<close>

lemma http_post_read:
  assumes "printable server_name"
  shows "\<exists>hs. http_request_parts (http_post server_name body) = ([''POST'', ''/verify'', ''HTTP/1.1''], hs, body)
    \<and> header_get ''Content-Length'' hs = Some (int_str (int (length body)))"
proof -
  let ?n = "int_str (int (length body))"
  let ?hs = "[''Host: '' @ server_name, ''Content-Type: application/json'', ''Content-Length: '' @ ?n, ''Connection: close'']"
  have "list_all line_ok ?hs" using assms printable_int_str by (simp add: line_ok_def)
  moreover have "line_ok ''POST /verify HTTP/1.1''" by (simp add: line_ok_def)
  ultimately have "http_request_parts (http_post server_name body) = ([''POST'', ''/verify'', ''HTTP/1.1''], ?hs, body)"
    unfolding http_post_def by (subst http_request_parts_head) simp_all
  moreover have "header_get ''Content-Length'' ?hs = Some ?n"
  proof -
    have cut: "py_partition '':'' (k @ CHR '':'' # v) = (k, True, v)" if "CHR '':'' \<notin> set k" for k v
      using that by (rule py_partition_found)
    have "py_strip (CHR '' '' # ?n) = ?n"
      using py_strip_id [of ?n] int_str_no_ws by (simp add: py_strip_def is_ws_def)
    then show ?thesis
      using cut [of "''Host''" "'' '' @ server_name"] cut [of "''Content-Type''" "'' application/json''"]
        cut [of "''Content-Length''" "'' '' @ ?n"]
      by (simp add: lower_char_def)
  qed
  ultimately show ?thesis by blast
qed

lemma http_reply_payload:
  assumes "printable server" "printable date" shows "http_payload (http_reply server date st body) = body"
  unfolding http_reply_def using assms printable_int_str
  by (intro http_payload_head) (simp_all add: line_ok_def reason_phrase_def)

end
