(* ===== verification/Tls.thy ===== *)
theory Tls
  imports Snp_Verify
begin

text \<open>
  Certificates and TLS contexts. The first part is the certificate generation of
  \<^verbatim>\<open>src/src/krs_selftest.py\<close>; the second the \<^verbatim>\<open>ssl\<close> contexts that \<^verbatim>\<open>serve\<close> of \<^verbatim>\<open>src/src/krs_server.py\<close> and
  \<^verbatim>\<open>KrsClient.__init__\<close> of \<^verbatim>\<open>src/src/krs_client.py\<close> set up, and the two verdicts of a handshake: the
  client's on the server and the server's on the client. Signing and encoding certificates (the
  package \<^verbatim>\<open>cryptography\<close>) and path validation and host name matching (OpenSSL) are the record \<open>pki\<close>;
  what the program relies on is \<open>pki_correct\<close>. That a handshake proves possession of the private
  key, and the record layer, are not modelled.
\<close>

section \<open>Certificates\<close>

text \<open>A name with one attribute, the only kind that is built.\<close>

datatype x509_name = Name (common_name: string)

datatype x509_extension =
    BasicConstraints bool "nat option"
  | SubjectAlternativeName "string list"

text \<open>What a \<^verbatim>\<open>CertificateBuilder\<close> holds; an extension carries its critical flag. Times are in seconds.\<close>

record cert_spec =
  cs_subject :: x509_name
  cs_issuer :: x509_name
  cs_public :: bytes
  cs_serial :: nat
  cs_not_before :: int
  cs_not_after :: int
  cs_extensions :: "(x509_extension \<times> bool) list"

record pki =
  ec_public :: "bytes \<Rightarrow> bytes"
  cert_sign :: "cert_spec \<Rightarrow> bytes \<Rightarrow> bytes"
    \<comment> \<open>\<^verbatim>\<open>builder.sign(key, SHA256)\<close>, as DER\<close>
  cert_subject :: "bytes \<Rightarrow> x509_name"
  pem_cert :: "bytes \<Rightarrow> bytes"
  pem_key :: "bytes \<Rightarrow> bytes"
  pem_cas :: "bytes \<Rightarrow> bytes list"
    \<comment> \<open>the certificates in a PEM file\<close>
  pem_leaf :: "bytes \<Rightarrow> bytes option"
  pem_private :: "bytes \<Rightarrow> bytes option"
  key_matches :: "bytes \<Rightarrow> bytes \<Rightarrow> bool"
  chain_ok :: "int \<Rightarrow> bytes list \<Rightarrow> bytes \<Rightarrow> bool"
    \<comment> \<open>path validation at a time, from trusted certificates to the peer's\<close>
  host_ok :: "bytes \<Rightarrow> string \<Rightarrow> bool"

definition valid_at :: "int \<Rightarrow> cert_spec \<Rightarrow> bool" where
  "valid_at now b \<longleftrightarrow> cs_not_before b \<le> now \<and> now \<le> cs_not_after b"

definition may_issue :: "cert_spec \<Rightarrow> bytes \<Rightarrow> pki \<Rightarrow> bool" where
  "may_issue ca k p \<longleftrightarrow> cs_public ca = ec_public p k \<and> cs_issuer ca = cs_subject ca
     \<and> (BasicConstraints True None, True) \<in> set (cs_extensions ca)"

text \<open>
  The documented behaviour the program relies on: encodings are read back, a self-signed authority
  is a trust anchor for what it signed while both are valid, and a DNS name in the subject
  alternative names matches.
\<close>

definition pki_correct :: "pki \<Rightarrow> bool" where
  "pki_correct p \<longleftrightarrow>
     (\<forall>b k. cert_subject p (cert_sign p b k) = cs_subject b) \<and>
     (\<forall>d. pem_cas p (pem_cert p d) = [d] \<and> pem_leaf p (pem_cert p d) = Some d) \<and>
     (\<forall>k. pem_private p (pem_key p k) = Some k) \<and>
     (\<forall>b k k'. cs_public b = ec_public p k' \<longrightarrow> key_matches p (cert_sign p b k) k') \<and>
     (\<forall>ca leaf k now. may_issue ca k p \<longrightarrow> cs_issuer leaf = cs_subject ca \<longrightarrow> valid_at now ca \<longrightarrow> valid_at now leaf \<longrightarrow>
        chain_ok p now [cert_sign p ca k] (cert_sign p leaf k)) \<and>
     (\<forall>b k crit names n. (SubjectAlternativeName names, crit) \<in> set (cs_extensions b) \<longrightarrow> n \<in> set names \<longrightarrow>
        host_ok p (cert_sign p b k) n)"

text \<open>\<^verbatim>\<open>Path.write_bytes\<close>: \<open>wr\<close> tells for each path whether the write succeeds.\<close>

definition write_bytes :: "(string \<Rightarrow> unit res) \<Rightarrow> string \<Rightarrow> bytes \<Rightarrow> files \<Rightarrow> files res" where
  "write_bytes wr path data fs = bind_res (wr path) (\<lambda>_. Inr (fs(path \<mapsto> data)))"

definition path_join :: "string \<Rightarrow> string \<Rightarrow> string" where
  "path_join dir name = dir @ ''/'' @ name"

definition one_day :: int where
  "one_day = 86400"

definition ca_spec :: "pki \<Rightarrow> bytes \<Rightarrow> nat \<Rightarrow> int \<Rightarrow> cert_spec" where
  "ca_spec p key serial now =
     \<lparr>cs_subject = Name ''test-ca'', cs_issuer = Name ''test-ca'', cs_public = ec_public p key, cs_serial = serial,
      cs_not_before = now, cs_not_after = now + one_day, cs_extensions = [(BasicConstraints True None, True)]\<rparr>"

definition gen_ca :: "pki \<Rightarrow> (string \<Rightarrow> unit res) \<Rightarrow> string \<Rightarrow> bytes \<Rightarrow> nat \<Rightarrow> int \<Rightarrow> files \<Rightarrow> ((bytes \<times> bytes) \<times> files) res" where
  "gen_ca p wr tmp key serial now fs =
     (let cert = cert_sign p (ca_spec p key serial now) key in
      bind_res (write_bytes wr (path_join tmp ''ca.pem'') (pem_cert p cert) fs) (\<lambda>fs'.
      Inr ((key, cert), fs')))"

definition leaf_spec :: "pki \<Rightarrow> string \<Rightarrow> bytes \<Rightarrow> bool \<Rightarrow> bytes \<Rightarrow> nat \<Rightarrow> int \<Rightarrow> cert_spec" where
  "leaf_spec p cn ca_cert san key serial now =
     \<lparr>cs_subject = Name cn, cs_issuer = cert_subject p ca_cert, cs_public = ec_public p key, cs_serial = serial,
      cs_not_before = now, cs_not_after = now + one_day,
      cs_extensions = (if san then [(SubjectAlternativeName [''localhost''], False)] else [])\<rparr>"

definition gen_leaf :: "pki \<Rightarrow> (string \<Rightarrow> unit res) \<Rightarrow> string \<Rightarrow> string \<Rightarrow> bytes \<Rightarrow> bytes \<Rightarrow> bool \<Rightarrow> bytes \<Rightarrow> nat \<Rightarrow> int \<Rightarrow> files
    \<Rightarrow> (bytes \<times> files) res" where
  "gen_leaf p wr tmp cn ca_key ca_cert san key serial now fs =
     (let cert = cert_sign p (leaf_spec p cn ca_cert san key serial now) ca_key in
      bind_res (write_bytes wr (path_join tmp (cn @ ''.pem'')) (pem_cert p cert) fs) (\<lambda>fs1.
      bind_res (write_bytes wr (path_join tmp (cn @ ''.key'')) (pem_key p key) fs1) (\<lambda>fs2.
      Inr (cert, fs2))))"

section \<open>Contexts\<close>

text \<open>Version numbers as on the wire.\<close>

definition TLSv1_2 :: nat where "TLSv1_2 = 0x303"
definition TLSv1_3 :: nat where "TLSv1_3 = 0x304"

datatype tls_protocol = PROTOCOL_TLS_SERVER | PROTOCOL_TLS_CLIENT
datatype verify_mode = CERT_NONE | CERT_OPTIONAL | CERT_REQUIRED

record ssl_context =
  sc_protocol :: tls_protocol
  sc_minimum_version :: nat
  sc_verify_mode :: verify_mode
  sc_check_hostname :: bool
  sc_cas :: "bytes list"
  sc_chain :: "(bytes \<times> bytes) option"

definition SSLContext :: "tls_protocol \<Rightarrow> ssl_context" where
  "SSLContext prot =
     \<lparr>sc_protocol = prot, sc_minimum_version = TLSv1_2,
      sc_verify_mode = (if prot = PROTOCOL_TLS_CLIENT then CERT_REQUIRED else CERT_NONE),
      sc_check_hostname = (prot = PROTOCOL_TLS_CLIENT), sc_cas = [], sc_chain = None\<rparr>"

text \<open>The setters: host names cannot be checked without certificates.\<close>

definition set_verify_mode :: "verify_mode \<Rightarrow> ssl_context \<Rightarrow> ssl_context res" where
  "set_verify_mode m ctx =
     (if m = CERT_NONE \<and> sc_check_hostname ctx then Inl (ValueError ''Cannot set verify_mode to CERT_NONE'')
      else Inr (ctx\<lparr>sc_verify_mode := m\<rparr>))"

definition set_check_hostname :: "bool \<Rightarrow> ssl_context \<Rightarrow> ssl_context" where
  "set_check_hostname b ctx =
     ctx\<lparr>sc_check_hostname := b,
         sc_verify_mode := (if b \<and> sc_verify_mode ctx = CERT_NONE then CERT_REQUIRED else sc_verify_mode ctx)\<rparr>"

text \<open>\<^verbatim>\<open>ssl.SSLError\<close> is a subclass of \<^verbatim>\<open>OSError\<close>.\<close>

definition load_verify_locations :: "pki \<Rightarrow> files \<Rightarrow> string \<Rightarrow> ssl_context \<Rightarrow> ssl_context res" where
  "load_verify_locations p fs cafile ctx =
     bind_res (res_of_option FileNotFoundError (fs cafile)) (\<lambda>pem.
     if pem_cas p pem = [] then Inl OSError else Inr (ctx\<lparr>sc_cas := sc_cas ctx @ pem_cas p pem\<rparr>))"

definition load_cert_chain :: "pki \<Rightarrow> files \<Rightarrow> string \<Rightarrow> string \<Rightarrow> ssl_context \<Rightarrow> ssl_context res" where
  "load_cert_chain p fs certfile keyfile ctx =
     bind_res (res_of_option FileNotFoundError (fs certfile)) (\<lambda>cpem.
     bind_res (res_of_option FileNotFoundError (fs keyfile)) (\<lambda>kpem.
     bind_res (res_of_option OSError (pem_leaf p cpem)) (\<lambda>cert.
     bind_res (res_of_option OSError (pem_private p kpem)) (\<lambda>key.
     if key_matches p cert key then Inr (ctx\<lparr>sc_chain := Some (cert, key)\<rparr>) else Inl OSError))))"

definition server_context :: "pki \<Rightarrow> files \<Rightarrow> string \<Rightarrow> string \<Rightarrow> string \<Rightarrow> ssl_context res" where
  "server_context p fs server_cert server_key client_ca =
     bind_res (set_verify_mode CERT_REQUIRED ((SSLContext PROTOCOL_TLS_SERVER)\<lparr>sc_minimum_version := TLSv1_3\<rparr>)) (\<lambda>ctx.
     bind_res (load_verify_locations p fs client_ca ctx) (\<lambda>ctx.
     load_cert_chain p fs server_cert server_key ctx))"

definition client_context :: "pki \<Rightarrow> files \<Rightarrow> string \<Rightarrow> string \<Rightarrow> string \<Rightarrow> ssl_context res" where
  "client_context p fs client_cert client_key pinned_ca =
     bind_res (set_verify_mode CERT_REQUIRED ((SSLContext PROTOCOL_TLS_CLIENT)\<lparr>sc_minimum_version := TLSv1_3\<rparr>)) (\<lambda>ctx.
     bind_res (load_verify_locations p fs pinned_ca (set_check_hostname True ctx)) (\<lambda>ctx.
     load_cert_chain p fs client_cert client_key ctx))"

section \<open>Handshakes\<close>

text \<open>What a peer brings: its highest version and the certificate it can prove to own, if any.\<close>

record tls_peer =
  tp_version :: nat
  tp_cert :: "bytes option"

definition peer_cert_ok :: "pki \<Rightarrow> int \<Rightarrow> ssl_context \<Rightarrow> tls_peer \<Rightarrow> bool" where
  "peer_cert_ok p now ctx peer =
     (case tp_cert peer of
        None \<Rightarrow> sc_verify_mode ctx \<noteq> CERT_REQUIRED
      | Some d \<Rightarrow> sc_verify_mode ctx = CERT_NONE \<or> chain_ok p now (sc_cas ctx) d)"

text \<open>The server's verdict on a client.\<close>

definition server_admits :: "pki \<Rightarrow> int \<Rightarrow> ssl_context \<Rightarrow> tls_peer \<Rightarrow> bool" where
  "server_admits p now ctx peer \<longleftrightarrow> sc_minimum_version ctx \<le> tp_version peer \<and> peer_cert_ok p now ctx peer"

text \<open>The client's \<^verbatim>\<open>wrap_socket(raw, server_hostname)\<close> and \<^verbatim>\<open>getpeercert\<close>: the server's certificate, or an
  \<^verbatim>\<open>SSLError\<close>.\<close>

definition client_handshake :: "pki \<Rightarrow> int \<Rightarrow> ssl_context \<Rightarrow> string \<Rightarrow> tls_peer \<Rightarrow> bytes res" where
  "client_handshake p now ctx name peer =
     (case tp_cert peer of
        None \<Rightarrow> Inl OSError
      | Some d \<Rightarrow>
         (if sc_minimum_version ctx \<le> tp_version peer \<and> peer_cert_ok p now ctx peer
             \<and> (sc_check_hostname ctx \<longrightarrow> host_ok p d name)
          then Inr d else Inl OSError))"

text \<open>How the owner of a context appears to the other side; both ends of this program speak TLS 1.3.\<close>

definition peer_of :: "ssl_context \<Rightarrow> tls_peer" where
  "peer_of ctx = \<lparr>tp_version = TLSv1_3, tp_cert = map_option fst (sc_chain ctx)\<rparr>"

section \<open>Lemmas\<close>

lemma load_verify_Inr:
  "load_verify_locations p fs ca ctx = Inr ctx' \<longleftrightarrow>
   (\<exists>pem. fs ca = Some pem \<and> pem_cas p pem \<noteq> [] \<and> ctx' = ctx\<lparr>sc_cas := sc_cas ctx @ pem_cas p pem\<rparr>)"
  by (auto simp: load_verify_locations_def bind_res_Inr res_of_option_Inr)

lemma load_cert_chain_Inr:
  "load_cert_chain p fs cf kf ctx = Inr ctx' \<longleftrightarrow>
   (\<exists>cpem kpem cert key. fs cf = Some cpem \<and> fs kf = Some kpem \<and> pem_leaf p cpem = Some cert \<and> pem_private p kpem = Some key
      \<and> key_matches p cert key \<and> ctx' = ctx\<lparr>sc_chain := Some (cert, key)\<rparr>)"
  by (auto simp: load_cert_chain_def bind_res_Inr res_of_option_Inr)

lemma pki_correctD:
  assumes "pki_correct p"
  shows "cert_subject p (cert_sign p b k) = cs_subject b" "pem_cas p (pem_cert p d) = [d]" "pem_leaf p (pem_cert p d) = Some d"
    "pem_private p (pem_key p k) = Some k" "cs_public b = ec_public p k' \<Longrightarrow> key_matches p (cert_sign p b k) k'"
    "may_issue ca k p \<Longrightarrow> cs_issuer leaf = cs_subject ca \<Longrightarrow> valid_at now ca \<Longrightarrow> valid_at now leaf \<Longrightarrow>
       chain_ok p now [cert_sign p ca k] (cert_sign p leaf k)"
    "(SubjectAlternativeName names, crit) \<in> set (cs_extensions b) \<Longrightarrow> n \<in> set names \<Longrightarrow> host_ok p (cert_sign p b k) n"
  using assms unfolding pki_correct_def by blast+

text \<open>What the two contexts demand, once they could be set up.\<close>

lemma server_context_Inr:
  assumes "server_context p fs cert key ca = Inr ctx"
  obtains pem cpem kpem leaf sk where "fs ca = Some pem" "fs cert = Some cpem" "fs key = Some kpem" "pem_leaf p cpem = Some leaf"
    "pem_private p kpem = Some sk" "key_matches p leaf sk"
    "ctx = \<lparr>sc_protocol = PROTOCOL_TLS_SERVER, sc_minimum_version = TLSv1_3, sc_verify_mode = CERT_REQUIRED, sc_check_hostname = False,
       sc_cas = pem_cas p pem, sc_chain = Some (leaf, sk)\<rparr>"
  using assms
  by (auto simp: server_context_def bind_res_Inr set_verify_mode_def SSLContext_def load_verify_Inr load_cert_chain_Inr)

lemma client_context_Inr:
  assumes "client_context p fs cert key ca = Inr ctx"
  obtains pem cpem kpem leaf sk where "fs ca = Some pem" "fs cert = Some cpem" "fs key = Some kpem" "pem_leaf p cpem = Some leaf"
    "pem_private p kpem = Some sk" "key_matches p leaf sk"
    "ctx = \<lparr>sc_protocol = PROTOCOL_TLS_CLIENT, sc_minimum_version = TLSv1_3, sc_verify_mode = CERT_REQUIRED, sc_check_hostname = True,
       sc_cas = pem_cas p pem, sc_chain = Some (leaf, sk)\<rparr>"
  using assms
  by (auto simp: client_context_def bind_res_Inr set_verify_mode_def set_check_hostname_def SSLContext_def load_verify_Inr
      load_cert_chain_Inr)

lemma server_admits_strict:
  assumes "sc_minimum_version ctx = TLSv1_3" "sc_verify_mode ctx = CERT_REQUIRED"
  shows "server_admits p now ctx peer \<longleftrightarrow>
    TLSv1_3 \<le> tp_version peer \<and> (\<exists>d. tp_cert peer = Some d \<and> chain_ok p now (sc_cas ctx) d)"
  using assms by (auto simp: server_admits_def peer_cert_ok_def split: option.splits)

lemma client_handshake_strict:
  assumes "sc_minimum_version ctx = TLSv1_3" "sc_verify_mode ctx = CERT_REQUIRED" "sc_check_hostname ctx"
  shows "client_handshake p now ctx name peer = Inr d \<longleftrightarrow>
    TLSv1_3 \<le> tp_version peer \<and> tp_cert peer = Some d \<and> chain_ok p now (sc_cas ctx) d \<and> host_ok p d name"
  using assms by (auto simp: client_handshake_def peer_cert_ok_def split: option.splits)

text \<open>A public-key infrastructure with the documented behaviour: names for certificates, no checks.\<close>

definition sample_pki :: pki where
  "sample_pki = \<lparr>ec_public = id, cert_sign = (\<lambda>b k. encode (common_name (cs_subject b))), cert_subject = (\<lambda>d. Name (utf8_decode d)),
     pem_cert = id, pem_key = id, pem_cas = (\<lambda>d. [d]), pem_leaf = Some, pem_private = Some, key_matches = (\<lambda>d k. True),
     chain_ok = (\<lambda>now cas d. True), host_ok = (\<lambda>d n. True)\<rparr>"

lemma sample_pki_correct: "pki_correct sample_pki"
  by (simp add: pki_correct_def sample_pki_def)

end
