(* ===== verification/Krs_Serve.thy ===== *)
theory Krs_Serve
  imports Krs_Server Http Tls
begin

text \<open>
  The server around the handler: \<^verbatim>\<open>serve\<close> and \<^verbatim>\<open>_make_handler\<close> of \<^verbatim>\<open>src/src/krs_server.py\<close>, with what
  \<^verbatim>\<open>BaseHTTPRequestHandler\<close> does with the bytes of a request and of an answer, and the loop that
  accepts connections. The listening socket is wrapped, so that \<^verbatim>\<open>accept\<close> performs the handshake, in
  the loop itself and without a time limit, before a thread takes over.
\<close>

section \<open>From bytes to the handler and back\<close>

text \<open>
  \<^verbatim>\<open>json.loads\<close> on bytes, with its detection of the encoding, is a parameter; this is what the
  program relies on.
\<close>

definition reads_dumps :: "(bytes \<Rightarrow> json res) \<Rightarrow> bool" where
  "reads_dumps json_loads \<longleftrightarrow> (\<forall>j. json_wf j \<longrightarrow> json_loads (encode (dumps j)) = Inr j)"

text \<open>\<^verbatim>\<open>HTTP/x.y\<close> with decimal numbers of at most ten digits, below version 2.\<close>

definition version_ok :: "string \<Rightarrow> bool" where
  "version_ok v \<longleftrightarrow> take 5 v = ''HTTP/'' \<and>
     (case split_on CHR ''.'' (drop 5 v) of
        [a, b] \<Rightarrow> a \<noteq> [] \<and> b \<noteq> [] \<and> list_all is_digit (a @ b) \<and> length a \<le> 10 \<and> length b \<le> 10 \<and> dval a < 2
      | _ \<Rightarrow> False)"

text \<open>Leading slashes are reduced to one.\<close>

definition plain_path :: "string \<Rightarrow> string" where
  "plain_path s = (if take 2 s = ''//'' then CHR ''/'' # dropWhile (\<lambda>c. c = CHR ''/'') s else s)"

text \<open>
  The request that the library makes of the bytes on the connection. The handler class has \<^verbatim>\<open>do_POST\<close>
  only, so that any other method, like a malformed request line, is answered by the library (no
  value here) and does not reach the service.
\<close>

definition http_request_of :: "(bytes \<Rightarrow> json res) \<Rightarrow> bytes \<Rightarrow> http_request option" where
  "http_request_of json_loads raw =
     (case http_request_parts raw of (words, hs, rest) \<Rightarrow>
        (case words of
           [cmd, pth, ver] \<Rightarrow>
             (if version_ok ver \<and> cmd = ''POST'' then
                Some \<lparr>path = plain_path pth, content_length = header_get ''Content-Length'' hs,
                      body_json = (\<lambda>n. json_loads (if n < 0 then rest else take (nat n) rest))\<rparr>
              else None)
         | _ \<Rightarrow> None))"

definition http_do_POST ::
    "crypto \<Rightarrow> (bytes \<Rightarrow> json res) \<Rightarrow> krs_config \<Rightarrow> krs_draws \<Rightarrow> bytes \<Rightarrow> krs_cache \<Rightarrow> http_response option \<times> krs_cache" where
  "http_do_POST c json_loads cfg dr raw rc =
     (case http_request_of json_loads raw of
        None \<Rightarrow> (None, rc)
      | Some rq \<Rightarrow> (case do_POST c cfg dr rq rc of (resp, rc') \<Rightarrow> (Some resp, rc')))"

text \<open>The values of the fields the library adds, and its own error page.\<close>

record http_library =
  hl_server :: string
  hl_date :: string
  hl_error :: bytes

definition reply_bytes :: "http_library \<Rightarrow> http_response option \<Rightarrow> bytes" where
  "reply_bytes lib resp =
     (case resp of
        None \<Rightarrow> hl_error lib
      | Some r \<Rightarrow> http_reply (hl_server lib) (hl_date lib) (status r) (encode (dumps (body r))))"

section \<open>Serving connections\<close>

record krs_httpd =
  hd_host :: string
  hd_port :: int
  hd_cfg :: krs_config
  hd_ctx :: ssl_context

text \<open>\<open>bind\<close> is the result of binding the socket: the port it got.\<close>

definition serve ::
    "pki \<Rightarrow> files \<Rightarrow> (string \<Rightarrow> int \<Rightarrow> int res) \<Rightarrow> krs_config \<Rightarrow> string \<Rightarrow> int \<Rightarrow> string \<Rightarrow> string \<Rightarrow> string \<Rightarrow> krs_httpd res" where
  "serve p fs bind cfg host prt server_cert server_key client_ca =
     bind_res (server_context p fs server_cert server_key client_ca) (\<lambda>ctx.
     bind_res (bind host prt) (\<lambda>bound.
     Inr \<lparr>hd_host = host, hd_port = bound, hd_cfg = cfg, hd_ctx = ctx\<rparr>))"

text \<open>The command line: \<^verbatim>\<open>main\<close> from the parsed arguments to \<^verbatim>\<open>serve_forever\<close>.\<close>

record serve_args = krs_args +
  arg_host :: string
  arg_port :: int
  arg_server_cert :: string
  arg_server_key :: string
  arg_client_ca :: string

definition krs_serve_main ::
    "crypto \<Rightarrow> snp_host \<Rightarrow> pki \<Rightarrow> files \<Rightarrow> (string \<Rightarrow> int \<Rightarrow> int res) \<Rightarrow> (string \<rightharpoonup> string) \<Rightarrow> serve_args
     \<Rightarrow> (krs_httpd \<times> krs_cache) startup res" where
  "krs_serve_main c h p fs bind env args =
     bind_res (krs_main c h fs env (krs_args.truncate args)) (\<lambda>r.
     case r of
       UsageError m \<Rightarrow> Inr (UsageError m)
     | Started (cfg, rc) \<Rightarrow>
        bind_res (serve p fs bind cfg (arg_host args) (arg_port args) (arg_server_cert args) (arg_server_key args)
            (arg_client_ca args)) (\<lambda>httpd.
        Inr (Started (httpd, rc))))"

text \<open>A connection: its peer, whether it stays silent during the handshake, when it comes, and the
  requests it carries with the draws for each.\<close>

record connection =
  cn_peer :: tls_peer
  cn_silent :: bool
  cn_time :: int
  cn_requests :: "(krs_draws \<times> bytes) list"

fun answer_all :: "crypto \<Rightarrow> (bytes \<Rightarrow> json res) \<Rightarrow> http_library \<Rightarrow> krs_config \<Rightarrow> (krs_draws \<times> bytes) list \<Rightarrow> krs_cache
    \<Rightarrow> bytes list \<times> krs_cache" where
  "answer_all c json_loads lib cfg [] rc = ([], rc)"
| "answer_all c json_loads lib cfg ((dr, raw) # rqs) rc =
     (case http_do_POST c json_loads cfg dr raw rc of (resp, rc1) \<Rightarrow>
      case answer_all c json_loads lib cfg rqs rc1 of (resps, rc2) \<Rightarrow> (reply_bytes lib resp # resps, rc2))"

definition handle_conn :: "crypto \<Rightarrow> (bytes \<Rightarrow> json res) \<Rightarrow> http_library \<Rightarrow> pki \<Rightarrow> krs_httpd \<Rightarrow> connection \<Rightarrow> krs_cache
    \<Rightarrow> bytes list \<times> krs_cache" where
  "handle_conn c json_loads lib p httpd cn rc =
     (if server_admits p (cn_time cn) (hd_ctx httpd) (cn_peer cn)
      then answer_all c json_loads lib (hd_cfg httpd) (cn_requests cn) rc
      else ([], rc))"

text \<open>
  \<^verbatim>\<open>serve_forever\<close> on a queue of connections: the answers to each connection it gets to. A failed
  handshake drops the connection; a peer that never completes it keeps the loop waiting.
\<close>

fun accept_loop :: "crypto \<Rightarrow> (bytes \<Rightarrow> json res) \<Rightarrow> http_library \<Rightarrow> pki \<Rightarrow> krs_httpd \<Rightarrow> connection list \<Rightarrow> krs_cache
    \<Rightarrow> bytes list list \<times> krs_cache" where
  "accept_loop c json_loads lib p httpd [] rc = ([], rc)"
| "accept_loop c json_loads lib p httpd (cn # cns) rc =
     (if cn_silent cn then ([], rc)
      else (case handle_conn c json_loads lib p httpd cn rc of (a, rc1) \<Rightarrow>
            case accept_loop c json_loads lib p httpd cns rc1 of (as, rc2) \<Rightarrow> (a # as, rc2)))"

section \<open>Lemmas\<close>

lemma serve_ctx:
  assumes "serve p fs bind cfg host prt cert key ca = Inr httpd"
  obtains pem where "fs ca = Some pem" "sc_cas (hd_ctx httpd) = pem_cas p pem" "hd_cfg httpd = cfg"
    "sc_minimum_version (hd_ctx httpd) = TLSv1_3" "sc_verify_mode (hd_ctx httpd) = CERT_REQUIRED"
  using assms by (auto simp: serve_def bind_res_Inr elim!: server_context_Inr)

text \<open>The request the handler sees for a posted body, and that the client's bytes lead to it.\<close>

definition posted_request :: "(bytes \<Rightarrow> json res) \<Rightarrow> bytes \<Rightarrow> http_request" where
  "posted_request json_loads b =
     \<lparr>path = ''/verify'', content_length = Some (int_str (int (length b))),
      body_json = (\<lambda>n. json_loads (if n < 0 then b else take (nat n) b))\<rparr>"

lemma http_do_POST_posted:
  assumes "printable name"
  shows "http_do_POST c json_loads cfg dr (http_post name b) rc =
    (Some (fst (do_POST c cfg dr (posted_request json_loads b) rc)), snd (do_POST c cfg dr (posted_request json_loads b) rc))"
proof -
  obtain hs where hs: "http_request_parts (http_post name b) = ([''POST'', ''/verify'', ''HTTP/1.1''], hs, b)"
      "header_get ''Content-Length'' hs = Some (int_str (int (length b)))"
    using http_post_read [OF assms] by blast
  have "version_ok ''HTTP/1.1''" "plain_path ''/verify'' = ''/verify''" by code_simp+
  then show ?thesis using hs by (simp add: http_do_POST_def http_request_of_def posted_request_def split: prod.split)
qed

lemma accept_loop_append:
  assumes "\<forall>cn \<in> set before. \<not> cn_silent cn"
  shows "accept_loop c json_loads lib p httpd (before @ after) rc =
    (let (as, rc1) = accept_loop c json_loads lib p httpd before rc; (bs, rc2) = accept_loop c json_loads lib p httpd after rc1
     in (as @ bs, rc2))"
  using assms by (induction before arbitrary: rc) (auto simp: Let_def split: prod.splits)

definition sample_loads :: "bytes \<Rightarrow> json res" where
  "sample_loads b = loads (utf8_decode b)"

lemma sample_reads_dumps: "reads_dumps sample_loads"
  by (simp add: reads_dumps_def sample_loads_def loads_dumps)

text \<open>What a server started in production is configured with.\<close>

lemma krs_main_production:
  assumes "krs_main c h fs env args = Inr (Started (cfg, rc))" "arg_production args"
  obtains ms hex where "map_res fromhex (arg_measurement args) = Inr ms" "production cfg"
    "env (arg_cek_env args) = Some hex" "fromhex hex = Inr (cek cfg)"
    "verifier cfg = Some (\<lambda>r rd. fst (snp_verify h
       (SnpVerifier ''snpguest'' (arg_processor args) ms (arg_min_tcb args) True False None) fs r rd))"
  using assms by (auto simp: krs_main_def bind_res_Inr res_of_option_def KrsConfig_def split: if_splits option.splits)

lemma http_do_POST_Some:
  assumes "http_do_POST c json_loads cfg dr raw rc = (Some resp, rc')"
  obtains rq where "http_request_of json_loads raw = Some rq" "do_POST c cfg dr rq rc = (resp, rc')"
  using assms by (auto simp: http_do_POST_def split: prod.splits option.splits)

lemma serve_main_Inr:
  assumes "krs_serve_main c h p fs bind env args = Inr (Started (httpd, rc))"
  obtains cfg where "krs_main c h fs env (krs_args.truncate args) = Inr (Started (cfg, rc))"
    "serve p fs bind cfg (arg_host args) (arg_port args) (arg_server_cert args) (arg_server_key args) (arg_client_ca args) = Inr httpd"
proof -
  obtain r where r: "krs_main c h fs env (krs_args.truncate args) = Inr r"
    using assms by (auto simp: krs_serve_main_def bind_res_Inr)
  then show ?thesis using assms that
    by (cases r) (auto simp: krs_serve_main_def bind_res_Inr)
qed

section \<open>Properties\<close>

text \<open>
  C1. What a server started with \<^verbatim>\<open>--production\<close> guarantees for every key it releases, from the command
  line to the answer: the client presented, over TLS 1.3, a certificate that validates against the
  file given as \<^verbatim>\<open>--client-ca\<close>; the bytes it sent are a request whose report the SNP verifier of the
  command line accepted for the digest of the request's two public keys and nonce; the report
  carries that digest and one of the measurements given on the command line; the nonce was new
  and is now recorded; and the answer consists of the key from the environment wrapped to those
  public keys, that measurement, the request's nonce and the service's signature over these.
\<close>

theorem production_server_releases:
  assumes "krs_serve_main c h p fs bind env args = Inr (Started (httpd, rc0))" "arg_production args"
    and "server_admits p now (hd_ctx httpd) peer"
    and "http_do_POST c json_loads (hd_cfg httpd) dr raw rc = (Some resp, rc')" "status resp = 200"
  shows "\<exists>pem d ms hex key rq report x k nonce m x' ct w sig.
    fs (arg_client_ca args) = Some pem \<and> tp_cert peer = Some d \<and> chain_ok p now (pem_cas p pem) d \<and> TLSv1_3 \<le> tp_version peer \<and>
    map_res fromhex (arg_measurement args) = Inr ms \<and> env (arg_cek_env args) = Some hex \<and> fromhex hex = Inr key \<and>
    http_request_of json_loads raw = Some rq \<and> path rq = ''/verify'' \<and> parse_request rq = Inr (report, x, k, nonce) \<and>
    fst (snp_verify h (SnpVerifier ''snpguest'' (arg_processor args) ms (arg_min_tcb args) True False None) fs
      report (report_data_for x k nonce)) = Inr m \<and>
    parse_report_data report = fit 64 (report_data_for x k nonce) \<and>
    parse_measurement report = Inr m \<and> m \<in> (\<lambda>b. take 48 (ljust 48 0 b)) ` set ms \<and>
    sha256 nonce \<notin> krs_seen rc \<and> sha256 nonce \<in> krs_seen rc' \<and>
    wrap_cek c (draw_x dr) (draw_coins dr) (draw_nonce dr) x k key = Inr (x', ct, w) \<and>
    hybrid_sign c (signing_key (hd_cfg httpd)) (mldsa_sk (hd_cfg httpd)) (x' @ ct @ w @ m @ nonce) = Inr sig \<and>
    body resp = JObj [(''verified'', JBool True), (''krs_x_pub'', JHex x'), (''kem_ct'', JB64 ct), (''session_key'', JB64 w),
      (''measurement'', JHex m), (''nonce_echo'', JB64 nonce), (''krs_signature'', JB64 sig)]"
proof -
  obtain cfg where mn: "krs_main c h fs env (krs_args.truncate args) = Inr (Started (cfg, rc0))"
      and sv: "serve p fs bind cfg (arg_host args) (arg_port args) (arg_server_cert args) (arg_server_key args) (arg_client_ca args) = Inr httpd"
    using assms(1) by (rule serve_main_Inr)
  obtain pem where x: "fs (arg_client_ca args) = Some pem" "sc_cas (hd_ctx httpd) = pem_cas p pem" "hd_cfg httpd = cfg"
      "sc_minimum_version (hd_ctx httpd) = TLSv1_3" "sc_verify_mode (hd_ctx httpd) = CERT_REQUIRED"
    using sv by (rule serve_ctx)
  have peer: "TLSv1_3 \<le> tp_version peer" "\<exists>d. tp_cert peer = Some d \<and> chain_ok p now (pem_cas p pem) d"
    using assms(3) server_admits_strict [OF x(4,5)] x(2) by simp_all
  have prd: "arg_production (krs_args.truncate args)" using assms(2) by (simp add: krs_args.defs)
  from krs_main_production [OF mn prd] obtain ms hex where ms: "map_res fromhex (arg_measurement args) = Inr ms" "production cfg"
      "env (arg_cek_env args) = Some hex" "fromhex hex = Inr (cek cfg)"
      "verifier cfg = Some (\<lambda>r rd. fst (snp_verify h (SnpVerifier ''snpguest'' (arg_processor args) ms
         (arg_min_tcb args) True False None) fs r rd))"
    unfolding krs_args.defs by auto
  obtain rq where rq: "http_request_of json_loads raw = Some rq" "do_POST c cfg dr rq rc = (resp, rc')"
    using assms(4) x(3) by (auto elim: http_do_POST_Some)
  then have ok: "status (fst (do_POST c cfg dr rq rc)) = 200" using assms(5) by simp
  obtain report y k nonce m x' ct w sig where r: "path rq = ''/verify''"
      "parse_request rq = Inr (report, y, k, nonce)" "sha256 nonce \<notin> krs_seen rc" "sha256 nonce \<in> krs_seen rc'"
      "attest cfg report (report_data_for y k nonce) = Inr m"
      "wrap_cek c (draw_x dr) (draw_coins dr) (draw_nonce dr) y k (cek cfg) = Inr (x', ct, w)"
      "hybrid_sign c (signing_key cfg) (mldsa_sk cfg) (x' @ ct @ w @ m @ nonce) = Inr sig"
      "resp = \<lparr>status = 200, body = JObj [(''verified'', JBool True), (''krs_x_pub'', JHex x'), (''kem_ct'', JB64 ct),
        (''session_key'', JB64 w), (''measurement'', JHex m), (''nonce_echo'', JB64 nonce), (''krs_signature'', JB64 sig)]\<rparr>"
    by (rule do_POST_released [OF ok, unfolded rq(2) fst_conv snd_conv])
  have g: "fst (snp_verify h (SnpVerifier ''snpguest'' (arg_processor args) ms (arg_min_tcb args) True False None) fs
      report (report_data_for y k nonce)) = Inr m"
    using r(5) ms(2,5) by (simp add: attest_def)
  have "m \<in> (\<lambda>b. take 48 (ljust 48 0 b)) ` set ms" using snpg.gate_allowed [OF g] by (simp add: SnpVerifier_def)
  moreover have "body resp = JObj [(''verified'', JBool True), (''krs_x_pub'', JHex x'), (''kem_ct'', JB64 ct),
      (''session_key'', JB64 w), (''measurement'', JHex m), (''nonce_echo'', JB64 nonce), (''krs_signature'', JB64 sig)]"
    using r(8) by simp
  ultimately show ?thesis
    using x(1) peer ms(1,3,4) rq(1) r(1-4,6,7) g snpg.gate_measurement [OF g] snpg.gate_binding [OF g] unfolding x(3) by blast
qed

text \<open>
  C10. Only a client with a certificate of the configured authority reaches the service: a connection
  that gets an answer, or that changes the replay cache, came from a peer that speaks TLS 1.3 and
  presented a certificate that validates, at that time, against the file given as \<^verbatim>\<open>client_ca\<close>.
\<close>

theorem mtls_gate:
  assumes "serve p fs bind cfg host prt cert key ca = Inr httpd"
    and "fst (handle_conn c json_loads lib p httpd cn rc) \<noteq> [] \<or> snd (handle_conn c json_loads lib p httpd cn rc) \<noteq> rc"
  shows "TLSv1_3 \<le> tp_version (cn_peer cn) \<and>
    (\<exists>pem d. fs ca = Some pem \<and> tp_cert (cn_peer cn) = Some d \<and> chain_ok p (cn_time cn) (pem_cas p pem) d)"
proof -
  obtain pem where x: "fs ca = Some pem" "sc_cas (hd_ctx httpd) = pem_cas p pem"
      "sc_minimum_version (hd_ctx httpd) = TLSv1_3" "sc_verify_mode (hd_ctx httpd) = CERT_REQUIRED"
    using assms(1) by (rule serve_ctx)
  have "server_admits p (cn_time cn) (hd_ctx httpd) (cn_peer cn)"
    using assms(2) by (auto simp: handle_conn_def split: if_splits)
  then show ?thesis using x server_admits_strict [OF x(3,4)] by auto
qed

theorem mtls_gate_witness:
  "TLSv1_3 \<le> tp_version \<lparr>tp_version = TLSv1_3, tp_cert = Some [7]\<rparr> \<and>
    (\<exists>pem d. Some [1 :: byte] = Some pem \<and> tp_cert \<lparr>tp_version = TLSv1_3, tp_cert = Some [7]\<rparr> = Some d
      \<and> chain_ok sample_pki 0 (pem_cas sample_pki pem) d)"
proof -
  define cfg where "cfg = \<lparr>signing_key = [], mldsa_sk = [], cek = [], verifier = None, production = False\<rparr>"
  define cn where "cn = \<lparr>cn_peer = \<lparr>tp_version = TLSv1_3, tp_cert = Some [7]\<rparr>, cn_silent = False, cn_time = 0,
    cn_requests = [(\<lparr>draw_x = [], draw_coins = [], draw_nonce = []\<rparr>, [])]\<rparr>"
  obtain httpd where s: "serve sample_pki (\<lambda>f. Some [1]) (\<lambda>h p. Inr p) cfg ''krs'' 443 ''cert'' ''key'' ''ca'' = Inr httpd"
    by (simp add: serve_def server_context_def set_verify_mode_def SSLContext_def load_verify_locations_def load_cert_chain_def sample_pki_def)
  obtain pem where x: "sc_minimum_version (hd_ctx httpd) = TLSv1_3" "sc_verify_mode (hd_ctx httpd) = CERT_REQUIRED"
    using s by (rule serve_ctx)
  have "server_admits sample_pki 0 (hd_ctx httpd) \<lparr>tp_version = TLSv1_3, tp_cert = Some [7]\<rparr>"
    using server_admits_strict [OF x] by (simp add: sample_pki_def)
  then have "fst (handle_conn sample_crypto sample_loads lib sample_pki httpd cn rc) \<noteq> []" for lib rc
    by (simp add: handle_conn_def cn_def split: prod.split)
  then show ?thesis using mtls_gate [OF s, of sample_crypto sample_loads _ cn] by (simp add: cn_def)
qed

text \<open>
  A silent client stops the service: once a connection does not complete its handshake, no
  connection after it is ever answered and the replay cache stays as it is, although every admitted
  connection would get a thread of its own.
\<close>

theorem silent_client_blocks:
  assumes "cn_silent cn" "\<forall>b \<in> set before. \<not> cn_silent b"
  shows "accept_loop c json_loads lib p httpd (before @ cn # after) rc = accept_loop c json_loads lib p httpd before rc
    \<and> length (fst (accept_loop c json_loads lib p httpd (before @ cn # after) rc)) = length before"
proof -
  have "length (fst (accept_loop c json_loads lib p httpd before rc)) = length before"
    using assms(2) by (induction before arbitrary: rc) (auto simp: case_prod_unfold)
  then show ?thesis using assms accept_loop_append [OF assms(2), of c json_loads lib p httpd "cn # after" rc]
    by (auto simp: Let_def split: prod.splits)
qed

end
