(* ===== verification/Effects.thy ===== *)
theory Effects
  imports Prelude
begin

text \<open>
  Statements that change a state and may raise: a state change made before an exception stays.
  \<open>bind_st\<close> is sequencing, \<open>lift_res\<close> a call that only computes, \<open>update_st\<close> an assignment,
  \<open>finally_st\<close> a \<^verbatim>\<open>try\<close> with a clean-up,
  \<open>catch_all\<close> a \<^verbatim>\<open>try\<close> whose handlers cover every exception. \<open>keeps\<close> states what a statement leaves
  of an invariant on every way out.
\<close>

type_synonym ('s, 'a) st = "'s \<Rightarrow> 'a res \<times> 's"

definition bind_st :: "('s, 'a) st \<Rightarrow> ('a \<Rightarrow> ('s, 'b) st) \<Rightarrow> ('s, 'b) st" where
  "bind_st m f s = (case m s of (Inl e, s') \<Rightarrow> (Inl e, s') | (Inr x, s') \<Rightarrow> f x s')"

definition lift_res :: "'a res \<Rightarrow> ('s, 'a) st" where
  "lift_res r s = (r, s)"

definition update_st :: "('s \<Rightarrow> 's) \<Rightarrow> ('s, unit) st" where
  "update_st f s = (Inr (), f s)"

definition get_st :: "('s \<Rightarrow> 'a) \<Rightarrow> ('s, 'a) st" where
  "get_st f s = (Inr (f s), s)"

definition catch_all :: "('s, 'a) st \<Rightarrow> (exn \<Rightarrow> 's \<Rightarrow> 'a \<times> 's) \<Rightarrow> 's \<Rightarrow> 'a \<times> 's" where
  "catch_all m h s = (case m s of (Inl e, s') \<Rightarrow> h e s' | (Inr x, s') \<Rightarrow> (x, s'))"

text \<open>\<open>finally_st m f\<close> is \<^verbatim>\<open>try: m finally: f\<close> for a clean-up \<open>f\<close> that does not raise.\<close>

definition finally_st :: "('s, 'a) st \<Rightarrow> ('s \<Rightarrow> 's) \<Rightarrow> ('s, 'a) st" where
  "finally_st m f s = (case m s of (r, s') \<Rightarrow> (r, f s'))"

lemma finally_st_simps [simp]:
  "fst (finally_st m f s) = fst (m s)"
  "snd (finally_st m f s) = f (snd (m s))"
  by (simp_all add: finally_st_def split: prod.split)

lemma st_simps [simp]:
  "lift_res r s = (r, s)"
  "update_st f s = (Inr (), f s)"
  "get_st g s = (Inr (g s), s)"
  by (simp_all add: lift_res_def update_st_def get_st_def)

lemma bind_st_eq:
  "m s = (Inl e, s') \<Longrightarrow> bind_st m f s = (Inl e, s')"
  "m s = (Inr x, s') \<Longrightarrow> bind_st m f s = f x s'"
  by (simp_all add: bind_st_def)

lemma bind_st_lift [simp]:
  "bind_st (lift_res (Inr x)) f = f x"
  "bind_st (lift_res (Inl e)) f s = (Inl e, s)"
  "bind_st (update_st g) h s = h () (g s)"
  "bind_st (get_st k) f s = f (k s) s"
  by (auto simp: bind_st_def lift_res_def update_st_def get_st_def)

lemma bind_st_Inr:
  "bind_st m f s = (Inr y, s') \<longleftrightarrow> (\<exists>x s1. m s = (Inr x, s1) \<and> f x s1 = (Inr y, s'))"
  by (auto simp: bind_st_def split: prod.splits sum.splits)

text \<open>An invariant that a statement keeps whether or not it raises.\<close>

definition keeps :: "('s \<Rightarrow> bool) \<Rightarrow> ('s, 'a) st \<Rightarrow> bool" where
  "keeps I m \<longleftrightarrow> (\<forall>s. I s \<longrightarrow> I (snd (m s)))"

lemma keepsD: "keeps I m \<Longrightarrow> I s \<Longrightarrow> m s = (r, s') \<Longrightarrow> I s'"
  by (metis keeps_def snd_conv)

lemma keeps_bind: "keeps I m \<Longrightarrow> (\<And>x. keeps I (f x)) \<Longrightarrow> keeps I (bind_st m f)"
  by (auto simp: keeps_def bind_st_def split: prod.splits sum.splits)

lemma keeps_lift: "keeps I (lift_res r)"
  by (simp add: keeps_def)

lemma keeps_get: "keeps I (get_st f)"
  by (simp add: keeps_def)

lemma keeps_update: "(\<And>s. I s \<Longrightarrow> I (f s)) \<Longrightarrow> keeps I (update_st f)"
  by (simp add: keeps_def)

lemma keeps_if: "(b \<Longrightarrow> keeps I m) \<Longrightarrow> (\<not> b \<Longrightarrow> keeps I m') \<Longrightarrow> keeps I (if b then m else m')"
  by simp

lemma keeps_case_prod: "(\<And>a b. keeps I (f a b)) \<Longrightarrow> keeps I (case p of (a, b) \<Rightarrow> f a b)"
  by (cases p) simp

lemma keeps_case_prod_app: "(\<And>a b. keeps I (f a b x)) \<Longrightarrow> keeps I ((case p of (a, b) \<Rightarrow> f a b) x)"
  by (cases p) simp

text \<open>Values and states of a sequence, for the steps whose value does not depend on the state.\<close>

lemma fst_bind_st: "fst (bind_st m f s) = (case fst (m s) of Inl e \<Rightarrow> Inl e | Inr x \<Rightarrow> fst (f x (snd (m s))))"
  by (simp add: bind_st_def split: prod.split sum.split)

lemma snd_bind_st: "snd (bind_st m f s) = (case fst (m s) of Inl e \<Rightarrow> snd (m s) | Inr x \<Rightarrow> snd (f x (snd (m s))))"
  by (simp add: bind_st_def split: prod.split sum.split)

lemma snd_bind_st_raise: "fst (m s) = Inl e \<Longrightarrow> snd (bind_st m f s) = snd (m s)"
  by (cases "m s") (simp add: bind_st_def)

lemma keeps_raising:
  assumes "keeps I m" "\<And>s. \<exists>e. fst (m s) = Inl e" shows "keeps I (bind_st m f)"
  unfolding keeps_def
proof (intro allI impI)
  fix s assume "I s"
  obtain e where "fst (m s) = Inl e" using assms(2) by blast
  then show "I (snd (bind_st m f s))" using assms(1) \<open>I s\<close> by (simp add: snd_bind_st_raise keeps_def)
qed

lemmas keeps_intros = keeps_bind keeps_lift keeps_get keeps_update keeps_if keeps_case_prod keeps_case_prod_app

end
