(* ===== verification/Krs_Client.thy ===== *)
theory Krs_Client
  imports Krs_Serve Effects
begin

text \<open>
  \<^verbatim>\<open>src/src/krs_client.py\<close>: the URL split, the pinned configuration with its TLS context and \<^verbatim>\<open>release\<close>.
  The network is the record \<open>krs_net\<close>: what the connection, the handshake under a context (the peer
  certificate), \<^verbatim>\<open>sendall\<close> and the successive calls of \<^verbatim>\<open>recv\<close> return, and what \<^verbatim>\<open>json.loads\<close> makes of
  bytes. \<^verbatim>\<open>release\<close> works on a state that says which socket objects own an open descriptor and what was
  handed to \<^verbatim>\<open>sendall\<close>. The last sections join the client to the server of \<open>Krs_Serve\<close>.
\<close>

section \<open>The client object\<close>

text \<open>\<open>s.lower().replace(":", "")\<close> on ASCII text.\<close>

definition normalise_fpr :: "string \<Rightarrow> string" where
  "normalise_fpr s = filter (\<lambda>c. c \<noteq> CHR '':'') (map lower_char s)"

definition split_url :: "string \<Rightarrow> (string \<times> int) res" where
  "split_url url =
     (let u = (case py_partition ''://'' url of (a, f, b) \<Rightarrow> if f then b else a);
          authority = fst (py_partition ''/'' u)
      in case py_partition '':'' authority of
           (host, f, port) \<Rightarrow>
             (if port = [] then Inr (host, 443)
              else bind_res (py_int port) (\<lambda>p. Inr (host, p))))"

record krs_client =
  host :: string
  port :: int
  server_name :: string
  pinned_server_fpr :: string
  krs_ed_pub :: bytes
  krs_mldsa_pub :: bytes
  krs_ctx :: ssl_context

definition KrsClient ::
    "crypto \<Rightarrow> pki \<Rightarrow> files \<Rightarrow> string \<Rightarrow> string \<Rightarrow> string \<Rightarrow> string \<Rightarrow> string \<Rightarrow> bytes \<Rightarrow> bytes \<Rightarrow> string \<Rightarrow> krs_client res" where
  "KrsClient c p fs url client_cert client_key pinned_ca fpr signing_pub mldsa_pub name =
     bind_res (split_url url) (\<lambda>(h, prt).
     bind_res (ed25519_load c signing_pub) (\<lambda>ed.
     bind_res (client_context p fs client_cert client_key pinned_ca) (\<lambda>ctx.
     Inr \<lparr>host = h, port = prt, server_name = name, pinned_server_fpr = normalise_fpr fpr,
          krs_ed_pub = ed, krs_mldsa_pub = mldsa_pub, krs_ctx = ctx\<rparr>)))"

record krs_net =
  connect :: "string \<Rightarrow> int \<Rightarrow> unit res"
  handshake :: "ssl_context \<Rightarrow> string \<Rightarrow> bytes res"
    \<comment> \<open>the peer certificate in DER, or an SSL error\<close>
  send_all :: "bytes \<Rightarrow> unit res"
  received :: "bytes \<Rightarrow> bytes res list"
    \<comment> \<open>what the calls of \<^verbatim>\<open>recv\<close> return after these bytes were sent; then the peer has closed\<close>
  json_loads :: "bytes \<Rightarrow> json res"

definition release_body :: "bytes \<Rightarrow> bytes \<Rightarrow> bytes \<Rightarrow> bytes \<Rightarrow> bytes \<Rightarrow> string \<Rightarrow> json" where
  "release_body report client_x_pub client_kem_pub nonce channel_binding tee_type =
     JObj [(''report'', JHex report), (''client_x_pub'', JHex client_x_pub),
           (''client_kem_pub'', JHex client_kem_pub), (''nonce'', JB64 nonce),
           (''channel_binding'', JB64 channel_binding), (''tee_type'', JStr tee_type)]"

text \<open>The part of \<^verbatim>\<open>release\<close> after the response: refusal, fields, signature, echo, unwrap.\<close>

definition accept_response ::
    "crypto \<Rightarrow> krs_client \<Rightarrow> bytes \<Rightarrow> bytes \<Rightarrow> bytes \<Rightarrow> bytes \<Rightarrow> bytes \<Rightarrow> json \<Rightarrow> (bytes \<times> bytes) res" where
  "accept_response c cl x_eph kem client_x_pub client_kem_pub nonce result =
     bind_res (json_get result ''verified'' JNull) (\<lambda>verified.
     bind_res (raise_if (\<not> json_truthy verified) (KrsError ''KRS refused'')) (\<lambda>_.
     bind_res (hex_field result ''krs_x_pub'') (\<lambda>krs_x_pub.
     bind_res (b64_field result ''kem_ct'') (\<lambda>kem_ct.
     bind_res (b64_field result ''session_key'') (\<lambda>wrapped.
     bind_res (hex_field result ''measurement'') (\<lambda>measurement.
     bind_res (b64_field result ''krs_signature'') (\<lambda>sig.
     bind_res (hybrid_verify c (krs_ed_pub cl) (krs_mldsa_pub cl)
        (krs_x_pub @ kem_ct @ wrapped @ measurement @ nonce) sig) (\<lambda>ok.
     bind_res (raise_if (\<not> ok) (KrsError ''KRS response hybrid signature invalid'')) (\<lambda>_.
     bind_res (json_get result ''nonce_echo'' (JStr [])) (\<lambda>echo.
     bind_res (json_b64decode echo) (\<lambda>echoed.
     bind_res (raise_if (echoed \<noteq> nonce) (KrsError ''KRS nonce echo mismatch (replay?)'')) (\<lambda>_.
     bind_res (except_res
          (unwrap_cek c x_eph kem client_x_pub client_kem_pub krs_x_pub kem_ct wrapped)
          (\<lambda>e. Inl (KrsError ''CEK hybrid unwrap failed''))) (\<lambda>key.
     Inr (key, measurement))))))))))))))"

section \<open>Sockets\<close>

text \<open>
  The receive loop. A peer that neither closes nor fails keeps it going, so over an endless supply of
  \<^verbatim>\<open>recv\<close> results it may not return; \<open>recv_loop\<close> is the loop over the results up to the end of a
  connection, and \<open>recv_stream_iff\<close> below relates the two.
\<close>

partial_function (option) recv_stream :: "(nat \<Rightarrow> bytes res) \<Rightarrow> nat \<Rightarrow> bytes \<Rightarrow> bytes res option" where
  "recv_stream recv i resp =
     (case recv i of
        Inl e \<Rightarrow> Some (Inl e)
      | Inr chunk \<Rightarrow> (if chunk = [] then Some (Inr resp) else recv_stream recv (Suc i) (resp @ chunk)))"

fun recv_loop :: "bytes \<Rightarrow> bytes res list \<Rightarrow> bytes res" where
  "recv_loop resp [] = Inr resp"
| "recv_loop resp (Inl e # rs) = Inl e"
| "recv_loop resp (Inr chunk # rs) = (if chunk = [] then Inr resp else recv_loop (resp @ chunk) rs)"

text \<open>The two socket objects of \<^verbatim>\<open>release\<close> and the requests handed to \<^verbatim>\<open>sendall\<close>.\<close>

record sockets =
  raw_open :: bool
  tls_open :: bool
  sent :: "bytes list"

definition no_sockets :: sockets where
  "no_sockets = \<lparr>raw_open = False, tls_open = False, sent = []\<rparr>"

definition create_connection :: "krs_net \<Rightarrow> string \<Rightarrow> int \<Rightarrow> (sockets, unit) st" where
  "create_connection net h p = bind_st (lift_res (connect net h p)) (\<lambda>_. update_st (\<lambda>s. s\<lparr>raw_open := True\<rparr>))"

text \<open>
  \<^verbatim>\<open>SSLContext.wrap_socket\<close> of the standard library: after the check of its arguments it detaches the
  descriptor from the given socket, which from then on owns none; when the handshake fails, it
  closes the TLS socket before the exception leaves.
\<close>

definition wrap_socket :: "krs_net \<Rightarrow> ssl_context \<Rightarrow> string \<Rightarrow> (sockets, bytes) st" where
  "wrap_socket net ctx name s =
     (if sc_check_hostname ctx \<and> name = [] then (Inl (ValueError ''check_hostname requires server_hostname''), s)
      else case handshake net ctx name of
             Inl e \<Rightarrow> (Inl e, s\<lparr>raw_open := False\<rparr>)
           | Inr peer \<Rightarrow> (Inr peer, s\<lparr>raw_open := False, tls_open := True\<rparr>))"

definition tls_sendall :: "krs_net \<Rightarrow> bytes \<Rightarrow> (sockets, unit) st" where
  "tls_sendall net req = bind_st (update_st (\<lambda>s. s\<lparr>sent := sent s @ [req]\<rparr>)) (\<lambda>_. lift_res (send_all net req))"

definition raw_close :: "sockets \<Rightarrow> sockets" where
  "raw_close s = s\<lparr>raw_open := False\<rparr>"

section \<open>Release\<close>

definition release_request :: "krs_client \<Rightarrow> bytes \<Rightarrow> bytes \<Rightarrow> bytes \<Rightarrow> bytes \<Rightarrow> string \<Rightarrow> bytes \<Rightarrow> bytes" where
  "release_request cl report client_x_pub client_kem_pub nonce tee_type peer =
     http_post (server_name cl) (encode (dumps
       (release_body report client_x_pub client_kem_pub nonce (sha256 peer) tee_type)))"

text \<open>The body of the \<^verbatim>\<open>try\<close>: handshake, pin, request, response.\<close>

definition transfer ::
    "krs_client \<Rightarrow> krs_net \<Rightarrow> bytes \<Rightarrow> bytes \<Rightarrow> bytes \<Rightarrow> bytes \<Rightarrow> string \<Rightarrow> (sockets, bytes) st" where
  "transfer cl net report client_x_pub client_kem_pub nonce tee_type =
     bind_st (wrap_socket net (krs_ctx cl) (server_name cl)) (\<lambda>peer.
     bind_st (lift_res (raise_if (sha256_hex peer \<noteq> pinned_server_fpr cl)
         (KrsError ''server cert fingerprint mismatch''))) (\<lambda>_.
     let req = release_request cl report client_x_pub client_kem_pub nonce tee_type peer in
     bind_st (tls_sendall net req) (\<lambda>_.
     lift_res (recv_loop [] (received net req)))))"

text \<open>\<^verbatim>\<open>release\<close>, with the 32 bytes it draws as its nonce.\<close>

definition release_run ::
    "crypto \<Rightarrow> krs_client \<Rightarrow> krs_net \<Rightarrow> bytes \<Rightarrow> bytes \<Rightarrow> bytes \<Rightarrow> bytes \<Rightarrow> string \<Rightarrow> (sockets, bytes \<times> bytes) st" where
  "release_run c cl net nonce report x_eph kem tee_type =
     (let client_x_pub = x25519_public c x_eph; client_kem_pub = oqs_kem_public c kem in
      bind_st (create_connection net (host cl) (port cl)) (\<lambda>_.
      bind_st (finally_st (transfer cl net report client_x_pub client_kem_pub nonce tee_type) raw_close) (\<lambda>resp.
      bind_st (lift_res (json_loads net (http_payload resp))) (\<lambda>result.
      lift_res (accept_response c cl x_eph kem client_x_pub client_kem_pub nonce result)))))"

text \<open>What its caller gets.\<close>

definition krs_release ::
    "crypto \<Rightarrow> krs_client \<Rightarrow> krs_net \<Rightarrow> bytes \<Rightarrow> bytes \<Rightarrow> bytes \<Rightarrow> bytes \<Rightarrow> string \<Rightarrow> (bytes \<times> bytes) res" where
  "krs_release c cl net nonce report x_eph kem tee_type =
     fst (release_run c cl net nonce report x_eph kem tee_type no_sockets)"

section \<open>Lemmas\<close>

text \<open>What acceptance of a response implies.\<close>

lemma accept_response_Inr:
  "accept_response c cl x_eph kem xp kp nonce result = Inr (key, m) \<longleftrightarrow>
   (\<exists>v krs_x_pub kem_ct wrapped sig echo.
      json_get result ''verified'' JNull = Inr v \<and> json_truthy v \<and>
      hex_field result ''krs_x_pub'' = Inr krs_x_pub \<and>
      b64_field result ''kem_ct'' = Inr kem_ct \<and>
      b64_field result ''session_key'' = Inr wrapped \<and>
      hex_field result ''measurement'' = Inr m \<and>
      b64_field result ''krs_signature'' = Inr sig \<and>
      hybrid_verify c (krs_ed_pub cl) (krs_mldsa_pub cl)
        (krs_x_pub @ kem_ct @ wrapped @ m @ nonce) sig = Inr True \<and>
      json_get result ''nonce_echo'' (JStr []) = Inr echo \<and> json_b64decode echo = Inr nonce \<and>
      unwrap_cek c x_eph kem xp kp krs_x_pub kem_ct wrapped = Inr key)"
  unfolding accept_response_def by (auto simp: bind_res_Inr split: sum.splits)

text \<open>The receive loop does not depend on how the bytes were cut into pieces.\<close>

lemma recv_loop_pieces: "[] \<notin> set cs \<Longrightarrow> recv_loop acc (map Inr cs) = Inr (acc @ concat cs)"
  by (induction cs arbitrary: acc) auto

text \<open>
  The endless loop returns exactly when some \<^verbatim>\<open>recv\<close> fails or returns nothing, and then with the result
  of the finite one on the calls up to the first of these.
\<close>

definition recv_ends :: "bytes res \<Rightarrow> bool" where
  "recv_ends r = (case r of Inl e \<Rightarrow> True | Inr chunk \<Rightarrow> chunk = [])"

lemma recv_stream_step:
  "recv_stream recv i acc =
   (if recv_ends (recv i) then Some (recv_loop acc [recv i])
    else recv_stream recv (Suc i) (acc @ projr (recv i)))"
  by (subst recv_stream.simps) (auto simp: recv_ends_def split: sum.split)

lemma recv_loop_more: "\<not> recv_ends r \<Longrightarrow> recv_loop acc (r # rs) = recv_loop (acc @ projr r) rs"
  by (cases r) (auto simp: recv_ends_def)

lemma recv_stream_first_end:
  "recv_ends (recv (i + n)) \<Longrightarrow> (\<And>j. j < n \<Longrightarrow> \<not> recv_ends (recv (i + j))) \<Longrightarrow>
   recv_stream recv i acc = Some (recv_loop acc (map recv [i..<Suc (i + n)]))"
proof (induction n arbitrary: i acc)
  case 0
  then show ?case by (simp add: recv_stream_step [of recv i])
next
  case (Suc n)
  have go: "\<not> recv_ends (recv i)" using Suc.prems(2) [of 0] by simp
  have "\<not> recv_ends (recv (Suc i + j))" if "j < n" for j using Suc.prems(2) [of "Suc j"] that by simp
  then have "recv_stream recv (Suc i) (acc @ projr (recv i)) =
      Some (recv_loop (acc @ projr (recv i)) (map recv [Suc i..<Suc (Suc i + n)]))"
    using Suc.IH [of "Suc i"] Suc.prems(1) by simp
  moreover have "[i..<Suc (i + Suc n)] = i # [Suc i..<Suc (Suc i + n)]"
    by (simp add: upt_conv_Cons del: upt_Suc)
  ultimately show ?case using go by (simp add: recv_stream_step [of recv i] recv_loop_more del: upt_Suc)
qed

lemma recv_stream_returns_end:
  "recv_stream recv i acc = Some r \<Longrightarrow> \<exists>n. recv_ends (recv (i + n))"
proof (rule recv_stream.raw_induct [where P = "\<lambda>recv i acc r. \<exists>n. recv_ends (recv (i + n))"], goal_cases)
  case (1 f recv i acc r)
  show ?case
  proof (cases "recv_ends (recv i)")
    case True
    then show ?thesis by (metis add_0_right)
  next
    case False
    then obtain chunk where "recv i = Inr chunk" "chunk \<noteq> []" by (auto simp: recv_ends_def split: sum.splits)
    then have "f recv (Suc i) (acc @ chunk) = Some r" using 1(3) by simp
    then have "\<exists>n. recv_ends (recv (Suc i + n))" by (rule 1(2))
    then show ?thesis by (metis add_Suc_shift)
  qed
qed assumption

lemma krs_release_eq:
  "krs_release c cl net nonce report x_eph kem tee =
   (let xp = x25519_public c x_eph; kp = oqs_kem_public c kem in
    bind_res (connect net (host cl) (port cl)) (\<lambda>_.
    bind_res (raise_if (sc_check_hostname (krs_ctx cl) \<and> server_name cl = [])
        (ValueError ''check_hostname requires server_hostname'')) (\<lambda>_.
    bind_res (handshake net (krs_ctx cl) (server_name cl)) (\<lambda>peer.
    bind_res (raise_if (sha256_hex peer \<noteq> pinned_server_fpr cl) (KrsError ''server cert fingerprint mismatch'')) (\<lambda>_.
    bind_res (send_all net (release_request cl report xp kp nonce tee peer)) (\<lambda>_.
    bind_res (recv_loop [] (received net (release_request cl report xp kp nonce tee peer))) (\<lambda>resp.
    bind_res (json_loads net (http_payload resp)) (\<lambda>result.
    accept_response c cl x_eph kem xp kp nonce result))))))))"
  by (simp add: krs_release_def release_run_def transfer_def wrap_socket_def tls_sendall_def create_connection_def
      bind_st_def finally_st_def lift_res_def update_st_def bind_res_def raise_if_def Let_def split: sum.split)

lemma krs_release_Inr:
  "krs_release c cl net nonce report x_eph kem tee = Inr r \<longleftrightarrow>
   connect net (host cl) (port cl) = Inr () \<and> (sc_check_hostname (krs_ctx cl) \<longrightarrow> server_name cl \<noteq> []) \<and>
   (\<exists>peer resp result.
      handshake net (krs_ctx cl) (server_name cl) = Inr peer \<and> sha256_hex peer = pinned_server_fpr cl \<and>
      send_all net (release_request cl report (x25519_public c x_eph) (oqs_kem_public c kem) nonce tee peer) = Inr () \<and>
      recv_loop [] (received net
        (release_request cl report (x25519_public c x_eph) (oqs_kem_public c kem) nonce tee peer)) = Inr resp \<and>
      json_loads net (http_payload resp) = Inr result \<and>
      accept_response c cl x_eph kem (x25519_public c x_eph) (oqs_kem_public c kem) nonce result = Inr r)"
  by (auto simp: krs_release_eq Let_def bind_res_Inr)

text \<open>What is left of the sockets.\<close>

lemma release_run_sockets:
  "snd (release_run c cl net nonce report x_eph kem tee s) =
   (case connect net (host cl) (port cl) of
      Inl e \<Rightarrow> s
    | Inr u \<Rightarrow>
       (if sc_check_hostname (krs_ctx cl) \<and> server_name cl = [] then s\<lparr>raw_open := False\<rparr>
        else case handshake net (krs_ctx cl) (server_name cl) of
               Inl e \<Rightarrow> s\<lparr>raw_open := False\<rparr>
             | Inr peer \<Rightarrow> s\<lparr>raw_open := False, tls_open := True,
                 sent := sent s @ (if sha256_hex peer = pinned_server_fpr cl
                   then [release_request cl report (x25519_public c x_eph) (oqs_kem_public c kem) nonce tee peer] else [])\<rparr>))"
  by (simp add: release_run_def transfer_def wrap_socket_def tls_sendall_def create_connection_def raw_close_def
      bind_st_def finally_st_def lift_res_def update_st_def raise_if_def Let_def split: sum.split)

section \<open>Client and server together\<close>

text \<open>
  The network of a running server as a client with certificate \<open>peer\<close> sees it: the client judges the
  server's certificate, the server the client's. A refused client notices when it reads. The bytes of
  an answer arrive in pieces that \<open>pieces\<close> determines; \<open>delivers\<close> is what \<^verbatim>\<open>recv(65536)\<close> promises of them.
\<close>

definition delivers :: "(bytes \<Rightarrow> bytes list) \<Rightarrow> bool" where
  "delivers pieces \<longleftrightarrow> (\<forall>b. concat (pieces b) = b \<and> (\<forall>piece\<in>set (pieces b). piece \<noteq> [] \<and> length piece \<le> 65536))"

lemma recv_loop_delivers: "delivers pieces \<Longrightarrow> recv_loop [] (map Inr (pieces b)) = Inr b"
  by (subst recv_loop_pieces) (auto simp: delivers_def)

definition conn_of :: "tls_peer \<Rightarrow> int \<Rightarrow> krs_draws \<Rightarrow> bytes \<Rightarrow> connection" where
  "conn_of peer now dr raw = \<lparr>cn_peer = peer, cn_silent = False, cn_time = now, cn_requests = [(dr, raw)]\<rparr>"

definition net_of_server ::
    "crypto \<Rightarrow> (bytes \<Rightarrow> json res) \<Rightarrow> http_library \<Rightarrow> (bytes \<Rightarrow> bytes list) \<Rightarrow> pki \<Rightarrow> krs_httpd \<Rightarrow> tls_peer \<Rightarrow> int \<Rightarrow> krs_draws \<Rightarrow> krs_cache \<Rightarrow> krs_net" where
  "net_of_server c jl lib pieces p httpd peer now dr rc =
     \<lparr>connect = (\<lambda>h prt. if prt = hd_port httpd then Inr () else Inl OSError),
      handshake = (\<lambda>ctx name. client_handshake p now ctx name (peer_of (hd_ctx httpd))),
      send_all = (\<lambda>raw. Inr ()),
      received = (\<lambda>raw. case fst (handle_conn c jl lib p httpd (conn_of peer now dr raw) rc) of
                          [] \<Rightarrow> [Inl OSError] | resp # _ \<Rightarrow> map Inr (pieces resp)),
      json_loads = jl\<rparr>"

text \<open>The request that carries a value, as the handler sees it.\<close>

abbreviation post_request :: "(bytes \<Rightarrow> json res) \<Rightarrow> json \<Rightarrow> http_request" where
  "post_request jl j \<equiv> posted_request jl (encode (dumps j))"

lemma json_wf_fields [simp]: "json_wf (JHex b)" "json_wf (JB64 b)"
  by (simp_all add: JHex_def JB64_def)

lemma json_wf_release_body [simp]: "json_wf (release_body report xp kp nonce cb tee)"
  by (simp add: release_body_def)

lemma release_cek_wf: "release_cek c cfg dr report xp kp nonce = Inr b \<Longrightarrow> json_wf b"
  by (auto simp: release_cek_def bind_res_Inr)

lemma do_POST_wf: "json_wf (body (fst (do_POST c cfg dr rq rc)))"
  by (auto simp: do_POST_def deny_def release_cek_wf split: sum.splits prod.splits bool.splits)

text \<open>The library's text for the \<^verbatim>\<open>Server\<close> and \<^verbatim>\<open>Date\<close> fields is printable.\<close>

definition library_ok :: "http_library \<Rightarrow> bool" where
  "library_ok lib \<longleftrightarrow> printable (hl_server lib) \<and> printable (hl_date lib)"

lemma reply_read:
  assumes "reads_dumps jl" "library_ok lib" "json_wf (body r)"
  shows "jl (http_payload (reply_bytes lib (Some r))) = Inr (body r)"
  using assms by (simp add: reply_bytes_def reads_dumps_def library_ok_def http_reply_payload)

lemma net_of_server_received:
  assumes "delivers pieces" "server_admits p now (hd_ctx httpd) peer" "printable name"
  shows "recv_loop [] (received (net_of_server c jl lib pieces p httpd peer now dr rc) (http_post name (encode (dumps j)))) =
    Inr (reply_bytes lib (Some (fst (do_POST c (hd_cfg httpd) dr (post_request jl j) rc))))"
  using assms by (simp add: net_of_server_def handle_conn_def conn_of_def http_do_POST_posted recv_loop_delivers)

lemma path_post_request [simp]: "path (post_request jl j) = ''/verify''"
  by (simp add: posted_request_def)

lemma parse_posted:
  assumes "reads_dumps jl" "json_wf j"
  shows "parse_request (post_request jl j) =
    bind_res (hex_field j ''report'') (\<lambda>report.
    bind_res (hex_field j ''client_x_pub'') (\<lambda>client_x_pub.
    bind_res (hex_field j ''client_kem_pub'') (\<lambda>client_kem_pub.
    bind_res (b64_field j ''nonce'') (\<lambda>nonce.
    bind_res (raise_if (length client_x_pub \<noteq> 32 \<or> length nonce \<noteq> 32) (ValueError ''bad params'')) (\<lambda>_.
      Inr (report, client_x_pub, client_kem_pub, nonce))))))"
  using assms by (simp add: parse_request_def posted_request_def py_int_int_str reads_dumps_def)

lemma parse_post_request:
  assumes "reads_dumps jl" "length xp = 32" "length nonce = 32"
  shows "parse_request (post_request jl (release_body report xp kp nonce cb tee)) =
    Inr (report, xp, kp, nonce)"
  using assms
  by (simp add: parse_posted) (simp add: release_body_def hex_field_def b64_field_def obj_lookup_def)

lemma do_POST_post_request:
  assumes "reads_dumps jl" "length xp = 32" "length nonce = 32" "sha256 nonce \<notin> krs_seen rc"
  shows "fst (do_POST c cfg dr (post_request jl (release_body report xp kp nonce cb tee)) rc) =
    (case release_cek c cfg dr report xp kp nonce of
       Inl e \<Rightarrow> deny | Inr b \<Rightarrow> \<lparr>status = 200, body = b\<rparr>)"
proof -
  have "fst (krs_fresh (sha256 nonce) rc)" using assms(4) krsg.accept_iff by blast
  then obtain rc' where "krs_fresh (sha256 nonce) rc = (True, rc')" by (metis prod.collapse)
  then show ?thesis
    using parse_post_request [OF assms(1-3)] by (simp add: do_POST_def split: sum.splits)
qed

section \<open>Properties\<close>

text \<open>What the client computes from the answer of a released key.\<close>

lemma accept_released:
  assumes "x25519_agrees c" "mlkem_correct c coins kem" "aead_correct c" "hkdf_length c"
    and "ed25519_correct c" "mldsa_correct c" "length gcm_nonce = 12"
    and "krs_ed_pub cl = ed25519_public c sk" "krs_mldsa_pub cl = oqs_sig_public c msk"
    and "wrap_cek c krs_x coins gcm_nonce (x25519_public c x_eph) (oqs_kem_public c kem) key = Inr (kx, ct, w)"
    and "hybrid_sign c sk msk (kx @ ct @ w @ m @ nonce) = Inr sig"
  shows "accept_response c cl x_eph kem (x25519_public c x_eph) (oqs_kem_public c kem) nonce
    (JObj [(''verified'', JBool True), (''krs_x_pub'', JHex kx), (''kem_ct'', JB64 ct), (''session_key'', JB64 w),
       (''measurement'', JHex m), (''nonce_echo'', JB64 nonce), (''krs_signature'', JB64 sig)]) = Inr (key, m)"
proof -
  have v: "hybrid_verify c (krs_ed_pub cl) (krs_mldsa_pub cl) (kx @ ct @ w @ m @ nonce) sig = Inr True"
    using hybrid_verify_sign [OF assms(5,6), of sk msk "kx @ ct @ w @ m @ nonce"] assms(8,9,11) by simp
  have u: "unwrap_cek c x_eph kem (x25519_public c x_eph) (oqs_kem_public c kem) kx ct w = Inr key"
    using wrap_unwrap_cek [OF assms(1-4,7), of krs_x x_eph key] assms(10) by auto
  show ?thesis
    unfolding accept_response_Inr
    by (simp add: hex_field_def b64_field_def obj_lookup_def v u)
qed

lemma release_cek_served:
  assumes "x25519_agrees c" "mlkem_correct c (draw_coins dr) kem" "aead_correct c" "hkdf_length c"
    and "ed25519_correct c" "mldsa_correct c" "length (draw_nonce dr) = 12"
    and "attest cfg report (report_data_for (x25519_public c x_eph) (oqs_kem_public c kem) nonce) = Inr m"
  obtains ct w sig where
    "wrap_cek c (draw_x dr) (draw_coins dr) (draw_nonce dr) (x25519_public c x_eph) (oqs_kem_public c kem) (cek cfg) =
      Inr (x25519_public c (draw_x dr), ct, w)"
    "hybrid_sign c (signing_key cfg) (mldsa_sk cfg) (x25519_public c (draw_x dr) @ ct @ w @ m @ nonce) = Inr sig"
    "release_cek c cfg dr report (x25519_public c x_eph) (oqs_kem_public c kem) nonce = Inr (JObj
       [(''verified'', JBool True), (''krs_x_pub'', JHex (x25519_public c (draw_x dr))), (''kem_ct'', JB64 ct),
        (''session_key'', JB64 w), (''measurement'', JHex m), (''nonce_echo'', JB64 nonce), (''krs_signature'', JB64 sig)])"
proof -
  obtain ct w where w: "wrap_cek c (draw_x dr) (draw_coins dr) (draw_nonce dr) (x25519_public c x_eph)
      (oqs_kem_public c kem) (cek cfg) = Inr (x25519_public c (draw_x dr), ct, w)"
    using wrap_unwrap_cek [OF assms(1-4,7), of "draw_x dr" x_eph "cek cfg"] by blast
  obtain sig where s: "hybrid_sign c (signing_key cfg) (mldsa_sk cfg)
      (x25519_public c (draw_x dr) @ ct @ w @ m @ nonce) = Inr sig"
    using hybrid_verify_sign [OF assms(5,6)] by blast
  show thesis by (rule that [OF w s]) (simp add: release_cek_def assms(8) w s)
qed

text \<open>What the client and the server need of each other for an answer to arrive.\<close>

definition linked :: "(bytes \<Rightarrow> json res) \<Rightarrow> http_library \<Rightarrow> (bytes \<Rightarrow> bytes list) \<Rightarrow> pki \<Rightarrow> int \<Rightarrow> krs_client \<Rightarrow> krs_httpd \<Rightarrow> bytes \<Rightarrow> bool" where
  "linked jl lib pieces p now cl httpd cert \<longleftrightarrow>
     reads_dumps jl \<and> library_ok lib \<and> delivers pieces \<and> printable (server_name cl) \<and> server_name cl \<noteq> [] \<and> port cl = hd_port httpd
     \<and> client_handshake p now (krs_ctx cl) (server_name cl) (peer_of (hd_ctx httpd)) = Inr cert
     \<and> server_admits p now (hd_ctx httpd) (peer_of (krs_ctx cl))"

text \<open>Over a link, \<^verbatim>\<open>release\<close> checks the pin and then judges the handler's answer.\<close>

lemma krs_release_linked:
  assumes "linked jl lib pieces p now cl httpd cert"
  shows "krs_release c cl (net_of_server c jl lib pieces p httpd (peer_of (krs_ctx cl)) now dr rc) nonce report x_eph kem tee =
    (let xp = x25519_public c x_eph; kp = oqs_kem_public c kem in
     bind_res (raise_if (sha256_hex cert \<noteq> pinned_server_fpr cl) (KrsError ''server cert fingerprint mismatch'')) (\<lambda>_.
     accept_response c cl x_eph kem xp kp nonce
       (body (fst (do_POST c (hd_cfg httpd) dr (post_request jl (release_body report xp kp nonce (sha256 cert) tee)) rc)))))"
proof -
  let ?net = "net_of_server c jl lib pieces p httpd (peer_of (krs_ctx cl)) now dr rc"
  have l: "reads_dumps jl" "library_ok lib" "delivers pieces" "printable (server_name cl)" "server_name cl \<noteq> []" "server_admits p now (hd_ctx httpd) (peer_of (krs_ctx cl))"
    using assms by (simp_all add: linked_def)
  have net: "connect ?net (host cl) (port cl) = Inr ()" "handshake ?net (krs_ctx cl) (server_name cl) = Inr cert"
    "json_loads ?net = jl" "\<And>b. send_all ?net b = Inr ()"
    using assms by (simp_all add: linked_def net_of_server_def)
  show ?thesis
    unfolding krs_release_eq Let_def net release_request_def net_of_server_received [OF l(3,6,4)] bind_res_simps
    by (simp add: l(5) reply_read [OF l(1,2) do_POST_wf])
qed

lemma krs_release_served:
  assumes "x25519_agrees c" "mlkem_correct c (draw_coins dr) kem" "aead_correct c" "hkdf_length c"
    and "ed25519_correct c" "mldsa_correct c" "length (draw_nonce dr) = 12"
    and "krs_ed_pub cl = ed25519_public c (signing_key (hd_cfg httpd))" "krs_mldsa_pub cl = oqs_sig_public c (mldsa_sk (hd_cfg httpd))"
    and "pinned_server_fpr cl = sha256_hex cert" "linked jl lib pieces p now cl httpd cert"
    and "length nonce = 32" "sha256 nonce \<notin> krs_seen rc"
    and "attest (hd_cfg httpd) report (report_data_for (x25519_public c x_eph) (oqs_kem_public c kem) nonce) = Inr m"
  shows "krs_release c cl (net_of_server c jl lib pieces p httpd (peer_of (krs_ctx cl)) now dr rc) nonce report x_eph kem tee
    = Inr (cek (hd_cfg httpd), m)"
proof -
  let ?xp = "x25519_public c x_eph" and ?kp = "oqs_kem_public c kem" and ?cfg = "hd_cfg httpd"
  have lx: "length ?xp = 32" using assms(1) by (simp add: x25519_agrees_def)
  have jl: "reads_dumps jl" using assms(11) by (simp add: linked_def)
  obtain ct w sig where r: "wrap_cek c (draw_x dr) (draw_coins dr) (draw_nonce dr) ?xp ?kp (cek ?cfg) =
        Inr (x25519_public c (draw_x dr), ct, w)"
      "hybrid_sign c (signing_key ?cfg) (mldsa_sk ?cfg) (x25519_public c (draw_x dr) @ ct @ w @ m @ nonce) = Inr sig"
      "release_cek c ?cfg dr report ?xp ?kp nonce = Inr (JObj
       [(''verified'', JBool True), (''krs_x_pub'', JHex (x25519_public c (draw_x dr))), (''kem_ct'', JB64 ct),
        (''session_key'', JB64 w), (''measurement'', JHex m), (''nonce_echo'', JB64 nonce), (''krs_signature'', JB64 sig)])"
    using release_cek_served [OF assms(1-7,14)] by blast
  show ?thesis
    unfolding krs_release_linked [OF assms(11)] Let_def do_POST_post_request [OF jl lx assms(12,13)] r(3)
    using accept_released [OF assms(1-9) r(1,2)] assms(10) by simp
qed

text \<open>A concrete service, client and attested report.\<close>

definition sample_cfg :: krs_config where
  "sample_cfg = \<lparr>signing_key = [1], mldsa_sk = [2], cek = replicate 32 9,
     verifier = Some (\<lambda>r rd. fst (snp_verify sample_snp_host
       (SnpVerifier ''snpguest'' ''milan'' [[]] 0 True False None) Map.empty r rd)),
     production = True\<rparr>"

definition sample_draws :: krs_draws where
  "sample_draws = \<lparr>draw_x = [3], draw_coins = [4], draw_nonce = replicate 12 0\<rparr>"

definition sample_ctx :: "tls_protocol \<Rightarrow> ssl_context" where
  "sample_ctx prot = \<lparr>sc_protocol = prot, sc_minimum_version = TLSv1_3, sc_verify_mode = CERT_REQUIRED,
     sc_check_hostname = (prot = PROTOCOL_TLS_CLIENT), sc_cas = [[1]], sc_chain = Some ([7], [8])\<rparr>"

definition sample_client :: krs_client where
  "sample_client = \<lparr>host = ''krs'', port = 443, server_name = ''krs'', pinned_server_fpr = sha256_hex [7],
     krs_ed_pub = fit 32 [1], krs_mldsa_pub = fit 32 [2], krs_ctx = sample_ctx PROTOCOL_TLS_CLIENT\<rparr>"

definition sample_httpd :: krs_httpd where
  "sample_httpd = \<lparr>hd_host = ''krs'', hd_port = 443, hd_cfg = sample_cfg, hd_ctx = sample_ctx PROTOCOL_TLS_SERVER\<rparr>"

definition sample_lib :: http_library where
  "sample_lib = \<lparr>hl_server = ''BaseHTTP'', hl_date = ''today'', hl_error = []\<rparr>"

text \<open>Delivery byte by byte.\<close>

definition sample_cut :: "bytes \<Rightarrow> bytes list" where
  "sample_cut = map (\<lambda>x. [x])"

lemma sample_delivers: "delivers sample_cut"
  by (simp add: delivers_def sample_cut_def)

lemma sample_linked: "linked sample_loads sample_lib sample_cut sample_pki now sample_client sample_httpd [7]"
  by (simp add: linked_def sample_reads_dumps sample_delivers library_ok_def sample_lib_def sample_client_def sample_httpd_def sample_ctx_def
      client_handshake_def server_admits_def peer_cert_ok_def peer_of_def sample_pki_def)

definition sample_report :: "bytes \<Rightarrow> bytes" where
  "sample_report nonce =
     replicate 80 0 @ fit 64 (report_data_for (fit 32 [5]) (fit 32 [6]) nonce) @ replicate 1040 0"

lemma sample_public [simp]:
  "x25519_public sample_crypto = fit 32" "oqs_kem_public sample_crypto = fit 32"
  "ed25519_public sample_crypto = fit 32" "oqs_sig_public sample_crypto = fit 32"
  by (simp_all add: sample_crypto_def)

lemma sample_attest:
  "attest sample_cfg (sample_report nonce) (report_data_for (fit 32 [5]) (fit 32 [6]) nonce) = Inr (replicate 48 0)"
  by (simp add: attest_def sample_cfg_def sample_report_def snp_sample_accepts)

abbreviation sample_net :: krs_net where
  "sample_net \<equiv> net_of_server sample_crypto sample_loads sample_lib sample_cut sample_pki sample_httpd (peer_of (krs_ctx sample_client)) 0
     sample_draws (new_krs_cache 10)"

lemma sample_served:
  "length nonce = 32 \<Longrightarrow>
   krs_release sample_crypto sample_client sample_net nonce (sample_report nonce) [5] [6] tee = Inr (replicate 32 9, replicate 48 0)"
  using krs_release_served [OF sample_x25519 sample_mlkem sample_aead sample_hkdf sample_ed25519 sample_mldsa _ _ _ _ sample_linked,
      where dr = sample_draws and rc = "new_krs_cache 10" and nonce = nonce and kem = "[6]" and now = 0
      and report = "sample_report nonce" and x_eph = "[5]" and m = "replicate 48 0" and tee = tee]
    sample_attest [of nonce]
  by (simp add: sample_httpd_def) (simp add: sample_client_def sample_draws_def new_krs_cache_def sample_cfg_def)

abbreviation sample_request :: http_request where
  "sample_request \<equiv> post_request sample_loads
     (release_body (sample_report (replicate 32 8)) (fit 32 [5]) (fit 32 [6]) (replicate 32 8) [] ''sev-snp'')"

lemma sample_200: "status (fst (do_POST sample_crypto sample_cfg sample_draws sample_request (new_krs_cache 10))) = 200"
proof -
  obtain b where "release_cek sample_crypto sample_cfg sample_draws (sample_report (replicate 32 8))
      (fit 32 [5]) (fit 32 [6]) (replicate 32 8) = Inr b"
    using release_cek_served [where c = sample_crypto and dr = sample_draws and kem = "[6]" and cfg = sample_cfg
        and report = "sample_report (replicate 32 8)" and x_eph = "[5]" and nonce = "replicate 32 8"
        and m = "replicate 48 0" and thesis = thesis, OF sample_x25519 sample_mlkem sample_aead sample_hkdf
        sample_ed25519 sample_mldsa] sample_attest [of "replicate 32 8"]
    by (simp add: sample_draws_def)
  then show ?thesis
    using do_POST_post_request [OF sample_reads_dumps, of "fit 32 [5]" "replicate 32 8" "new_krs_cache 10" sample_crypto sample_cfg sample_draws
        "sample_report (replicate 32 8)" "fit 32 [6]" "[]" "''sev-snp''"]
    by (simp add: new_krs_cache_def)
qed

theorem do_POST_production_release_witness:
  "\<exists>report x k nonce verify m x' ct w sig.
    parse_request sample_request = Inr (report, x, k, nonce) \<and> length x = 32 \<and> length nonce = 32 \<and>
    sha256 nonce \<notin> krs_seen (new_krs_cache 10) \<and>
    sha256 nonce \<in> krs_seen (snd (do_POST sample_crypto sample_cfg sample_draws sample_request (new_krs_cache 10))) \<and>
    verifier sample_cfg = Some verify \<and> verify report (report_data_for x k nonce) = Inr m \<and>
    wrap_cek sample_crypto (draw_x sample_draws) (draw_coins sample_draws) (draw_nonce sample_draws) x k (cek sample_cfg)
      = Inr (x', ct, w) \<and>
    hybrid_sign sample_crypto (signing_key sample_cfg) (mldsa_sk sample_cfg) (x' @ ct @ w @ m @ nonce) = Inr sig"
  using do_POST_production_release [OF sample_200] by (simp add: sample_cfg_def)

text \<open>A server started in production from its command line, and a request it answers with the key.\<close>

definition sample_args :: serve_args where
  "sample_args = \<lparr>arg_signing_key = hex_encode (replicate 32 1), arg_mldsa_key = hex_encode [2], arg_processor = ''milan'',
     arg_measurement = [hex_encode []], arg_min_tcb = 0, arg_production = True, arg_cek_env = ''CEK'', arg_host = ''krs'', arg_port = 443,
     arg_server_cert = ''cert'', arg_server_key = ''key'', arg_client_ca = ''ca''\<rparr>"

abbreviation sample_server_files :: files where
  "sample_server_files \<equiv> [''cert'' \<mapsto> [7], ''key'' \<mapsto> [8], ''ca'' \<mapsto> [1]]"

definition sample_start :: "(krs_httpd \<times> krs_cache) startup res" where
  "sample_start = krs_serve_main sample_crypto sample_snp_host sample_pki sample_server_files (\<lambda>h p. Inr p)
     [''CEK'' \<mapsto> hex_encode (replicate 32 9)] sample_args"

lemma sample_start_eq:
  "\<exists>httpd. sample_start = Inr (Started (httpd, new_krs_cache krs_default_cap))
    \<and> hd_cfg httpd = sample_cfg\<lparr>signing_key := replicate 32 1,
        verifier := Some (\<lambda>r rd. fst (snp_verify sample_snp_host
          (SnpVerifier ''snpguest'' ''milan'' [[]] 0 True False None) sample_server_files r rd))\<rparr>
    \<and> server_admits sample_pki 0 (hd_ctx httpd) (peer_of (krs_ctx sample_client))"
  by (simp add: sample_start_def krs_serve_main_def krs_main_def sample_args_def krs_args.defs hexc.dec_enc KrsConfig_def sample_cfg_def
      serve_def server_context_def set_verify_mode_def SSLContext_def load_verify_locations_def load_cert_chain_def
      server_admits_def peer_cert_ok_def peer_of_def sample_client_def sample_ctx_def)
     (simp add: sample_pki_def)

theorem production_server_releases_witness:
  "\<exists>(resp :: http_response) (rc' :: krs_cache) pem d ms hex key rq report x k nonce m x' ct w sig.
    sample_server_files (arg_client_ca sample_args) = Some pem \<and> tp_cert (peer_of (krs_ctx sample_client)) = Some d \<and>
    chain_ok sample_pki 0 (pem_cas sample_pki pem) d \<and> TLSv1_3 \<le> tp_version (peer_of (krs_ctx sample_client)) \<and>
    map_res fromhex (arg_measurement sample_args) = Inr ms \<and> [''CEK'' \<mapsto> hex_encode (replicate 32 9)] (arg_cek_env sample_args) = Some hex \<and> fromhex hex = Inr key \<and>
    http_request_of sample_loads (http_post ''krs'' (encode (dumps (release_body (sample_report (replicate 32 8)) (fit 32 [5]) (fit 32 [6])
      (replicate 32 8) [] ''sev-snp'')))) = Some rq \<and> path rq = ''/verify'' \<and> parse_request rq = Inr (report, x, k, nonce) \<and>
    fst (snp_verify sample_snp_host (SnpVerifier ''snpguest'' (arg_processor sample_args) ms (arg_min_tcb sample_args) True False None)
      sample_server_files report (report_data_for x k nonce)) = Inr m \<and>
    parse_report_data report = fit 64 (report_data_for x k nonce) \<and>
    parse_measurement report = Inr m \<and> m \<in> (\<lambda>b. take 48 (ljust 48 0 b)) ` set ms \<and>
    sha256 nonce \<notin> krs_seen (new_krs_cache 10) \<and> sha256 nonce \<in> krs_seen rc' \<and>
    wrap_cek sample_crypto (draw_x sample_draws) (draw_coins sample_draws) (draw_nonce sample_draws) x k key = Inr (x', ct, w) \<and>
    hybrid_sign sample_crypto (replicate 32 1) [2] (x' @ ct @ w @ m @ nonce) = Inr sig \<and>
    body resp = JObj [(''verified'', JBool True), (''krs_x_pub'', JHex x'), (''kem_ct'', JB64 ct), (''session_key'', JB64 w),
      (''measurement'', JHex m), (''nonce_echo'', JB64 nonce), (''krs_signature'', JB64 sig)]"
proof -
  obtain httpd where h: "sample_start = Inr (Started (httpd, new_krs_cache krs_default_cap))"
      "hd_cfg httpd = sample_cfg\<lparr>signing_key := replicate 32 1,
        verifier := Some (\<lambda>r rd. fst (snp_verify sample_snp_host
          (SnpVerifier ''snpguest'' ''milan'' [[]] 0 True False None) sample_server_files r rd))\<rparr>"
      "server_admits sample_pki 0 (hd_ctx httpd) (peer_of (krs_ctx sample_client))"
    using sample_start_eq by blast
  let ?n = "replicate 32 8 :: bytes"
  let ?j = "release_body (sample_report ?n) (fit 32 [5]) (fit 32 [6]) ?n [] ''sev-snp''"
  have at: "attest (hd_cfg httpd) (sample_report ?n) (report_data_for (x25519_public sample_crypto [5]) (oqs_kem_public sample_crypto [6]) ?n)
      = Inr (replicate 48 0)"
    by (simp add: h(2) attest_def sample_cfg_def sample_report_def snp_sample_accepts)
  have n12: "length (draw_nonce sample_draws) = 12" by (simp add: sample_draws_def)
  obtain b where b: "release_cek sample_crypto (hd_cfg httpd) sample_draws (sample_report ?n) (fit 32 [5]) (fit 32 [6]) ?n = Inr b"
    using release_cek_served [OF sample_x25519 sample_mlkem sample_aead sample_hkdf sample_ed25519 sample_mldsa n12 at]
    by (metis sample_public(1,2))
  have p: "http_do_POST sample_crypto sample_loads (hd_cfg httpd) sample_draws (http_post ''krs'' (encode (dumps ?j))) (new_krs_cache 10) =
      (Some \<lparr>status = 200, body = b\<rparr>, snd (do_POST sample_crypto (hd_cfg httpd) sample_draws (post_request sample_loads ?j) (new_krs_cache 10)))"
    using do_POST_post_request [OF sample_reads_dumps, of "fit 32 [5]" ?n "new_krs_cache 10" sample_crypto "hd_cfg httpd" sample_draws
        "sample_report ?n" "fit 32 [6]" "[]" "''sev-snp''"] b
    by (simp add: http_do_POST_posted new_krs_cache_def)
  have prd: "arg_production sample_args" and key: "signing_key (hd_cfg httpd) = replicate 32 1" "mldsa_sk (hd_cfg httpd) = [2]"
    by (simp_all add: sample_args_def h(2) sample_cfg_def)
  show ?thesis
    by (rule exI, rule exI, rule production_server_releases [OF h(1) [unfolded sample_start_def] prd h(3) p, unfolded key]) simp
qed

theorem krs_denies_other_nonce_witness:
  "fst (do_POST sample_crypto sample_cfg sample_draws (post_request sample_loads
      (release_body (sample_report (replicate 32 8)) (fit 32 [5]) (fit 32 [6]) (replicate 32 11) [] ''sev-snp'')) (new_krs_cache 10)) = deny \<or>
    sha256 (fit 32 [5] @ fit 32 [6] @ replicate 32 11 @ BIND_TAG) = sha256 (fit 32 [5] @ fit 32 [6] @ replicate 32 8 @ BIND_TAG)"
proof (rule krs_denies_other_nonce)
  show "parse_request (post_request sample_loads (release_body (sample_report (replicate 32 8)) (fit 32 [5]) (fit 32 [6]) (replicate 32 11) [] ''sev-snp''))
      = Inr (sample_report (replicate 32 8), fit 32 [5], fit 32 [6], replicate 32 11)"
    by (rule parse_post_request [OF sample_reads_dumps]) simp_all
  show "parse_report_data (sample_report (replicate 32 8)) = fit 64 (report_data_for (fit 32 [5]) (fit 32 [6]) (replicate 32 8))"
    unfolding parse_report_data_def sample_report_def layout_defs by (rule py_slice_full) simp_all
qed (simp_all add: sample_cfg_def)

text \<open>
  C2. Client and server fit together: over a connection that both sides admit, to a server that runs
  the handler with the pinned keys and certificate, a client whose report the server attests for the
  client's own nonce obtains the service's key and the attested measurement, through the bytes of
  the HTTP messages and the text of their JSON bodies, in whatever pieces the answer arrives.
\<close>

theorem release_end_to_end:
  assumes "x25519_agrees c" "mlkem_correct c (draw_coins dr) kem" "aead_correct c" "hkdf_length c"
    and "ed25519_correct c" "mldsa_correct c" "length (draw_nonce dr) = 12"
    and "krs_ed_pub cl = ed25519_public c (signing_key (hd_cfg httpd))" "krs_mldsa_pub cl = oqs_sig_public c (mldsa_sk (hd_cfg httpd))"
    and "pinned_server_fpr cl = sha256_hex cert" "linked jl lib pieces p now cl httpd cert"
    and "length nonce = 32" "sha256 nonce \<notin> krs_seen rc"
    and "attest (hd_cfg httpd) report (report_data_for (x25519_public c x_eph) (oqs_kem_public c kem) nonce) = Inr m"
  shows "krs_release c cl (net_of_server c jl lib pieces p httpd (peer_of (krs_ctx cl)) now dr rc) nonce report x_eph kem tee
    = Inr (cek (hd_cfg httpd), m)"
  using assms by (rule krs_release_served)

theorem release_end_to_end_witness:
  "krs_release sample_crypto sample_client sample_net
     (replicate 32 8) (sample_report (replicate 32 8)) [5] [6] ''sev-snp'' = Inr (cek (hd_cfg sample_httpd), replicate 48 0)"
  by (rule release_end_to_end [OF _ _ _ _ _ _ _ _ _ _ sample_linked])
     (simp_all add: sample_correct sample_attest sample_httpd_def, simp_all add: sample_client_def sample_cfg_def sample_draws_def new_krs_cache_def)

text \<open>
  C4. What the client returns is authentic: the peer certificate has the pinned digest; the bytes that
  came back for this request parse as a verified answer; the pinned Ed25519 and ML-DSA keys both
  signed, in the signature of that answer, its wrap and measurement with this request's nonce; the
  answer echoes that nonce; the measurement returned is the one of the answer, and the key returned
  is what the client's two private keys unwrap from it.
\<close>

theorem client_accepts_authentic:
  assumes "krs_release c cl net nonce report x_eph kem tee = Inr (key, m)"
  shows "\<exists>peer resp result v kx ct w sig a b echo.
    handshake net (krs_ctx cl) (server_name cl) = Inr peer \<and> sha256_hex peer = pinned_server_fpr cl \<and>
    recv_loop [] (received net (release_request cl report (x25519_public c x_eph) (oqs_kem_public c kem)
      nonce tee peer)) = Inr resp \<and>
    json_loads net (http_payload resp) = Inr result \<and>
    json_get result ''verified'' JNull = Inr v \<and> json_truthy v \<and>
    hex_field result ''krs_x_pub'' = Inr kx \<and> b64_field result ''kem_ct'' = Inr ct \<and> b64_field result ''session_key'' = Inr w \<and>
    hex_field result ''measurement'' = Inr m \<and>
    json_get result ''nonce_echo'' (JStr []) = Inr echo \<and> json_b64decode echo = Inr nonce \<and>
    b64_field result ''krs_signature'' = Inr sig \<and> unframe sig = Inr [a, b] \<and>
    ed25519_verify c (krs_ed_pub cl) a (kx @ ct @ w @ m @ nonce) = Inr () \<and>
    sig_verify c (krs_mldsa_pub cl) (kx @ ct @ w @ m @ nonce) b = Inr True \<and>
    unwrap_cek c x_eph kem (x25519_public c x_eph) (oqs_kem_public c kem) kx ct w = Inr key"
proof -
  obtain peer resp result where p: "handshake net (krs_ctx cl) (server_name cl) = Inr peer" "sha256_hex peer = pinned_server_fpr cl"
      "recv_loop [] (received net (release_request cl report (x25519_public c x_eph) (oqs_kem_public c kem) nonce tee peer)) = Inr resp"
      "json_loads net (http_payload resp) = Inr result"
      and r: "accept_response c cl x_eph kem (x25519_public c x_eph) (oqs_kem_public c kem) nonce result = Inr (key, m)"
    using assms unfolding krs_release_Inr by blast
  from p r show ?thesis unfolding accept_response_Inr hybrid_verify_iff by blast
qed

theorem client_accepts_authentic_witness:
  "\<exists>peer resp result v kx ct w sig a b echo.
    handshake sample_net (krs_ctx sample_client) (server_name sample_client) = Inr peer \<and> sha256_hex peer = pinned_server_fpr sample_client \<and>
    recv_loop [] (received sample_net (release_request sample_client (sample_report (replicate 32 8)) (x25519_public sample_crypto [5]) (oqs_kem_public sample_crypto [6])
      (replicate 32 8) ''sev-snp'' peer)) = Inr resp \<and>
    json_loads sample_net (http_payload resp) = Inr result \<and>
    json_get result ''verified'' JNull = Inr v \<and> json_truthy v \<and>
    hex_field result ''krs_x_pub'' = Inr kx \<and> b64_field result ''kem_ct'' = Inr ct \<and> b64_field result ''session_key'' = Inr w \<and>
    hex_field result ''measurement'' = Inr (replicate 48 0) \<and>
    json_get result ''nonce_echo'' (JStr []) = Inr echo \<and> json_b64decode echo = Inr (replicate 32 8) \<and>
    b64_field result ''krs_signature'' = Inr sig \<and> unframe sig = Inr [a, b] \<and>
    ed25519_verify sample_crypto (krs_ed_pub sample_client) a (kx @ ct @ w @ (replicate 48 0) @ (replicate 32 8)) = Inr () \<and>
    sig_verify sample_crypto (krs_mldsa_pub sample_client) (kx @ ct @ w @ (replicate 48 0) @ (replicate 32 8)) b = Inr True \<and>
    unwrap_cek sample_crypto [5] [6] (x25519_public sample_crypto [5]) (oqs_kem_public sample_crypto [6]) kx ct w = Inr (replicate 32 9)"
  by (rule client_accepts_authentic [OF sample_served [of "replicate 32 8" "''sev-snp''"]]) simp

text \<open>
  C5. Nothing leaves before the pin is checked: whatever the network does, \<^verbatim>\<open>release\<close> hands at most one
  message to the network, and only after a handshake with a peer whose certificate has the pinned
  digest; the message is the request over the caller's report, keys and nonce.
\<close>

theorem release_sends_to_pinned:
  assumes "data \<in> set (sent (snd (release_run c cl net nonce report x_eph kem tee no_sockets)))"
  shows "\<exists>peer. connect net (host cl) (port cl) = Inr () \<and> handshake net (krs_ctx cl) (server_name cl) = Inr peer \<and>
    sha256_hex peer = pinned_server_fpr cl \<and>
    data = release_request cl report (x25519_public c x_eph) (oqs_kem_public c kem) nonce tee peer \<and>
    sent (snd (release_run c cl net nonce report x_eph kem tee no_sockets)) = [data]"
  using assms unfolding release_run_sockets by (auto simp: no_sockets_def split: sum.splits if_splits)

theorem release_sends_to_pinned_witness:
  "\<exists>peer. connect sample_net (host sample_client) (port sample_client) = Inr () \<and>
    handshake sample_net (krs_ctx sample_client) (server_name sample_client) = Inr peer \<and>
    sha256_hex peer = pinned_server_fpr sample_client \<and>
    release_request sample_client [] (fit 32 [5]) (fit 32 [6]) [1] ''sev-snp'' [7] =
      release_request sample_client [] (x25519_public sample_crypto [5]) (oqs_kem_public sample_crypto [6]) [1] ''sev-snp'' peer \<and>
    sent (snd (release_run sample_crypto sample_client sample_net [1] [] [5] [6] ''sev-snp'' no_sockets)) =
      [release_request sample_client [] (fit 32 [5]) (fit 32 [6]) [1] ''sev-snp'' [7]]"
proof (rule release_sends_to_pinned)
  have "connect sample_net (host sample_client) (port sample_client) = Inr ()"
    "handshake sample_net (krs_ctx sample_client) (server_name sample_client) = Inr [7]"
    "server_name sample_client \<noteq> []" "sha256_hex [7] = pinned_server_fpr sample_client"
    using sample_linked [of 0] by (simp_all add: linked_def net_of_server_def sample_client_def)
  then show "release_request sample_client [] (fit 32 [5]) (fit 32 [6]) [1] ''sev-snp'' [7] \<in>
      set (sent (snd (release_run sample_crypto sample_client sample_net [1] [] [5] [6] ''sev-snp'' no_sockets)))"
    unfolding release_run_sockets by (simp add: no_sockets_def)
qed

text \<open>
  The descriptor of the connection: the \<^verbatim>\<open>finally\<close> closes the socket that \<^verbatim>\<open>create_connection\<close> returned,
  which owns no descriptor any more once the TLS socket is there. So \<^verbatim>\<open>release\<close> leaves the TLS socket open
  exactly when the handshake succeeded, on success and on every later failure.
\<close>

theorem release_descriptors:
  "\<not> raw_open (snd (release_run c cl net nonce report x_eph kem tee no_sockets)) \<and>
   (tls_open (snd (release_run c cl net nonce report x_eph kem tee no_sockets)) \<longleftrightarrow>
      connect net (host cl) (port cl) = Inr () \<and> is_ok (handshake net (krs_ctx cl) (server_name cl)) \<and>
      \<not> (sc_check_hostname (krs_ctx cl) \<and> server_name cl = []))"
  unfolding release_run_sockets by (auto simp: no_sockets_def split: sum.splits)

text \<open>
  C28. The receive loop returns exactly when a \<^verbatim>\<open>recv\<close> fails or returns no bytes, and then with what the
  calls up to the first of these make: the failure, or all the bytes in order. A peer that keeps
  sending keeps the client in the loop.
\<close>

theorem recv_stream_iff:
  "recv_stream recv 0 [] = Some r \<longleftrightarrow>
   (\<exists>n. recv_ends (recv n) \<and> (\<forall>j<n. \<not> recv_ends (recv j)) \<and>
        r = (case recv n of Inl e \<Rightarrow> Inl e | Inr chunk \<Rightarrow> Inr (concat (map (\<lambda>j. projr (recv j)) [0..<n]))))"
proof -
  let ?res = "\<lambda>n. case recv n of Inl e \<Rightarrow> Inl e | Inr chunk \<Rightarrow> Inr (concat (map (\<lambda>j. projr (recv j)) [0..<n]))"
  have loop: "recv_loop acc (map recv ks @ [r]) =
      (case r of Inl e \<Rightarrow> Inl e | Inr chunk \<Rightarrow> Inr (acc @ concat (map (\<lambda>j. projr (recv j)) ks)))"
    if "recv_ends r" "\<forall>j\<in>set ks. \<not> recv_ends (recv j)" for acc ks r
    using that by (induction ks arbitrary: acc) (auto simp: recv_loop_more, auto simp: recv_ends_def split: sum.splits)
  have eq: "recv_stream recv 0 [] = Some (?res n)" if "recv_ends (recv n)" "\<forall>j<n. \<not> recv_ends (recv j)" for n
    using recv_stream_first_end [of recv 0 n "[]"] loop [of "recv n" "[0..<n]" "[]"] that
    by (simp split: sum.splits)
  have "\<exists>n. recv_ends (recv n) \<and> (\<forall>j<n. \<not> recv_ends (recv j))" if "recv_stream recv 0 [] = Some r"
    using recv_stream_returns_end [OF that] exists_least_iff [of "\<lambda>n. recv_ends (recv n)"] by auto
  then show ?thesis using eq by (metis option.inject)
qed

theorem recv_stream_iff_witness:
  "recv_stream (\<lambda>i. Inr (if i < 2 then [7, of_nat i] else [])) 0 [] = Some (Inr [7, 0, 7, 1])"
  unfolding recv_stream_iff
  by (intro exI [of _ 2]) (simp add: recv_ends_def less_2_cases_iff numeral_2_eq_2)

text \<open>
  The service does not look at the channel binding or the TEE type that the client sends: the
  answer and the cache are the same for any value of the two fields.
\<close>

theorem krs_ignores_channel_binding:
  assumes "reads_dumps jl"
  shows "do_POST c cfg dr (post_request jl (release_body report xp kp nonce cb tee)) rc =
    do_POST c cfg dr (post_request jl (release_body report xp kp nonce cb' tee')) rc"
proof -
  have "parse_request (post_request jl (release_body report xp kp nonce cb tee)) =
      parse_request (post_request jl (release_body report xp kp nonce cb' tee'))"
    by (simp add: parse_posted [OF assms]) (simp add: release_body_def hex_field_def b64_field_def obj_lookup_def)
  then show ?thesis by (simp add: do_POST_def)
qed

text \<open>
  The URL split: \<open>scheme://host:port/rest\<close> gives host and port, without a port it gives 443.
\<close>

theorem split_url_parts:
  assumes "\<And>c. c \<in> set h \<Longrightarrow> c \<noteq> CHR '':'' \<and> c \<noteq> CHR ''/''"
  shows "split_url (''https://'' @ h @ '':'' @ int_str p @ ''/'' @ rest) = Inr (h, p) \<and>
    split_url (''https://'' @ h @ ''/'' @ rest) = Inr (h, 443)"
proof -
  have scheme: "py_partition ''://'' (''https://'' @ u) = (''https'', True, u)" for u
    by (simp add: py_partition.simps)
  have digits: "c \<in> set (int_str p) \<Longrightarrow> c \<noteq> CHR '':'' \<and> c \<noteq> CHR ''/''" for c
    by (auto simp: int_str_def digit_facts dest!: nat_str_chars split: if_splits)
      (auto simp: digit_char_def dest: arg_cong [where f = "of_char :: char \<Rightarrow> nat"])
  have "int_str p \<noteq> []" by (simp add: int_str_def)
  moreover have "CHR ''/'' \<notin> set (h @ '':'' @ int_str p)" "CHR ''/'' \<notin> set h" "CHR '':'' \<notin> set h"
    using assms digits by auto
  moreover then have "py_partition ''/'' ((h @ '':'' @ int_str p) @ CHR ''/'' # rest) = (h @ '':'' @ int_str p, True, rest)"
      "py_partition ''/'' (h @ CHR ''/'' # rest) = (h, True, rest)"
      "py_partition '':'' (h @ CHR '':'' # int_str p) = (h, True, int_str p)"
      "py_partition '':'' h = (h, False, [])"
    by (blast intro: py_partition_found py_partition_absent)+
  ultimately show ?thesis
    unfolding split_url_def scheme Let_def by (simp add: py_int_int_str)
qed

theorem split_url_parts_witness:
  "split_url (''https://'' @ ''krs.example'' @ '':'' @ int_str 8443 @ ''/'' @ ''verify'') = Inr (''krs.example'', 8443) \<and>
    split_url (''https://'' @ ''krs.example'' @ ''/'' @ ''verify'') = Inr (''krs.example'', 443)"
  by (rule split_url_parts) auto

end
