(* ===== verification/Protected_Memory.thy ===== *)
theory Protected_Memory
  imports Prelude
begin

unbundle bit_operations_syntax

text \<open>
  \<^verbatim>\<open>_libc\<close>, \<^verbatim>\<open>_page_down\<close>, \<^verbatim>\<open>_page_up\<close> and the class \<^verbatim>\<open>ProtectedMemory\<close> of \<^verbatim>\<open>src/src/cloud_protection.py\<close>.
  The class works on raw addresses (\<^verbatim>\<open>memmove\<close>, \<^verbatim>\<open>memset\<close>, \<^verbatim>\<open>from_address\<close>), so the model has an
  address space: a byte for every integer address. How the C library is found and loaded and what it
  answers to \<^verbatim>\<open>mlock\<close>, \<^verbatim>\<open>mlockall\<close> and \<^verbatim>\<open>madvise\<close> is the record \<open>libc\<close>; the address the allocator returns and the bytes
  \<^verbatim>\<open>secrets.token_bytes\<close> draws are arguments. Faults on unmapped addresses are outside the model.
  The locale \<open>secret_buffers\<close> is what the rest of the program relies on.
\<close>

section \<open>The address space\<close>

type_synonym mem = "int \<Rightarrow> byte"

definition mem_read :: "mem \<Rightarrow> int \<Rightarrow> nat \<Rightarrow> bytes" where
  "mem_read m a n = map (\<lambda>i. m (a + int i)) [0..<n]"

definition mem_write :: "mem \<Rightarrow> int \<Rightarrow> bytes \<Rightarrow> mem" where
  "mem_write m a bs = (\<lambda>x. if a \<le> x \<and> x < a + int (length bs) then bs ! nat (x - a) else m x)"

text \<open>\<open>xs[:n]\<close> with Python's reading of a negative bound.\<close>

definition slice_to :: "int \<Rightarrow> 'a list \<Rightarrow> 'a list" where
  "slice_to n xs = (if 0 \<le> n then take (nat n) xs else take (nat (int (length xs) + n)) xs)"

section \<open>Pages\<close>

definition page_down :: "int \<Rightarrow> int \<Rightarrow> int" where
  "page_down pagesize a = a AND NOT (pagesize - 1)"

definition page_up :: "int \<Rightarrow> int \<Rightarrow> int" where
  "page_up pagesize a = (a + (pagesize - 1)) AND NOT (pagesize - 1)"

section \<open>The class\<close>

record pm =
  pm_addr :: int
  pm_size :: int

record libc =
  pagesize :: int
  find_library_c :: "string option"
  cdll :: "string \<Rightarrow> unit res"
  mlockall :: "int \<Rightarrow> int"
  mlock :: "int \<Rightarrow> int \<Rightarrow> int"
  madvise :: "int \<Rightarrow> int \<Rightarrow> int \<Rightarrow> int"

text \<open>
  The state: memory, the class attribute \<^verbatim>\<open>_registry\<close>, the page ranges that the kernel agreed
  to lock and to keep out of core dumps, whether \<^verbatim>\<open>_cached_libc\<close> is set, and whether the kernel agreed to
  lock all pages.
\<close>

record pm_state =
  pm_mem :: mem
  pm_registry :: "pm list"
  pm_locked :: "(int \<times> int) list"
  pm_nodump :: "(int \<times> int) list"
  pm_libc :: bool
  pm_all_locked :: bool

text \<open>\<^verbatim>\<open>_libc()\<close>: \<^verbatim>\<open>find_library("c") or "libc.so.6"\<close>, loaded once.\<close>

definition libc_name :: "libc \<Rightarrow> string" where
  "libc_name lc = (case find_library_c lc of None \<Rightarrow> ''libc.so.6'' | Some n \<Rightarrow> if n = [] then ''libc.so.6'' else n)"

definition libc_handle :: "libc \<Rightarrow> pm_state \<Rightarrow> pm_state res" where
  "libc_handle lc s =
     (if pm_libc s then Inr s
      else bind_res (cdll lc (libc_name lc)) (\<lambda>_. Inr (s\<lparr>pm_libc := True\<rparr>)))"

definition MCL_CURRENT :: int where "MCL_CURRENT = 1"

definition MCL_FUTURE :: int where "MCL_FUTURE = 2"

text \<open>\<^verbatim>\<open>_libc().mlockall(MCL_CURRENT | MCL_FUTURE)\<close>, whose result the caller drops.\<close>

definition lock_all :: "libc \<Rightarrow> pm_state \<Rightarrow> pm_state res" where
  "lock_all lc s =
     bind_res (libc_handle lc s) (\<lambda>s1.
     Inr (if mlockall lc (MCL_CURRENT OR MCL_FUTURE) \<noteq> 0 then s1 else s1\<lparr>pm_all_locked := True\<rparr>))"

definition MADV_DONTDUMP :: int where "MADV_DONTDUMP = 16"

definition pm_lock :: "libc \<Rightarrow> pm \<Rightarrow> pm_state \<Rightarrow> pm_state" where
  "pm_lock lc b s =
     (let pa = page_down (pagesize lc) (pm_addr b);
          ps = page_up (pagesize lc) (pm_addr b + pm_size b) - pa;
          s1 = (if mlock lc pa ps \<noteq> 0 then s else s\<lparr>pm_locked := (pa, ps) # pm_locked s\<rparr>)
      in if madvise lc pa ps MADV_DONTDUMP \<noteq> 0 then s1
         else s1\<lparr>pm_nodump := (pa, ps) # pm_nodump s1\<rparr>)"

text \<open>\<^verbatim>\<open>__init__\<close>: \<^verbatim>\<open>create_string_buffer\<close> returns zeroed memory at \<open>addr\<close> and refuses a negative size.\<close>

definition ProtectedMemory :: "libc \<Rightarrow> int \<Rightarrow> int \<Rightarrow> pm_state \<Rightarrow> (pm \<times> pm_state) res" where
  "ProtectedMemory lc addr sz s =
     bind_res (raise_if (sz < 0) (ValueError ''Array length must be >= 0'')) (\<lambda>_.
     (let b = \<lparr>pm_addr = addr, pm_size = sz\<rparr>;
          s1 = s\<lparr>pm_mem := mem_write (pm_mem s) addr (replicate (nat sz) 0)\<rparr>
      in bind_res (libc_handle lc s1) (\<lambda>s2.
         let s3 = pm_lock lc b s2
         in Inr (b, s3\<lparr>pm_registry := List.insert b (pm_registry s3)\<rparr>))))"

definition pm_write :: "pm \<Rightarrow> bytes \<Rightarrow> int \<Rightarrow> pm_state \<Rightarrow> pm_state res" where
  "pm_write b data offset s =
     bind_res (raise_if (pm_size b < offset + int (length data)) (ValueError ''write exceeds buffer'')) (\<lambda>_.
     Inr (s\<lparr>pm_mem := mem_write (pm_mem s) (pm_addr b + offset) data\<rparr>))"

text \<open>\<^verbatim>\<open>length or (self._size - offset)\<close>: \<^verbatim>\<open>None\<close> and 0 both mean the rest of the buffer.\<close>

definition pm_read :: "pm \<Rightarrow> int \<Rightarrow> int option \<Rightarrow> pm_state \<Rightarrow> bytes res" where
  "pm_read b offset len s =
     (let len' = (case len of None \<Rightarrow> pm_size b - offset
                  | Some n \<Rightarrow> if n = 0 then pm_size b - offset else n)
      in bind_res (raise_if (offset + len' < 0) (ValueError ''Array length must be >= 0'')) (\<lambda>_.
         Inr (slice_to len' (mem_read (pm_mem s) (pm_addr b + offset) (nat (offset + len'))))))"

definition pm_zeroise :: "pm \<Rightarrow> pm_state \<Rightarrow> pm_state" where
  "pm_zeroise b s = s\<lparr>pm_mem := mem_write (pm_mem s) (pm_addr b) (replicate (nat (pm_size b)) 0)\<rparr>"

text \<open>\<^verbatim>\<open>randomise\<close>, with the \<^verbatim>\<open>size\<close> bytes it draws.\<close>

definition pm_randomise :: "bytes \<Rightarrow> pm \<Rightarrow> pm_state \<Rightarrow> pm_state" where
  "pm_randomise rnd b s = s\<lparr>pm_mem := mem_write (pm_mem s) (pm_addr b) (fit (nat (pm_size b)) rnd)\<rparr>"

text \<open>\<^verbatim>\<open>zeroise_all\<close> visits a snapshot of the registry.\<close>

definition zeroise_all :: "pm_state \<Rightarrow> pm_state" where
  "zeroise_all s = fold pm_zeroise (pm_registry s) s"

section \<open>Memory lemmas\<close>

lemma length_mem_read [simp]: "length (mem_read m a n) = n"
  by (simp add: mem_read_def)

lemma mem_read_eq_iff: "mem_read m a n = xs \<longleftrightarrow> length xs = n \<and> (\<forall>i<n. m (a + int i) = xs ! i)"
  by (auto simp: mem_read_def list_eq_iff_nth_eq)

lemma mem_read_write_same: "mem_read (mem_write m a bs) a (length bs) = bs"
  by (auto simp: mem_read_eq_iff mem_write_def)

lemma mem_read_write_prefix:
  "length bs \<le> n \<Longrightarrow> take (length bs) (mem_read (mem_write m a bs) a n) = bs"
  by (auto simp: list_eq_iff_nth_eq mem_read_def mem_write_def)

lemma mem_read_write_apart:
  "a + int n \<le> b \<or> b + int (length bs) \<le> a \<Longrightarrow> mem_read (mem_write m b bs) a n = mem_read m a n"
  by (auto simp: mem_read_def mem_write_def)

lemma mem_write_outside: "x < a \<or> a + int (length bs) \<le> x \<Longrightarrow> mem_write m a bs x = m x"
  by (auto simp: mem_write_def)

lemma take_mem_read: "k \<le> n \<Longrightarrow> take k (mem_read m a n) = mem_read m a k"
  by (simp add: mem_read_def take_map)

section \<open>What users of protected buffers rely on\<close>

text \<open>
  Buffers over a shared state: \<open>store\<close> puts bytes that fit at the start of a buffer, \<open>load\<close> reads a
  buffer, \<open>wipe\<close> clears one. Zeros stay zeros under a wipe of any other buffer, overlapping or not.
\<close>

locale secret_buffers =
  fixes store :: "'b \<Rightarrow> bytes \<Rightarrow> 's \<Rightarrow> 's"
    and load :: "'b \<Rightarrow> 's \<Rightarrow> bytes"
    and wipe :: "'b \<Rightarrow> 's \<Rightarrow> 's"
    and capacity :: "'b \<Rightarrow> nat"
    and apart :: "'b \<Rightarrow> 'b \<Rightarrow> bool"
  assumes load_length: "length (load b s) = capacity b"
    and load_store: "length d \<le> capacity b \<Longrightarrow> take (length d) (load b (store b d s)) = d"
    and load_store_other: "apart b b' \<Longrightarrow> length d \<le> capacity b' \<Longrightarrow> load b (store b' d s) = load b s"
    and load_wipe: "load b (wipe b s) = replicate (capacity b) 0"
    and wipe_keeps_zero: "load b s = replicate (capacity b) 0 \<Longrightarrow> load b (wipe b' s) = replicate (capacity b) 0"
    and load_wipe_other: "apart b b' \<Longrightarrow> load b (wipe b' s) = load b s"
begin

lemma load_store_full: "length d = capacity b \<Longrightarrow> load b (store b d s) = d"
  using load_store [of d b s] load_length [of b "store b d s"] by simp

lemma wipe_list_keeps_zero:
  "load b s = replicate (capacity b) 0 \<Longrightarrow> load b (fold wipe bs s) = replicate (capacity b) 0"
  by (induction bs arbitrary: s) (simp_all add: wipe_keeps_zero)

text \<open>Wiping a list of buffers, in any order, clears each of them and no buffer apart from all.\<close>

lemma wipe_list: "b \<in> set bs \<Longrightarrow> load b (fold wipe bs s) = replicate (capacity b) 0"
  by (induction bs arbitrary: s) (auto simp: load_wipe wipe_list_keeps_zero)

lemma wipe_list_other: "(\<forall>b'\<in>set bs. apart b b') \<Longrightarrow> load b (fold wipe bs s) = load b s"
  by (induction bs arbitrary: s) (simp_all add: load_wipe_other)

end

definition pm_store :: "pm \<Rightarrow> bytes \<Rightarrow> pm_state \<Rightarrow> pm_state" where
  "pm_store b d s = (case pm_write b d 0 s of Inl e \<Rightarrow> s | Inr s' \<Rightarrow> s')"

definition pm_load :: "pm \<Rightarrow> pm_state \<Rightarrow> bytes" where
  "pm_load b s = mem_read (pm_mem s) (pm_addr b) (nat (pm_size b))"

definition pm_apart :: "pm \<Rightarrow> pm \<Rightarrow> bool" where
  "pm_apart b b' \<longleftrightarrow> pm_addr b + int (nat (pm_size b)) \<le> pm_addr b' \<or> pm_addr b' + int (nat (pm_size b')) \<le> pm_addr b"

text \<open>\<open>key.read()\<close>, the way the key buffers are read, never raises on a well-formed buffer.\<close>

lemma pm_read_default: "0 \<le> pm_size b \<Longrightarrow> pm_read b 0 None s = Inr (pm_load b s)"
  by (simp add: pm_read_def pm_load_def slice_to_def)

lemma pm_write_store: "int (length d) \<le> pm_size b \<Longrightarrow> pm_write b d 0 s = Inr (pm_store b d s)"
  by (simp add: pm_write_def pm_store_def raise_if_def)

lemma pm_mem_store: "length d \<le> nat (pm_size b) \<Longrightarrow> d \<noteq> [] \<Longrightarrow>
    pm_mem (pm_store b d s) = mem_write (pm_mem s) (pm_addr b) d"
  by (cases d) (auto simp: pm_store_def pm_write_def raise_if_def)

lemma pm_store_Nil: "pm_mem (pm_store b [] s) = pm_mem s"
  by (auto simp: pm_store_def pm_write_def raise_if_def mem_write_def fun_eq_iff)

interpretation pmb: secret_buffers pm_store pm_load pm_zeroise "\<lambda>b. nat (pm_size b)" pm_apart
proof
  fix b b' :: pm and s :: pm_state and d :: bytes
  show "length (pm_load b s) = nat (pm_size b)" by (simp add: pm_load_def)
  show "take (length d) (pm_load b (pm_store b d s)) = d" if "length d \<le> nat (pm_size b)"
    using that by (cases "d = []") (simp_all add: pm_load_def pm_mem_store mem_read_write_prefix)
  show "pm_load b (pm_store b' d s) = pm_load b s" if "pm_apart b b'" "length d \<le> nat (pm_size b')"
  proof (cases "d = []")
    case False
    have "int (length d) \<le> int (nat (pm_size b'))" using that(2) by (simp only: of_nat_le_iff)
    with that(1) have "pm_addr b + int (nat (pm_size b)) \<le> pm_addr b' \<or> pm_addr b' + int (length d) \<le> pm_addr b"
      unfolding pm_apart_def by linarith
    then show ?thesis using that(2) False by (simp add: pm_load_def pm_mem_store mem_read_write_apart)
  qed (simp add: pm_load_def pm_store_Nil)
  show "pm_load b (pm_zeroise b s) = replicate (nat (pm_size b)) 0"
    using mem_read_write_same [of _ _ "replicate (nat (pm_size b)) 0"]
    by (simp add: pm_load_def pm_zeroise_def)
  show "pm_load b (pm_zeroise b' s) = replicate (nat (pm_size b)) 0"
    if "pm_load b s = replicate (nat (pm_size b)) 0"
    using that by (auto simp: pm_load_def pm_zeroise_def mem_read_eq_iff mem_write_def)
  show "pm_load b (pm_zeroise b' s) = pm_load b s" if "pm_apart b b'"
    using that by (auto simp: pm_load_def pm_zeroise_def pm_apart_def intro!: mem_read_write_apart)
qed

section \<open>Pages cover the buffer\<close>

lemma and_not_mask: "(a :: int) AND NOT (2 ^ k - 1) = (a div 2 ^ k) * 2 ^ k"
proof -
  have "a AND NOT (mask k) = push_bit k (drop_bit k a)"
    by (rule bit_eqI) (auto simp: bit_simps)
  then show ?thesis by (simp add: mask_eq_exp_minus_1 push_bit_eq_mult drop_bit_eq_div)
qed

lemma page_down_eq: "page_down (2 ^ k) a = (a div 2 ^ k) * 2 ^ k"
  by (simp add: page_down_def and_not_mask)

lemma page_up_eq: "page_up (2 ^ k) a = ((a + (2 ^ k - 1)) div 2 ^ k) * 2 ^ k"
  by (simp add: page_up_def and_not_mask)

lemma page_down_bounds: "2 ^ k dvd page_down (2 ^ k) a \<and> page_down (2 ^ k) a \<le> a \<and> a < page_down (2 ^ k) a + 2 ^ k"
proof -
  have "a = (a div 2 ^ k) * 2 ^ k + a mod 2 ^ k" by (rule div_mult_mod_eq [symmetric])
  moreover have "0 \<le> a mod 2 ^ k" "a mod 2 ^ k < 2 ^ k" by simp_all
  ultimately have "(a div 2 ^ k) * 2 ^ k \<le> a" "a < (a div 2 ^ k) * 2 ^ k + 2 ^ k" by linarith+
  then show ?thesis by (simp add: page_down_eq)
qed

lemma page_up_bounds: "2 ^ k dvd page_up (2 ^ k) a \<and> a \<le> page_up (2 ^ k) a \<and> page_up (2 ^ k) a < a + 2 ^ k"
proof -
  have "page_up (2 ^ k) a = page_down (2 ^ k) (a + (2 ^ k - 1))" by (simp add: page_up_eq page_down_eq)
  then show ?thesis using page_down_bounds [of k "a + (2 ^ k - 1)"] by auto
qed

lemma libc_handle_Inr: "libc_handle lc s = Inr s' \<Longrightarrow> s' = s\<lparr>pm_libc := True\<rparr>"
  by (auto simp: libc_handle_def bind_res_Inr split: if_splits)

lemma libc_handle_loaded [simp]: "pm_libc s \<Longrightarrow> libc_handle lc s = Inr s"
  by (simp add: libc_handle_def)

lemma libc_handle_ok: "cdll lc (libc_name lc) = Inr () \<Longrightarrow> libc_handle lc s = Inr (s\<lparr>pm_libc := True\<rparr>)"
  by (cases s) (simp add: libc_handle_def)

lemma pm_lock_frame [simp]:
  "pm_mem (pm_lock lc b s) = pm_mem s" "pm_registry (pm_lock lc b s) = pm_registry s"
  "pm_all_locked (pm_lock lc b s) = pm_all_locked s" "pm_libc (pm_lock lc b s) = pm_libc s"
  by (simp_all add: pm_lock_def Let_def)

lemma lock_all_Inr:
  "lock_all lc s = Inr s' \<Longrightarrow>
   pm_libc s' \<and> (pm_all_locked s' \<longleftrightarrow> pm_all_locked s \<or> mlockall lc (MCL_CURRENT OR MCL_FUTURE) = 0)"
  by (cases "libc_handle lc s") (auto simp: lock_all_def dest!: libc_handle_Inr)

lemma ProtectedMemory_Inr:
  "ProtectedMemory lc a n s = Inr (b, s') \<Longrightarrow>
   0 \<le> n \<and> b = \<lparr>pm_addr = a, pm_size = n\<rparr>
   \<and> pm_mem s' = mem_write (pm_mem s) a (replicate (nat n) 0)
   \<and> set (pm_registry s') = insert b (set (pm_registry s))
   \<and> pm_all_locked s' = pm_all_locked s"
  by (auto simp: ProtectedMemory_def bind_res_Inr Let_def dest!: libc_handle_Inr)

section \<open>Properties\<close>

text \<open>
  C32. With a page size that is a power of two, and a kernel that grants both calls, a new buffer
  lies inside one locked and undumpable page range, which is page-aligned at both ends and
  exceeds the buffer by less than a page on either side; its memory is zero.
\<close>

theorem new_buffer_locked:
  assumes "pagesize lc = 2 ^ k" "\<And>a n. mlock lc a n = 0" "\<And>a n adv. madvise lc a n adv = 0"
    and "ProtectedMemory lc a n s = Inr (b, s')"
  shows "\<exists>pa ps. (pa, ps) \<in> set (pm_locked s') \<and> (pa, ps) \<in> set (pm_nodump s') \<and>
    2 ^ k dvd pa \<and> 2 ^ k dvd ps \<and> pa \<le> pm_addr b \<and> pm_addr b + pm_size b \<le> pa + ps \<and>
    pm_addr b < pa + 2 ^ k \<and> pa + ps < pm_addr b + pm_size b + 2 ^ k \<and>
    pm_load b s' = replicate (nat n) 0"
proof -
  let ?pa = "page_down (2 ^ k) a" and ?pe = "page_up (2 ^ k) (a + n)"
  note i = ProtectedMemory_Inr [OF assms(4)]
  have "(?pa, ?pe - ?pa) \<in> set (pm_locked s') \<and> (?pa, ?pe - ?pa) \<in> set (pm_nodump s')"
    using assms by (auto simp: ProtectedMemory_def bind_res_Inr pm_lock_def Let_def dest!: libc_handle_Inr)
  moreover have "pm_load b s' = replicate (nat n) 0"
    using i mem_read_write_same [of "pm_mem s" a "replicate (nat n) 0"] by (simp add: pm_load_def)
  ultimately show ?thesis
    using i page_down_bounds [of k a] page_up_bounds [of k "a + n"]
    by (intro exI [of _ ?pa] exI [of _ "?pe - ?pa"]) (auto simp: dvd_diff)
qed

definition sample_libc :: libc where
  "sample_libc = \<lparr>pagesize = 4096, find_library_c = None, cdll = (\<lambda>n. Inr ()), mlockall = (\<lambda>flags. - 1), mlock = (\<lambda>a n. 0), madvise = (\<lambda>a n adv. 0)\<rparr>"

lemma sample_libc_handle [simp]: "libc_handle sample_libc s = Inr (s\<lparr>pm_libc := True\<rparr>)"
  by (rule libc_handle_ok) (simp add: sample_libc_def)

definition empty_pms :: pm_state where
  "empty_pms = \<lparr>pm_mem = (\<lambda>_. 0xff), pm_registry = [], pm_locked = [], pm_nodump = [], pm_libc = False, pm_all_locked = False\<rparr>"

theorem new_buffer_locked_witness:
  "\<exists>b s'. ProtectedMemory sample_libc 10000 32 empty_pms = Inr (b, s') \<and>
    (\<exists>pa ps. (pa, ps) \<in> set (pm_locked s') \<and> (pa, ps) \<in> set (pm_nodump s') \<and>
    2 ^ 12 dvd pa \<and> 2 ^ 12 dvd ps \<and> pa \<le> pm_addr b \<and> pm_addr b + pm_size b \<le> pa + ps \<and>
    pm_addr b < pa + 2 ^ 12 \<and> pa + ps < pm_addr b + pm_size b + 2 ^ 12 \<and>
    pm_load b s' = replicate (nat 32) 0)"
proof -
  obtain b s' where "ProtectedMemory sample_libc 10000 32 empty_pms = Inr (b, s')"
    by (auto simp: ProtectedMemory_def Let_def)
  then show ?thesis using new_buffer_locked [of sample_libc 12 10000 32 empty_pms b s'] by (auto simp: sample_libc_def)
qed

lemma mem_zeroise_list:
  "pm_mem (fold pm_zeroise bs s) x =
   (if \<exists>b\<in>set bs. pm_addr b \<le> x \<and> x < pm_addr b + int (nat (pm_size b)) then 0 else pm_mem s x)"
  by (induction bs arbitrary: s) (auto simp: pm_zeroise_def mem_write_def)

text \<open>
  \<^verbatim>\<open>zeroise_all\<close> clears every registered buffer, leaves every buffer that is apart from all
  registered ones as it was, and the order in which the registry is visited does not matter.
\<close>

theorem zeroise_all_clears:
  assumes "b \<in> set (pm_registry s)" "\<And>b'. b' \<in> set (pm_registry s) \<Longrightarrow> pm_apart o' b'"
    and "set bs = set (pm_registry s)"
  shows "pm_load b (zeroise_all s) = replicate (nat (pm_size b)) 0 \<and> pm_load o' (zeroise_all s) = pm_load o' s \<and>
    pm_mem (fold pm_zeroise bs s) = pm_mem (zeroise_all s)"
  using pmb.wipe_list [OF assms(1), of s] pmb.wipe_list_other [of "pm_registry s" o' s] assms(2,3)
  by (auto simp: zeroise_all_def fun_eq_iff mem_zeroise_list)

theorem zeroise_all_clears_witness:
  "let b = \<lparr>pm_addr = 100, pm_size = 2\<rparr>; b' = \<lparr>pm_addr = 200, pm_size = 3\<rparr>; o' = \<lparr>pm_addr = 300, pm_size = 4\<rparr>;
       s = empty_pms\<lparr>pm_registry := [b, b']\<rparr>
   in pm_load b (zeroise_all s) = replicate (nat (pm_size b)) 0 \<and> pm_load o' (zeroise_all s) = pm_load o' s \<and>
      pm_mem (fold pm_zeroise [b', b] s) = pm_mem (zeroise_all s)"
  unfolding Let_def by (rule zeroise_all_clears) (auto simp: pm_apart_def)

text \<open>
  The bounds check of \<^verbatim>\<open>write\<close> is one-sided: at a negative offset every data that ends inside
  the buffer is accepted and overwrites the memory before the buffer.
\<close>

theorem pm_write_below_buffer:
  assumes "0 < off" "d \<noteq> []" "int (length d) \<le> pm_size b + off"
  shows "\<exists>s'. pm_write b d (- off) s = Inr s' \<and> pm_mem s' (pm_addr b - off) = d ! 0"
  using assms by (auto simp: pm_write_def raise_if_def mem_write_def)

theorem pm_write_below_buffer_witness:
  "\<exists>s'. pm_write \<lparr>pm_addr = 100, pm_size = 4\<rparr> [7, 7] (- 8) empty_pms = Inr s' \<and>
    pm_mem s' (pm_addr \<lparr>pm_addr = 100, pm_size = 4\<rparr> - 8) = [7, 7] ! 0"
  by (rule pm_write_below_buffer) simp_all

end
