(* ===== verification/Sealing.thy ===== *)
theory Sealing
  imports Crypto Protected_Memory
begin

text \<open>
  Sealed blobs: \<^verbatim>\<open>aes_gcm_seal\<close>, \<^verbatim>\<open>aes_gcm_open\<close> and \<^verbatim>\<open>decrypt_package\<close> of
  \<^verbatim>\<open>src/src/cloud_protection.py\<close>, the binding \<^verbatim>\<open>src/src/rust_unwrap.py\<close> and the function it calls,
  \<^verbatim>\<open>bmsr_hkdf_aesgcm_open\<close> of \<^verbatim>\<open>src/key_unwrap/src/lib.rs\<close>. The Rust crates \<^verbatim>\<open>hkdf\<close> and
  \<^verbatim>\<open>aes_gcm\<close> are parameters of their own (record \<open>rust_crates\<close>), with the hypothesis \<open>crates_agree\<close>
  that they compute the same standard algorithms as the Python package.
\<close>

section \<open>The Python path\<close>

definition SEAL_INFO :: bytes where
  "SEAL_INFO = encode ''cloud-protection/aes-256-gcm/v3''"

text \<open>\<open>key.read()[:32].tobytes()\<close>.\<close>

definition key32 :: "pm \<Rightarrow> pm_state \<Rightarrow> bytes res" where
  "key32 key s = bind_res (pm_read key 0 None s) (\<lambda>m. Inr (take 32 m))"

text \<open>\<^verbatim>\<open>aes_gcm_seal\<close>, with the salt and nonce it draws.\<close>

definition aes_gcm_seal ::
    "crypto \<Rightarrow> bytes \<Rightarrow> bytes \<Rightarrow> bytes \<Rightarrow> pm \<Rightarrow> bytes \<Rightarrow> pm_state \<Rightarrow> bytes res" where
  "aes_gcm_seal c salt nonce plaintext key aad s =
     bind_res (key32 key s) (\<lambda>k.
     bind_res (aesgcm_encrypt c (hkdf_sha512 c 32 salt SEAL_INFO k) nonce plaintext (Some aad)) (\<lambda>ct.
     Inr (salt @ nonce @ ct)))"

definition aes_gcm_open :: "crypto \<Rightarrow> bytes \<Rightarrow> pm \<Rightarrow> bytes \<Rightarrow> pm_state \<Rightarrow> bytes res" where
  "aes_gcm_open c blob key aad s =
     bind_res (raise_if (length blob < 16 + 12 + 16) (ValueError ''blob too short for GCM'')) (\<lambda>_.
     (let salt = take 16 blob; nonce = py_slice 16 28 blob; ct = drop 28 blob in
      bind_res (key32 key s) (\<lambda>k.
      aesgcm_decrypt c (hkdf_sha512 c 32 salt SEAL_INFO k) nonce ct (Some aad))))"

section \<open>The Rust function\<close>

record rust_crates =
  crate_hkdf :: "bytes \<Rightarrow> bytes \<Rightarrow> bytes \<Rightarrow> nat \<Rightarrow> bytes option"
    \<comment> \<open>salt, input key, info, length\<close>
  crate_decrypt :: "bytes \<Rightarrow> bytes \<Rightarrow> bytes \<Rightarrow> bytes \<Rightarrow> bytes option"
    \<comment> \<open>key, nonce, message, associated data\<close>

definition E_NULL :: int where "E_NULL = -1"
definition E_MASTER_SHORT :: int where "E_MASTER_SHORT = -2"
definition E_NONCE_LEN :: int where "E_NONCE_LEN = -3"
definition E_CT_SHORT :: int where "E_CT_SHORT = -4"
definition E_HKDF :: int where "E_HKDF = -5"
definition E_DECRYPT :: int where "E_DECRYPT = -6"
definition E_OUT_CAP :: int where "E_OUT_CAP = -7"

lemmas rust_codes [py_simps] =
  E_NULL_def E_MASTER_SHORT_def E_NONCE_LEN_def E_CT_SHORT_def E_HKDF_def E_DECRYPT_def E_OUT_CAP_def

text \<open>
  \<^verbatim>\<open>bmsr_hkdf_aesgcm_open\<close>. A pointer is \<open>None\<close> when null and else the bytes behind it; \<open>out\<close> is
  the caller's buffer. The result is the return code, the buffer and \<^verbatim>\<open>*out_len\<close> afterwards.
\<close>

definition bmsr_hkdf_aesgcm_open ::
    "rust_crates \<Rightarrow> bytes option \<Rightarrow> nat \<Rightarrow> bytes option \<Rightarrow> nat \<Rightarrow> bytes option \<Rightarrow> nat
     \<Rightarrow> bytes option \<Rightarrow> nat \<Rightarrow> bytes option \<Rightarrow> nat \<Rightarrow> bytes option \<Rightarrow> nat \<Rightarrow> nat option
     \<Rightarrow> int \<times> bytes option \<times> nat option" where
  "bmsr_hkdf_aesgcm_open r master master_len salt salt_len nonce nonce_len ct ct_len aad aad_len
      out out_cap out_len =
     (if master = None \<or> salt = None \<or> nonce = None \<or> ct = None \<or> out = None \<or> out_len = None
      then (E_NULL, out, out_len)
      else if master_len < 32 then (E_MASTER_SHORT, out, out_len)
      else if nonce_len \<noteq> 12 then (E_NONCE_LEN, out, out_len)
      else if ct_len < 16 then (E_CT_SHORT, out, out_len)
      else
        (let pt_len = ct_len - 16 in
         if out_cap < pt_len then (E_OUT_CAP, out, out_len)
         else
           (let master_b = take master_len (the master); salt_b = take salt_len (the salt);
                nonce_b = take nonce_len (the nonce); ct_b = take ct_len (the ct);
                aad_b = (if aad = None \<or> aad_len = 0 then [] else take aad_len (the aad))
            in case crate_hkdf r salt_b (take 32 master_b) SEAL_INFO 32 of
                 None \<Rightarrow> (E_HKDF, out, out_len)
               | Some subkey \<Rightarrow>
                  (case crate_decrypt r subkey nonce_b ct_b aad_b of
                     None \<Rightarrow> (E_DECRYPT, out, out_len)
                   | Some pt \<Rightarrow>
                      (if length pt \<noteq> pt_len \<and> out_cap < length pt then (E_OUT_CAP, out, out_len)
                       else (0, Some (pt @ drop (length pt) (the out)), Some (length pt)))))))"

section \<open>The Python binding\<close>

text \<open>
  Which library files exist, what loading one does, and where the module's own file is: the names on
  the resolved path from the root. The module variable \<^verbatim>\<open>_lib\<close> is a flag, set once a library is loaded.
\<close>

record rust_host =
  lib_exists :: "string \<Rightarrow> bool"
  lib_load :: "string \<Rightarrow> unit res"
  module_file :: "string list"
  crates :: rust_crates

text \<open>\<^verbatim>\<open>Path(__file__).resolve().parent.parent / ...\<close>; the parent of the root is the root.\<close>

definition LIB_CANDIDATES :: "rust_host \<Rightarrow> string list" where
  "LIB_CANDIDATES h =
     [''/'' @ join ''/'' (butlast (butlast (module_file h)) @ [''key_unwrap'', ''target'', ''release'', ''libkey_unwrap.so'']),
      ''/usr/local/lib/libkey_unwrap.so'']"

fun load_first :: "rust_host \<Rightarrow> string list \<Rightarrow> bool res" where
  "load_first h [] = Inr False"
| "load_first h (p # ps) =
     (if lib_exists h p then bind_res (lib_load h p) (\<lambda>_. Inr True) else load_first h ps)"

definition rust_load :: "rust_host \<Rightarrow> bool \<Rightarrow> bool res" where
  "rust_load h lib = (if lib then Inr True else load_first h (LIB_CANDIDATES h))"

definition rust_available :: "rust_host \<Rightarrow> bool \<Rightarrow> bool res" where
  "rust_available h lib = rust_load h lib"

definition hkdf_aesgcm_open :: "rust_host \<Rightarrow> bool \<Rightarrow> bytes \<Rightarrow> bytes \<Rightarrow> bytes \<Rightarrow> bytes res" where
  "hkdf_aesgcm_open h lib master blob aad =
     bind_res (rust_load h lib) (\<lambda>loaded.
     bind_res (raise_if (\<not> loaded) (RustUnwrapError ''libkey_unwrap.so not built'')) (\<lambda>_.
     bind_res (raise_if (length blob < 16 + 12 + 16) (RustUnwrapError ''blob too short'')) (\<lambda>_.
     (let salt = take 16 blob; nonce = py_slice 16 28 blob; ct = drop 28 blob;
          out_cap = length ct - 16;
          out = replicate (max out_cap 1) 0
      in case bmsr_hkdf_aesgcm_open (crates h) (Some master) (length master) (Some salt) (length salt)
                (Some nonce) (length nonce) (Some ct) (length ct) (Some aad) (length aad)
                (Some out) out_cap (Some 0) of
           (rc, out', out_len) \<Rightarrow>
             (if rc \<noteq> 0 then Inl (RustUnwrapError ''rust unwrap failed'')
              else Inr (take (the out_len) (the out')))))))"

section \<open>Decrypting a package\<close>

text \<open>
  The host file system as \<^verbatim>\<open>decrypt_package\<close> uses it: the sealed files in the order \<^verbatim>\<open>rglob\<close> yields
  them (paths relative to the sealed directory), their contents, and the outcomes of creating a
  directory and of writing an output file. The files below the output directory are a map.
  \<^verbatim>\<open>write_bytes\<close> opens, and so truncates, the file before it writes: when it fails, \<open>pkg_left\<close> is how many
  of the bytes are in the file then, or nothing when the file could not be opened.
\<close>

record pkg_host =
  pkg_files :: "string list"
  pkg_read :: "string \<Rightarrow> bytes res"
  pkg_mkdir :: "string \<Rightarrow> unit res"
  pkg_put :: "string \<Rightarrow> bytes \<Rightarrow> unit res"
  pkg_left :: "string \<Rightarrow> bytes \<Rightarrow> nat option"

text \<open>
  \<^verbatim>\<open>with_suffix("")\<close> on a path whose name ends in \<open>.aesgcm\<close>: a name that consists of the suffix
  only has no suffix for \<^verbatim>\<open>pathlib\<close> and stays.
\<close>

definition pkg_rel :: "string \<Rightarrow> string" where
  "pkg_rel p = (if last (split_on CHR ''/'' p) = ''.aesgcm'' then p else take (length p - 7) p)"

fun decrypt_files ::
    "(bytes \<Rightarrow> bytes \<Rightarrow> bytes res) \<Rightarrow> pkg_host \<Rightarrow> string list \<Rightarrow> nat \<Rightarrow> (string \<rightharpoonup> bytes)
     \<Rightarrow> nat res \<times> (string \<rightharpoonup> bytes)" where
  "decrypt_files opn h [] count outs = (Inr count, outs)"
| "decrypt_files opn h (p # ps) count outs =
     (let rel = pkg_rel p in
      case bind_res (pkg_mkdir h rel) (\<lambda>_. bind_res (pkg_read h p) (\<lambda>blob. opn blob (encode rel))) of
        Inl e \<Rightarrow> (Inl e, outs)
      | Inr pt \<Rightarrow>
         (case pkg_put h rel pt of
            Inl e \<Rightarrow> (Inl e, case pkg_left h rel pt of None \<Rightarrow> outs | Some n \<Rightarrow> outs(rel \<mapsto> take n pt))
          | Inr _ \<Rightarrow> decrypt_files opn h ps (count + 1) (outs(rel \<mapsto> pt))))"

text \<open>The opener of one file, by the path chosen.\<close>

definition open_blob ::
    "crypto \<Rightarrow> rust_host \<Rightarrow> bool \<Rightarrow> pm \<Rightarrow> pm_state \<Rightarrow> bytes \<Rightarrow> bytes \<Rightarrow> bytes res" where
  "open_blob c rh use_rust key s blob aad =
     (if use_rust then bind_res (key32 key s) (\<lambda>k. hkdf_aesgcm_open rh True k blob aad)
      else aes_gcm_open c blob key aad s)"

definition decrypt_package ::
    "crypto \<Rightarrow> rust_host \<Rightarrow> bool \<Rightarrow> pkg_host \<Rightarrow> pm \<Rightarrow> pm_state \<Rightarrow> bool \<Rightarrow> (string \<rightharpoonup> bytes)
     \<Rightarrow> nat res \<times> (string \<rightharpoonup> bytes)" where
  "decrypt_package c rh lib h key s require_rust outs =
     (case bind_res (pkg_mkdir h []) (\<lambda>_. bind_res (rust_available rh lib) (\<lambda>use_rust.
           bind_res (raise_if (require_rust \<and> \<not> use_rust)
             (CloudAttestationError ''production requires the Rust key_unwrap cdylib'')) (\<lambda>_.
           Inr use_rust))) of
        Inl e \<Rightarrow> (Inl e, outs)
      | Inr use_rust \<Rightarrow> decrypt_files (open_blob c rh use_rust key s) h (pkg_files h) 0 outs)"

section \<open>Hypotheses on the Rust crates\<close>

text \<open>
  Both sides implement RFC 5869 with SHA-512 and AES-256-GCM with a 16-byte tag: equal derived
  keys, decryption succeeds on the same inputs with the same plaintext, 16 bytes shorter.
\<close>

definition crates_agree :: "crypto \<Rightarrow> rust_crates \<Rightarrow> bool" where
  "crates_agree c r \<longleftrightarrow>
     (\<forall>salt ikm info. crate_hkdf r salt ikm info 32 = Some (hkdf_sha512 c 32 salt info ikm)) \<and>
     (\<forall>k n ct a p. crate_decrypt r k n ct a = Some p \<longleftrightarrow> aesgcm_decrypt c k n ct (Some a) = Inr p) \<and>
     (\<forall>k n ct a p. crate_decrypt r k n ct a = Some p \<longrightarrow> length ct = length p + 16)"

definition sample_crates :: rust_crates where
  "sample_crates = \<lparr>
     crate_hkdf = (\<lambda>salt ikm info n. Some (take n (ikm @ replicate n 0))),
     crate_decrypt = (\<lambda>k n ct a. if length ct < 16 then None else Some (take (length ct - 16) ct))\<rparr>"

lemma sample_crates_agree: "crates_agree sample_crypto sample_crates"
  by (auto simp: crates_agree_def sample_crypto_def sample_crates_def)

section \<open>Lemmas of the two openers\<close>

lemma key32_default: "0 \<le> pm_size key \<Longrightarrow> key32 key s = Inr (take 32 (pm_load key s))"
  by (simp add: key32_def pm_read_default)

lemma aes_gcm_open_seal:
  assumes "aead_correct c" "hkdf_length c" "length salt = 16" "length nonce = 12" "0 \<le> pm_size key"
  shows "\<exists>blob. aes_gcm_seal c salt nonce pt key aad s = Inr blob \<and> length blob = length pt + 44
    \<and> aes_gcm_open c blob key aad s = Inr pt"
proof -
  let ?k = "hkdf_sha512 c 32 salt SEAL_INFO (take 32 (pm_load key s))"
  have "length ?k = 32" using assms(2) by (simp add: hkdf_length_def)
  then obtain ct where ct: "aesgcm_encrypt c ?k nonce pt (Some aad) = Inr ct" "length ct = length pt + 16"
      "aesgcm_decrypt c ?k nonce ct (Some aad) = Inr pt"
    using assms(1,4) unfolding aead_correct_def by blast
  moreover have "py_slice 16 28 (salt @ nonce @ ct) = nonce" "drop 28 (salt @ nonce @ ct) = ct"
    using assms(3,4) by (simp_all add: py_slice_def)
  ultimately show ?thesis
    using assms(3,4,5) by (simp add: aes_gcm_seal_def aes_gcm_open_def key32_default Let_def raise_if_def)
qed

text \<open>The Rust function never writes past the capacity it was given.\<close>

lemma bmsr_open_writes_within:
  assumes "bmsr_hkdf_aesgcm_open r master ml salt sl nonce nl ct cl aad al (Some out) out_cap (Some n)
      = (rc, Some out', n')"
    and "out_cap \<le> length out"
  shows "length out' = length out \<and> drop out_cap out' = drop out_cap out
    \<and> (rc = 0 \<longrightarrow> (\<exists>k. n' = Some k \<and> k \<le> out_cap))"
  using assms unfolding bmsr_hkdf_aesgcm_open_def Let_def
  by (auto simp: rust_codes split: if_splits option.splits)

lemma bmsr_open_Some:
  assumes "crates_agree c r" "32 \<le> length master" "length nonce = 12" "16 \<le> length ct" "length ct - 16 \<le> length out"
  shows "bmsr_hkdf_aesgcm_open r (Some master) (length master) (Some salt) (length salt) (Some nonce) (length nonce)
      (Some ct) (length ct) (Some aad) (length aad) (Some out) (length ct - 16) (Some 0)
    = (case aesgcm_decrypt c (hkdf_sha512 c 32 salt SEAL_INFO (take 32 master)) nonce ct (Some aad) of
         Inl e \<Rightarrow> (E_DECRYPT, Some out, Some 0)
       | Inr pt \<Rightarrow> (0, Some (pt @ drop (length pt) out), Some (length pt)))"
proof -
  let ?k = "hkdf_sha512 c 32 salt SEAL_INFO (take 32 master)"
  have h: "crate_hkdf r salt (take 32 master) SEAL_INFO 32 = Some ?k"
    using assms(1) by (simp add: crates_agree_def)
  show ?thesis
  proof (cases "crate_decrypt r ?k nonce ct aad")
    case None
    moreover then obtain e where "aesgcm_decrypt c ?k nonce ct (Some aad) = Inl e"
      using assms(1) unfolding crates_agree_def
      by (cases "aesgcm_decrypt c ?k nonce ct (Some aad)") (metis option.distinct(1))+
    ultimately show ?thesis
      using assms(2-) h by (cases "aad = []") (simp_all add: bmsr_hkdf_aesgcm_open_def Let_def)
  next
    case (Some pt)
    moreover then have "aesgcm_decrypt c ?k nonce ct (Some aad) = Inr pt" "length pt = length ct - 16"
      using assms(1) unfolding crates_agree_def by (metis, metis add_diff_cancel_right')
    ultimately show ?thesis
      using assms(2-) h by (cases "aad = []") (simp_all add: bmsr_hkdf_aesgcm_open_def Let_def)
  qed
qed

text \<open>Both paths open the same blobs to the same plaintexts.\<close>

lemma rust_python_agree:
  assumes "crates_agree c (crates rh)" "32 \<le> pm_size key" "rust_load rh lib = Inr True"
  shows "bind_res (key32 key s) (\<lambda>k. hkdf_aesgcm_open rh lib k blob aad) = Inr pt \<longleftrightarrow>
    aes_gcm_open c blob key aad s = Inr pt"
proof (cases "length blob < 44")
  case True
  then show ?thesis using assms by (simp add: hkdf_aesgcm_open_def aes_gcm_open_def key32_default)
next
  case False
  let ?k = "take 32 (pm_load key s)"
  have l: "length ?k = 32" using assms(2) pmb.load_length [of key s] by simp
  have f: "length (py_slice 16 28 blob) = 12" "16 \<le> length (drop 28 blob)"
    using False by (auto simp: py_slice_def)
  have "length (drop 28 blob) - 16 \<le> length (replicate (max (length (drop 28 blob) - 16) 1) (0 :: byte))"
    by simp
  note b = bmsr_open_Some [OF assms(1) eq_refl [OF l [symmetric]] f this]
  have "hkdf_aesgcm_open rh lib ?k blob aad =
      (case aesgcm_decrypt c (hkdf_sha512 c 32 (take 16 blob) SEAL_INFO (take 32 ?k))
          (py_slice 16 28 blob) (drop 28 blob) (Some aad) of
         Inl e \<Rightarrow> Inl (RustUnwrapError ''rust unwrap failed'') | Inr pt \<Rightarrow> Inr pt)"
    unfolding hkdf_aesgcm_open_def Let_def b using False assms(3)
    by (simp add: raise_if_def rust_codes split: sum.splits)
  then show ?thesis
    using False assms(2) by (auto simp: aes_gcm_open_def key32_default Let_def split: sum.splits)
qed

section \<open>Packages\<close>

text \<open>
  What \<open>decrypt_files\<close> needs of an opener: a blob that was sealed for an associated data opens to
  its plaintext. \<open>sealed\<close> relates a blob and its associated data to the plaintext.
\<close>

locale blob_opener =
  fixes opn :: "bytes \<Rightarrow> bytes \<Rightarrow> bytes res"
    and sealed :: "bytes \<Rightarrow> bytes \<Rightarrow> bytes \<Rightarrow> bool"
  assumes open_sealed: "sealed blob aad pt \<Longrightarrow> opn blob aad = Inr pt"
begin

lemma sealed_unique: "sealed blob aad pt \<Longrightarrow> sealed blob aad pt' \<Longrightarrow> pt = pt'"
  using open_sealed by (metis sum.inject(2))

text \<open>A package of properly sealed files decrypts completely, every file at its own path.\<close>

lemma decrypt_files_complete:
  assumes "\<And>p. p \<in> set ps \<Longrightarrow> pkg_mkdir h (pkg_rel p) = Inr ()"
    and "\<And>p. p \<in> set ps \<Longrightarrow> \<exists>blob. pkg_read h p = Inr blob \<and> sealed blob (encode (pkg_rel p)) (content p)"
    and "\<And>p d. p \<in> set ps \<Longrightarrow> pkg_put h (pkg_rel p) d = Inr ()"
  shows "decrypt_files opn h ps n outs =
    (Inr (n + length ps), fold (\<lambda>p o'. o'(pkg_rel p \<mapsto> content p)) ps outs)"
  using assms
proof (induction ps arbitrary: n outs)
  case (Cons p ps)
  obtain blob where "pkg_read h p = Inr blob" "sealed blob (encode (pkg_rel p)) (content p)"
    using Cons.prems(2) [of p] by auto
  moreover then have "opn blob (encode (pkg_rel p)) = Inr (content p)" by (intro open_sealed)
  moreover have "decrypt_files opn h ps (n + 1) (outs(pkg_rel p \<mapsto> content p)) =
      (Inr (n + 1 + length ps), fold (\<lambda>p o'. o'(pkg_rel p \<mapsto> content p)) ps (outs(pkg_rel p \<mapsto> content p)))"
    using Cons.prems by (intro Cons.IH) auto
  ultimately show ?case using Cons.prems(1,3) by (simp add: Let_def del: fun_upd_apply)
qed simp

end

text \<open>
  Blobs that \<^verbatim>\<open>aes_gcm_seal\<close> made under the key held in a buffer, with the documented behaviour of
  the packages the two paths use.
\<close>

definition sealed_by ::
    "crypto \<Rightarrow> rust_host \<Rightarrow> pm \<Rightarrow> pm_state \<Rightarrow> bytes \<Rightarrow> bytes \<Rightarrow> bytes \<Rightarrow> bool" where
  "sealed_by c rh key s blob aad pt \<longleftrightarrow>
     aead_correct c \<and> hkdf_length c \<and> crates_agree c (crates rh) \<and> 32 \<le> pm_size key \<and>
     (\<exists>salt nonce. length salt = 16 \<and> length nonce = 12 \<and> aes_gcm_seal c salt nonce pt key aad s = Inr blob)"

interpretation opener: blob_opener "open_blob c rh use_rust key s" "sealed_by c rh key s"
  for c rh use_rust key s
proof
  fix blob aad pt
  assume a: "sealed_by c rh key s blob aad pt"
  then obtain salt nonce where *: "length salt = 16" "length nonce = 12"
      "aes_gcm_seal c salt nonce pt key aad s = Inr blob" and sz: "32 \<le> pm_size key"
    by (auto simp: sealed_by_def)
  then have o': "aes_gcm_open c blob key aad s = Inr pt"
    using a aes_gcm_open_seal [of c salt nonce key pt aad s] by (auto simp: sealed_by_def)
  moreover have "bind_res (key32 key s) (\<lambda>k. hkdf_aesgcm_open rh True k blob aad) = Inr pt"
    using rust_python_agree [of c rh key True s blob aad pt] a sz o'
    by (simp add: sealed_by_def rust_load_def)
  ultimately show "open_blob c rh use_rust key s blob aad = Inr pt" by (simp add: open_blob_def)
qed

text \<open>One file: the opened blob is written, or the call ends there.\<close>

lemma decrypt_files_Cons_cases:
  obtains (closed) e where "decrypt_files opn h (p # ps) n outs = (Inl e, outs)"
  | (torn) blob pt e where "pkg_read h p = Inr blob" "opn blob (encode (pkg_rel p)) = Inr pt" "pkg_put h (pkg_rel p) pt = Inl e"
      "decrypt_files opn h (p # ps) n outs =
        (Inl e, case pkg_left h (pkg_rel p) pt of None \<Rightarrow> outs | Some n \<Rightarrow> outs(pkg_rel p \<mapsto> take n pt))"
  | (put) blob pt where "pkg_read h p = Inr blob" "opn blob (encode (pkg_rel p)) = Inr pt" "pkg_put h (pkg_rel p) pt = Inr ()"
      "decrypt_files opn h (p # ps) n outs = decrypt_files opn h ps (n + 1) (outs(pkg_rel p \<mapsto> pt))"
proof (cases "bind_res (pkg_mkdir h (pkg_rel p)) (\<lambda>_. bind_res (pkg_read h p) (\<lambda>blob. opn blob (encode (pkg_rel p))))")
  case (Inl e)
  then show thesis by (intro closed) (simp add: Let_def)
next
  case (Inr pt)
  then obtain blob where b: "pkg_read h p = Inr blob" "opn blob (encode (pkg_rel p)) = Inr pt"
    by (auto simp: bind_res_Inr)
  show thesis
  proof (cases "pkg_put h (pkg_rel p) pt")
    case (Inl e)
    with Inr show thesis by (intro torn [OF b Inl]) (simp add: Let_def)
  next
    case (Inr u)
    with \<open>bind_res _ _ = _\<close> show thesis by (intro put [OF b]) (simp_all add: Let_def del: fun_upd_apply)
  qed
qed

text \<open>
  Whatever the outcome, each output file is one that was there, or the authenticated plaintext of a
  sealed file, opened with the file's own path as associated data, or, when the call failed because
  that very file could not be written, a prefix of it.
\<close>

lemma decrypt_files_outputs:
  "snd (decrypt_files opn h ps n outs) rel = Some d \<Longrightarrow>
   outs rel = Some d \<or>
   (\<exists>p\<in>set ps. \<exists>blob pt. pkg_rel p = rel \<and> pkg_read h p = Inr blob \<and> opn blob (encode rel) = Inr pt \<and>
      (d = pt \<or> (\<exists>e k. fst (decrypt_files opn h ps n outs) = Inl e \<and> pkg_put h rel pt = Inl e \<and>
         pkg_left h rel pt = Some k \<and> d = take k pt)))"
proof (induction ps arbitrary: n outs)
  case (Cons p ps)
  show ?case
  proof (cases rule: decrypt_files_Cons_cases [of opn h p ps n outs])
    case closed
    then show ?thesis using Cons.prems by simp
  next
    case (torn blob pt e)
    then show ?thesis using Cons.prems by (auto simp del: decrypt_files.simps split: option.splits if_splits)
  next
    case (put blob pt)
    have "snd (decrypt_files opn h ps (n + 1) (outs(pkg_rel p \<mapsto> pt))) rel = Some d" using Cons.prems put(4) by simp
    note ih = Cons.IH [OF this]
    show ?thesis
    proof (cases "pkg_rel p = rel \<and> pt = d")
      case True
      then show ?thesis using put(1,2) by auto
    next
      case False
      then have "(outs(pkg_rel p \<mapsto> pt)) rel = Some d \<Longrightarrow> outs rel = Some d" by (auto split: if_splits)
      with ih show ?thesis unfolding put(4) list.set by blast
    qed
  qed
qed simp

text \<open>After a success every sealed file was opened, and its output holds what was opened last for its path.\<close>

lemma decrypt_files_count: "fst (decrypt_files opn h ps n outs) = Inr k \<Longrightarrow> k = n + length ps"
proof (induction ps arbitrary: n outs)
  case (Cons p ps)
  from Cons.prems obtain o' where "fst (decrypt_files opn h ps (n + 1) o') = Inr k"
    by (cases rule: decrypt_files_Cons_cases [of opn h p ps n outs]) (auto simp del: decrypt_files.simps)
  then show ?case using Cons.IH by fastforce
qed simp

lemma decrypt_files_keeps:
  "fst (decrypt_files opn h ps n outs) = Inr k \<Longrightarrow> rel \<notin> pkg_rel ` set ps \<Longrightarrow>
   snd (decrypt_files opn h ps n outs) rel = outs rel"
proof (induction ps arbitrary: n outs)
  case (Cons p ps)
  show ?case
  proof (cases rule: decrypt_files_Cons_cases [of opn h p ps n outs])
    case (put blob pt)
    have "snd (decrypt_files opn h ps (n + 1) (outs(pkg_rel p \<mapsto> pt))) rel = (outs(pkg_rel p \<mapsto> pt)) rel"
      by (rule Cons.IH) (use Cons.prems in \<open>simp_all only: put(4), simp_all\<close>)
    then show ?thesis unfolding put(4) using Cons.prems(2) by simp
  qed (use Cons.prems(1) in simp_all)
qed simp

lemma decrypt_files_written:
  "fst (decrypt_files opn h ps n outs) = Inr k \<Longrightarrow> p \<in> set ps \<Longrightarrow>
   (\<exists>blob pt. pkg_read h p = Inr blob \<and> opn blob (encode (pkg_rel p)) = Inr pt) \<and>
   (\<exists>q\<in>set ps. \<exists>blob pt. pkg_rel q = pkg_rel p \<and> pkg_read h q = Inr blob \<and> opn blob (encode (pkg_rel p)) = Inr pt \<and>
      snd (decrypt_files opn h ps n outs) (pkg_rel p) = Some pt)"
proof (induction ps arbitrary: n outs p)
  case (Cons p' ps)
  show ?case
  proof (cases rule: decrypt_files_Cons_cases [of opn h p' ps n outs])
    case (put blob pt)
    have ok: "fst (decrypt_files opn h ps (n + 1) (outs(pkg_rel p' \<mapsto> pt))) = Inr k" using Cons.prems(1) put(4) by simp
    show ?thesis
    proof (cases "p \<in> set ps")
      case True
      from Cons.IH [OF ok True] show ?thesis unfolding put(4) list.set by blast
    next
      case False
      then have p: "p = p'" using Cons.prems(2) by simp
      show ?thesis
      proof (cases "pkg_rel p \<in> pkg_rel ` set ps")
        case True
        then obtain q where q: "q \<in> set ps" "pkg_rel q = pkg_rel p" by auto
        show ?thesis using Cons.IH [OF ok q(1)] put(1,2) unfolding put(4) q(2) p list.set by blast
      next
        case False
        from decrypt_files_keeps [OF ok this] have "snd (decrypt_files opn h ps (n + 1) (outs(pkg_rel p' \<mapsto> pt))) (pkg_rel p') = Some pt"
          using p by simp
        then show ?thesis unfolding put(4) p list.set using put(1,2) by blast
      qed
    qed
  qed (use Cons.prems in simp_all)
qed simp

section \<open>Properties\<close>

text \<open>
  A blob sealed under the key in a buffer opens, under the same key and associated data, to the
  sealed plaintext; it is 44 bytes longer than the plaintext.
\<close>

theorem seal_open_roundtrip:
  assumes "aead_correct c" "hkdf_length c" "length salt = 16" "length nonce = 12" "0 \<le> pm_size key"
  shows "\<exists>blob. aes_gcm_seal c salt nonce pt key aad s = Inr blob \<and> length blob = length pt + 44 \<and>
    aes_gcm_open c blob key aad s = Inr pt"
  using assms by (rule aes_gcm_open_seal)

abbreviation sample_key :: pm where
  "sample_key \<equiv> \<lparr>pm_addr = 4096, pm_size = 32\<rparr>"

theorem seal_open_roundtrip_witness:
  "\<exists>blob. aes_gcm_seal sample_crypto (replicate 16 1) (replicate 12 2) [3] sample_key [4] empty_pms = Inr blob \<and>
    length blob = length [3 :: byte] + 44 \<and> aes_gcm_open sample_crypto blob sample_key [4] empty_pms = Inr [3]"
  by (rule seal_open_roundtrip) (simp_all add: sample_correct)

text \<open>
  C24. The Rust path and the Python path open the same blobs to the same plaintexts, when the crates
  and the package compute the same algorithms, for a key buffer of at least 32 bytes.
\<close>

theorem rust_python_equivalent:
  assumes "crates_agree c (crates rh)" "32 \<le> pm_size key"
  shows "open_blob c rh True key s blob aad = Inr pt \<longleftrightarrow> open_blob c rh False key s blob aad = Inr pt"
  using rust_python_agree [OF assms, of True s blob aad pt] by (simp add: open_blob_def rust_load_def)

definition sample_rust :: rust_host where
  "sample_rust = \<lparr>lib_exists = (\<lambda>p. True), lib_load = (\<lambda>p. Inr ()),
     module_file = [''opt'', ''src'', ''rust_unwrap.py''], crates = sample_crates\<rparr>"

theorem rust_python_equivalent_witness:
  "open_blob sample_crypto sample_rust True sample_key empty_pms (replicate 50 1) [] = Inr (replicate 6 1) \<longleftrightarrow>
   open_blob sample_crypto sample_rust False sample_key empty_pms (replicate 50 1) [] = Inr (replicate 6 1)"
  by (rule rust_python_equivalent) (simp_all add: sample_rust_def sample_crates_agree)

text \<open>
  C38. The Rust function is memory safe in its output: it never writes past the capacity it is
  given, whatever the crates return, and on success the reported length is within the capacity.
\<close>

theorem rust_open_in_bounds:
  assumes "bmsr_hkdf_aesgcm_open r master ml salt sl nonce nl ct cl aad al (Some out) out_cap (Some n)
      = (rc, Some out', n')"
    and "out_cap \<le> length out"
  shows "length out' = length out \<and> drop out_cap out' = drop out_cap out
    \<and> (rc = 0 \<longrightarrow> (\<exists>k. n' = Some k \<and> k \<le> out_cap))"
  using assms by (rule bmsr_open_writes_within)

theorem rust_open_in_bounds_witness:
  "bmsr_hkdf_aesgcm_open sample_crates (Some (replicate 32 1)) 32 (Some []) 0 (Some (replicate 12 0)) 12
      (Some (replicate 18 5)) 18 (Some []) 0 (Some [8, 8, 8]) 2 (Some 0) = (0, Some [5, 5, 8], Some 2) \<and>
   drop 2 [5, 5, 8 :: byte] = drop 2 [8, 8, 8]"
proof -
  have "bmsr_hkdf_aesgcm_open sample_crates (Some (replicate 32 1)) 32 (Some []) 0 (Some (replicate 12 0)) 12
      (Some (replicate 18 5)) 18 (Some []) 0 (Some [8, 8, 8]) 2 (Some 0) = (0, Some [5, 5, 8], Some 2)"
    by (simp add: bmsr_hkdf_aesgcm_open_def sample_crates_def Let_def numeral_2_eq_2)
  then show ?thesis using rust_open_in_bounds by fastforce
qed

lemma fold_outputs:
  "p \<in> set ps \<Longrightarrow> distinct (map pkg_rel ps) \<Longrightarrow>
   fold (\<lambda>p o'. o'(pkg_rel p \<mapsto> content p)) ps outs (pkg_rel p) = Some (content p)"
proof (induction ps arbitrary: outs)
  case (Cons q ps)
  have stay: "rel \<notin> pkg_rel ` set ps \<Longrightarrow> fold (\<lambda>p o'. o'(pkg_rel p \<mapsto> content p)) ps m rel = m rel" for m rel ps
    by (induction ps arbitrary: m) (auto simp del: fun_upd_apply simp: fun_upd_other)
  from Cons show ?case
    by (cases "p = q") (auto simp: stay simp del: fun_upd_apply, simp)
qed simp

lemma decrypt_package_served:
  assumes "pkg_mkdir h [] = Inr ()" "rust_available rh lib = Inr use_rust" "require_rust \<longrightarrow> use_rust"
    and "distinct (map pkg_rel (pkg_files h))"
    and "\<And>p. p \<in> set (pkg_files h) \<Longrightarrow> pkg_mkdir h (pkg_rel p) = Inr ()"
    and "\<And>p. p \<in> set (pkg_files h) \<Longrightarrow>
      \<exists>blob. pkg_read h p = Inr blob \<and> sealed_by c rh key s blob (encode (pkg_rel p)) (content p)"
    and "\<And>p d. p \<in> set (pkg_files h) \<Longrightarrow> pkg_put h (pkg_rel p) d = Inr ()"
  shows "fst (decrypt_package c rh lib h key s require_rust outs) = Inr (length (pkg_files h)) \<and>
    (\<forall>p\<in>set (pkg_files h). snd (decrypt_package c rh lib h key s require_rust outs) (pkg_rel p) = Some (content p))"
proof -
  have "decrypt_package c rh lib h key s require_rust outs =
      decrypt_files (open_blob c rh use_rust key s) h (pkg_files h) 0 outs"
    using assms(1-3) by (auto simp: decrypt_package_def raise_if_def)
  also have "\<dots> = (Inr (0 + length (pkg_files h)), fold (\<lambda>p o'. o'(pkg_rel p \<mapsto> content p)) (pkg_files h) outs)"
    by (rule opener.decrypt_files_complete [where rh = rh and c = c and s = s and key = key]) (rule assms(5-7); assumption)+
  finally show ?thesis by (simp del: fun_upd_apply) (intro ballI fold_outputs assms(4))
qed

text \<open>
  C25. A package sealed file by file under the key, each with its own relative path as associated
  data, decrypts completely on either path: the call returns the number of files and each file's
  plaintext is at its path, with the paths distinct.
\<close>

theorem decrypt_package_complete:
  assumes "pkg_mkdir h [] = Inr ()" "rust_available rh lib = Inr use_rust" "require_rust \<longrightarrow> use_rust"
    and "distinct (map pkg_rel (pkg_files h))"
    and "\<And>p. p \<in> set (pkg_files h) \<Longrightarrow> pkg_mkdir h (pkg_rel p) = Inr ()"
    and "\<And>p. p \<in> set (pkg_files h) \<Longrightarrow>
      \<exists>blob. pkg_read h p = Inr blob \<and> sealed_by c rh key s blob (encode (pkg_rel p)) (content p)"
    and "\<And>p d. p \<in> set (pkg_files h) \<Longrightarrow> pkg_put h (pkg_rel p) d = Inr ()"
  shows "fst (decrypt_package c rh lib h key s require_rust outs) = Inr (length (pkg_files h)) \<and>
    (\<forall>p\<in>set (pkg_files h). snd (decrypt_package c rh lib h key s require_rust outs) (pkg_rel p) = Some (content p))"
  using assms by (rule decrypt_package_served)

definition sample_pkg :: pkg_host where
  "sample_pkg = \<lparr>pkg_files = [''a.aesgcm'', ''d/b.aesgcm''],
     pkg_read = (\<lambda>p. aes_gcm_seal sample_crypto (replicate 16 1) (replicate 12 2) (encode p) sample_key (encode (pkg_rel p)) empty_pms),
     pkg_mkdir = (\<lambda>p. Inr ()), pkg_put = (\<lambda>p d. Inr ()),
     pkg_left = (\<lambda>p d. None)\<rparr>"

lemma sample_sealed:
  "\<exists>blob. pkg_read sample_pkg p = Inr blob \<and>
     sealed_by sample_crypto sample_rust sample_key empty_pms blob (encode (pkg_rel p)) (encode p)"
proof -
  obtain blob where "aes_gcm_seal sample_crypto (replicate 16 1) (replicate 12 2) (encode p) sample_key (encode (pkg_rel p)) empty_pms = Inr blob"
    using aes_gcm_open_seal [OF sample_aead sample_hkdf, of "replicate 16 1" "replicate 12 2" sample_key
        "encode p" "encode (pkg_rel p)" empty_pms] by auto
  moreover then have "sealed_by sample_crypto sample_rust sample_key empty_pms blob (encode (pkg_rel p)) (encode p)"
    unfolding sealed_by_def
    by (intro conjI exI [of _ "replicate 16 1"] exI [of _ "replicate 12 2"])
       (simp_all add: sample_correct sample_rust_def sample_crates_agree)
  ultimately show ?thesis by (simp add: sample_pkg_def)
qed

lemma sample_pkg_ok:
  "rust_available sample_rust False = Inr True" "distinct (map pkg_rel (pkg_files sample_pkg))"
  "pkg_mkdir sample_pkg q = Inr ()" "pkg_put sample_pkg q d = Inr ()"
  by (simp_all add: rust_available_def rust_load_def sample_rust_def sample_pkg_def pkg_rel_def LIB_CANDIDATES_def)

theorem decrypt_package_complete_witness:
  "fst (decrypt_package sample_crypto sample_rust False sample_pkg sample_key empty_pms True Map.empty) = Inr 2 \<and>
   snd (decrypt_package sample_crypto sample_rust False sample_pkg sample_key empty_pms True Map.empty) (pkg_rel ''d/b.aesgcm'')
     = Some (encode ''d/b.aesgcm'')"
proof -
  have "fst (decrypt_package sample_crypto sample_rust False sample_pkg sample_key empty_pms True Map.empty) = Inr (length (pkg_files sample_pkg)) \<and>
    (\<forall>p\<in>set (pkg_files sample_pkg).
       snd (decrypt_package sample_crypto sample_rust False sample_pkg sample_key empty_pms True Map.empty) (pkg_rel p) = Some (encode p))"
    by (rule decrypt_package_complete) (simp_all add: sample_pkg_ok sample_sealed)
  moreover have "pkg_files sample_pkg = [''a.aesgcm'', ''d/b.aesgcm'']" by (simp add: sample_pkg_def)
  ultimately show ?thesis by simp
qed

text \<open>
  C26. Whatever happens, an output file is one that was there before or the authenticated plaintext
  of a sealed file opened with that very output path as associated data, so blobs cannot be
  swapped; only when the call raised the error of writing this file can it hold a prefix of that
  plaintext instead. When the Rust library is required but missing, nothing is decrypted.
\<close>

theorem decrypt_package_outputs:
  assumes "snd (decrypt_package c rh lib h key s require_rust outs) rel = Some d" "outs rel \<noteq> Some d"
  shows "\<exists>use_rust p blob pt. rust_available rh lib = Inr use_rust \<and> (require_rust \<longrightarrow> use_rust) \<and>
    p \<in> set (pkg_files h) \<and> pkg_rel p = rel \<and> pkg_read h p = Inr blob \<and>
    open_blob c rh use_rust key s blob (encode rel) = Inr pt \<and>
    (d = pt \<or> (\<exists>e k. fst (decrypt_package c rh lib h key s require_rust outs) = Inl e \<and>
       pkg_put h rel pt = Inl e \<and> pkg_left h rel pt = Some k \<and> d = take k pt))"
proof -
  obtain use_rust where u: "rust_available rh lib = Inr use_rust" "require_rust \<longrightarrow> use_rust"
      "decrypt_package c rh lib h key s require_rust outs =
        decrypt_files (open_blob c rh use_rust key s) h (pkg_files h) 0 outs"
    using assms unfolding decrypt_package_def
    by (auto split: sum.splits simp: bind_res_Inr)
  have "snd (decrypt_files (open_blob c rh use_rust key s) h (pkg_files h) 0 outs) rel = Some d"
    using assms(1) unfolding u(3) .
  from decrypt_files_outputs [OF this] show ?thesis unfolding u(3) using u(1,2) assms(2) by blast
qed

theorem decrypt_package_outputs_witness:
  "\<exists>use_rust p blob. rust_available sample_rust False = Inr use_rust \<and>
    p \<in> set (pkg_files sample_pkg) \<and> pkg_rel p = ''a'' \<and> pkg_read sample_pkg p = Inr blob \<and>
    open_blob sample_crypto sample_rust use_rust sample_key empty_pms blob (encode ''a'') = Inr (encode ''a.aesgcm'')"
proof -
  have "\<forall>p\<in>set (pkg_files sample_pkg).
      snd (decrypt_package sample_crypto sample_rust False sample_pkg sample_key empty_pms True Map.empty) (pkg_rel p) = Some (encode p)"
    by (rule decrypt_package_served [THEN conjunct2]) (simp_all add: sample_pkg_ok sample_sealed)
  moreover have "''a.aesgcm'' \<in> set (pkg_files sample_pkg)" by (simp add: sample_pkg_def)
  moreover have "pkg_rel ''a.aesgcm'' = ''a''" by (simp add: pkg_rel_def)
  ultimately have "snd (decrypt_package sample_crypto sample_rust False sample_pkg sample_key empty_pms True Map.empty) ''a'' = Some (encode ''a.aesgcm'')"
    by metis
  from decrypt_package_outputs [OF this] show ?thesis by (auto simp: sample_pkg_ok)
qed

end
