(* ===== verification/Attestation.thy ===== *)
theory Attestation
  imports Krs_Client Sealing
begin

text \<open>
  The attestation side of \<^verbatim>\<open>src/src/cloud_protection.py\<close>: \<^verbatim>\<open>TEEAttestation\<close>, \<^verbatim>\<open>NitrokeyRoT\<close>,
  \<^verbatim>\<open>derive_master_key\<close> and \<^verbatim>\<open>EnforceLockdown\<close>. Which paths exist and the SEV device are the
  \<open>snp_device\<close> of \<open>Snp_Verify\<close>; subprocesses and file reads are the record \<open>cloud_host\<close>.
\<close>

section \<open>The host\<close>

record cloud_host =
  ch_dev :: snp_device
  ch_run :: "string list \<Rightarrow> string \<Rightarrow> proc res"
    \<comment> \<open>\<^verbatim>\<open>subprocess.run(args, input=...)\<close>\<close>
  ch_read_text :: "string \<Rightarrow> string res"
  ch_dev_io :: "bytes \<Rightarrow> bytes res"
    \<comment> \<open>write a request to the SEV device file and read the response\<close>

abbreviation ch_exists :: "cloud_host \<Rightarrow> string \<Rightarrow> bool" where
  "ch_exists h p \<equiv> path_exists (ch_dev h) p"

definition TDX_GUEST_DEVICE :: string where "TDX_GUEST_DEVICE = ''/dev/tdx-guest''"
definition SEV_DEVICE :: string where "SEV_DEVICE = ''/dev/sev''"
definition KVM_SEV_PARAM :: string where "KVM_SEV_PARAM = ''/sys/module/kvm_amd/parameters/sev''"

section \<open>TEEAttestation\<close>

record tee_attestation =
  att_tee_type :: "string option"
  att_measurement :: "bytes option"
  att_report_raw :: "bytes option"

definition TEEAttestation :: tee_attestation where
  "TEEAttestation = \<lparr>att_tee_type = None, att_measurement = None, att_report_raw = None\<rparr>"

text \<open>The properties \<^verbatim>\<open>tee_type\<close> and \<^verbatim>\<open>measurement\<close> raise before an attestation was verified.\<close>

definition tee_type :: "tee_attestation \<Rightarrow> string res" where
  "tee_type t = res_of_option (CloudAttestationError ''attestation not performed'') (att_tee_type t)"

definition tee_measurement :: "tee_attestation \<Rightarrow> bytes res" where
  "tee_measurement t = res_of_option (CloudAttestationError ''no measurement available'') (att_measurement t)"

definition tee_detect :: "cloud_host \<Rightarrow> string res" where
  "tee_detect h =
     (if ch_exists h SEV_GUEST_DEVICE then Inr ''sev-snp''
      else if ch_exists h TDX_GUEST_DEVICE then Inr ''tdx''
      else if ch_exists h SEV_DEVICE \<or> ch_exists h KVM_SEV_PARAM
        then Inl (CloudAttestationError ''SEV detected but SEV-SNP not available'')
      else Inl (CloudAttestationError ''No TEE detected''))"

definition fetch_sev_snp_report :: "cloud_host \<Rightarrow> bytes \<Rightarrow> bytes res" where
  "fetch_sev_snp_report h nonce = fetch_report_ioctl (ch_dev h) nonce 0"

definition fetch_tdx_quote :: "bytes \<Rightarrow> bytes res" where
  "fetch_tdx_quote nonce = Inl (CloudAttestationError ''Intel TDX guest attestation requires DCAP'')"

definition fetch_attestation_report :: "cloud_host \<Rightarrow> bytes \<Rightarrow> bytes res" where
  "fetch_attestation_report h nonce =
     bind_res (tee_detect h) (\<lambda>tee.
       if tee = ''sev-snp'' then fetch_sev_snp_report h nonce
       else if tee = ''tdx'' then fetch_tdx_quote nonce
       else Inl (CloudAttestationError ''unsupported TEE''))"

definition SEV_SNP_EXT_REPORT_RESP_SIZE :: nat where "SEV_SNP_EXT_REPORT_RESP_SIZE = 0x4000"

text \<open>\<^verbatim>\<open>struct.Struct("< 64s I 124x").pack(rpt, 0)\<close>.\<close>

definition ext_report_req :: "bytes \<Rightarrow> bytes" where
  "ext_report_req rpt = rpt @ le_bytes 4 0 @ replicate 124 0"

definition fetch_sev_snp_ext_report :: "cloud_host \<Rightarrow> bytes \<Rightarrow> bytes \<Rightarrow> (bytes \<times> bytes) res" where
  "fetch_sev_snp_ext_report h nonce report_data =
     (let rpt = ljust 64 0 (take 64 report_data) in
      bind_res (ch_dev_io h (ext_report_req rpt)) (\<lambda>raw.
      let resp_raw = take SEV_SNP_EXT_REPORT_RESP_SIZE raw in
      bind_res (raise_if (length resp_raw < 48)
         (CloudAttestationError ''SEV-SNP extended report response truncated'')) (\<lambda>_.
      bind_res (unpack_le 4 resp_raw 0) (\<lambda>st.
      bind_res (raise_if (st \<noteq> 0) (CloudAttestationError ''SEV-SNP extended report failed'')) (\<lambda>_.
      bind_res (unpack_le 4 resp_raw 4) (\<lambda>report_size.
      Inr (py_slice 8 (8 + report_size) resp_raw, rstrip 0 (drop (8 + report_size) resp_raw))))))))"

text \<open>The development check: measurement only; the nonce argument is not looked at.\<close>

definition verify_attestation_report ::
    "bytes \<Rightarrow> bytes \<Rightarrow> bytes \<Rightarrow> tee_attestation \<Rightarrow> tee_attestation res" where
  "verify_attestation_report report expected_measurement nonce t =
     bind_res (raise_if (length report < 48) (CloudAttestationError ''report too short'')) (\<lambda>_.
     bind_res (parse_measurement report) (\<lambda>measured.
     bind_res (raise_if (measured \<noteq> take 48 (ljust 48 0 expected_measurement))
        (CloudAttestationError ''Measurement mismatch'')) (\<lambda>_.
     Inr (t\<lparr>att_tee_type := Some ''sev-snp'', att_measurement := Some (take 48 measured),
            att_report_raw := Some report\<rparr>))))"

text \<open>
  \<^verbatim>\<open>verify_via_key_service\<close>: the arguments of \<^verbatim>\<open>krs.release\<close> are evaluated first, and among them
  the property \<^verbatim>\<open>self.tee_type\<close>. \<open>release\<close> stands for the bound method.
\<close>

definition verify_via_key_service ::
    "(bytes \<Rightarrow> bytes \<Rightarrow> bytes \<Rightarrow> string \<Rightarrow> (bytes \<times> bytes) res) \<Rightarrow> bytes \<Rightarrow> bytes \<Rightarrow> bytes
     \<Rightarrow> tee_attestation \<Rightarrow> ((bytes \<times> bytes) \<times> tee_attestation) res" where
  "verify_via_key_service release report eph_priv kem t =
     bind_res (tee_type t) (\<lambda>tt.
     bind_res (release report eph_priv kem tt) (\<lambda>(key, measurement).
     Inr ((key, measurement),
          t\<lparr>att_tee_type := Some tt, att_measurement := Some measurement, att_report_raw := Some report\<rparr>)))"

section \<open>Text helpers\<close>

text \<open>\<open>sub in s\<close> for a nonempty \<open>sub\<close>.\<close>

definition py_in :: "string \<Rightarrow> string \<Rightarrow> bool" where
  "py_in sub s = fst (snd (py_partition sub s))"

text \<open>\<^verbatim>\<open>str.splitlines()\<close>: the line boundaries below 256, with \<open>\r\n\<close> as one.\<close>

definition is_linebreak :: "char \<Rightarrow> bool" where
  "is_linebreak c = (let n = (of_char c :: nat) in 10 \<le> n \<and> n \<le> 13 \<or> 28 \<le> n \<and> n \<le> 30 \<or> n = 133)"

fun splitlines_from :: "string \<Rightarrow> bool \<Rightarrow> string \<Rightarrow> string list" where
  "splitlines_from acc cr [] = (if acc = [] then [] else [rev acc])"
| "splitlines_from acc cr (c # cs) =
     (if cr \<and> c = char_of (10 :: nat) then splitlines_from acc False cs
      else if is_linebreak c then rev acc # splitlines_from [] (c = char_of (13 :: nat)) cs
      else splitlines_from (c # acc) False cs)"

definition splitlines :: "string \<Rightarrow> string list" where
  "splitlines s = splitlines_from [] False s"

section \<open>NitrokeyRoT\<close>

record nitrokey =
  nk_cred_dir :: string
  nk_device :: "string option"
  nk_cred_id :: "string option"
  nk_salt :: "string option"

definition NitrokeyRoT :: "string \<Rightarrow> nitrokey" where
  "NitrokeyRoT cdir = \<lparr>nk_cred_dir = cdir, nk_device = None, nk_cred_id = None, nk_salt = None\<rparr>"

fun find_nitrokey :: "string list \<Rightarrow> string option" where
  "find_nitrokey [] = None"
| "find_nitrokey (line # rest) =
     (if py_in ''Nitrokey'' line \<or> py_in ''nitrokey'' (map lower_char line)
      then Some (py_strip (hd (split_on CHR '':'' line))) else find_nitrokey rest)"

definition nk_detect :: "cloud_host \<Rightarrow> nitrokey \<Rightarrow> nitrokey res" where
  "nk_detect h nk =
     bind_res (ch_run h [''fido2-token'', ''-L''] []) (\<lambda>(rc, out, err).
     case find_nitrokey (splitlines out) of
       Some d \<Rightarrow> Inr (nk\<lparr>nk_device := Some d\<rparr>)
     | None \<Rightarrow> Inl (CloudAttestationError ''No Nitrokey FIDO2 device found''))"

definition nk_load_credential :: "cloud_host \<Rightarrow> nitrokey \<Rightarrow> nitrokey res" where
  "nk_load_credential h nk =
     (let cred_file = nk_cred_dir nk @ ''/fido2_cred''; salt_file = nk_cred_dir nk @ ''/fido2_salt'' in
      bind_res (raise_if (\<not> ch_exists h cred_file \<or> \<not> ch_exists h salt_file)
         (CloudAttestationError ''FIDO2 credential not enrolled'')) (\<lambda>_.
      bind_res (ch_read_text h cred_file) (\<lambda>cred.
      bind_res (ch_read_text h salt_file) (\<lambda>salt.
      Inr (nk\<lparr>nk_cred_id := Some (py_strip cred), nk_salt := Some (py_strip salt)\<rparr>)))))"

text \<open>An optional string in a condition: \<^verbatim>\<open>None\<close> and the empty string are false.\<close>

definition str_truthy :: "string option \<Rightarrow> bool" where
  "str_truthy s = (case s of None \<Rightarrow> False | Some t \<Rightarrow> t \<noteq> [])"

text \<open>An optional string in an f-string.\<close>

definition str_opt :: "string option \<Rightarrow> string" where
  "str_opt s = (case s of None \<Rightarrow> ''None'' | Some t \<Rightarrow> t)"

definition newline :: string where "newline = [char_of (10 :: nat)]"

text \<open>The secret on the last line, with the second attempt at an unpadded one.\<close>

definition hmac_of_text :: "string \<Rightarrow> bytes res" where
  "hmac_of_text t =
     except_res (b64decode t) (\<lambda>_. b64decode (t @ replicate (4 - length t mod 4) CHR ''=''))"

definition assert_input :: "nitrokey \<Rightarrow> bytes \<Rightarrow> string" where
  "assert_input nk challenge =
     rstrip CHR ''='' (urlsafe_b64encode challenge) @ newline @ ''botsmaster-seal'' @ newline
     @ str_opt (nk_cred_id nk) @ newline @ str_opt (nk_salt nk) @ newline"

definition nk_derive_hmac_secret :: "cloud_host \<Rightarrow> bytes \<Rightarrow> nitrokey \<Rightarrow> (bytes \<times> nitrokey) res" where
  "nk_derive_hmac_secret h challenge nk0 =
     bind_res (if \<not> str_truthy (nk_device nk0) \<or> \<not> str_truthy (nk_cred_id nk0)
               then bind_res (nk_detect h nk0) (nk_load_credential h) else Inr nk0) (\<lambda>nk.
     bind_res (ch_run h [''fido2-assert'', ''-G'', ''-h'', str_opt (nk_device nk)]
        (assert_input nk challenge)) (\<lambda>(rc, out, err).
     bind_res (raise_if (rc \<noteq> 0) (CloudAttestationError ''FIDO2 assertion failed'')) (\<lambda>_.
     let lines = split_on (char_of (10 :: nat)) (py_strip out) in
     bind_res (raise_if (length lines < 3) (CloudAttestationError ''FIDO2 assertion returned too few lines'')) (\<lambda>_.
     bind_res (hmac_of_text (py_strip (last lines))) (\<lambda>secret.
     Inr (secret, nk))))))"

section \<open>The master key\<close>

definition MASTER_INFO :: bytes where "MASTER_INFO = encode ''hpvs-portfolio/v3''"

text \<open>\<open>addr\<close> is where the allocator puts the new buffer.\<close>

definition derive_master_key ::
    "crypto \<Rightarrow> libc \<Rightarrow> int \<Rightarrow> bytes \<Rightarrow> bytes \<Rightarrow> pm_state \<Rightarrow> (pm \<times> pm_state) res" where
  "derive_master_key c lc addr measurement hmac_secret s =
     (let combined = measurement @ hmac_secret in
      bind_res (ProtectedMemory lc addr 32 s) (\<lambda>(key, s1).
      let derived = hkdf_sha512 c 32 [] MASTER_INFO combined in
      bind_res (pm_write key derived 0 s1) (\<lambda>s2. Inr (key, s2))))"

section \<open>EnforceLockdown\<close>

text \<open>The first of the paths that exists contributes one issue.\<close>

fun first_existing :: "cloud_host \<Rightarrow> string \<Rightarrow> (string \<times> string) list \<Rightarrow> string list" where
  "first_existing h label [] = []"
| "first_existing h label ((name, p) # rest) =
     (if ch_exists h p then [label @ name] else first_existing h label rest)"

definition ssh_issues :: "cloud_host \<Rightarrow> string list" where
  "ssh_issues h =
     (case ch_run h [''systemctl'', ''is-active'', ''--quiet'', ''sshd''] [] of
        Inr (rc, out, err) \<Rightarrow> if rc = 0 then [''SSH daemon active''] else []
      | Inl e \<Rightarrow> if ch_exists h ''/usr/sbin/sshd'' then [''SSH binary present''] else [])"

definition shell_paths :: "(string \<times> string) list" where
  "shell_paths = map (\<lambda>p. (p, p)) [''/bin/bash'', ''/bin/sh'', ''/bin/zsh'']"

definition cloud_init_issues :: "cloud_host \<Rightarrow> string list" where
  "cloud_init_issues h =
     (case ch_run h [''cloud-init'', ''status''] [] of
        Inr (rc, out, err) \<Rightarrow> if rc = 0 \<and> \<not> py_in ''disabled'' out then [''cloud-init active''] else []
      | Inl e \<Rightarrow> if ch_exists h ''/etc/cloud/cloud.cfg'' then [''cloud-init config present''] else [])"

definition debug_paths :: "(string \<times> string) list" where
  "debug_paths = map (\<lambda>a. (a, ''/usr/bin/'' @ a)) [''strace'', ''gdb'', ''ltrace'', ''valgrind'']"

definition console_paths :: "(string \<times> string) list" where
  "console_paths = map (\<lambda>p. (p, p)) [''/dev/ttyS0'', ''/dev/ttyAMA0'']"

definition lockdown_issues :: "cloud_host \<Rightarrow> string list" where
  "lockdown_issues h =
     ssh_issues h @ first_existing h ''interactive shell: '' shell_paths @ cloud_init_issues h
     @ first_existing h ''debug agent: '' debug_paths @ first_existing h ''serial console: '' console_paths"

definition lockdown_check :: "cloud_host \<Rightarrow> bool \<Rightarrow> unit res" where
  "lockdown_check h prd =
     (if \<not> prd then Inr ()
      else raise_if (lockdown_issues h \<noteq> []) (CloudAttestationError ''Production requires locked-down image''))"

section \<open>Lemmas\<close>

lemma tee_detect_sev: "ch_exists h SEV_GUEST_DEVICE \<Longrightarrow> tee_detect h = Inr ''sev-snp''"
  by (simp add: tee_detect_def)

lemma fetch_attestation_report_Inr:
  "fetch_attestation_report h nonce = Inr r \<longleftrightarrow>
   ch_exists h SEV_GUEST_DEVICE \<and> fetch_report_ioctl (ch_dev h) nonce 0 = Inr r"
  by (auto simp: fetch_attestation_report_def tee_detect_def fetch_sev_snp_report_def fetch_tdx_quote_def)

lemma verify_attestation_report_Inr:
  "verify_attestation_report report expected nonce t = Inr t' \<longleftrightarrow>
   parse_measurement report = Inr (fit 48 expected) \<and>
   t' = t\<lparr>att_tee_type := Some ''sev-snp'', att_measurement := Some (fit 48 expected),
          att_report_raw := Some report\<rparr>"
  by (auto simp: verify_attestation_report_def bind_res_Inr fit_eq_ljust_take parse_measurement_def
      layout_defs split: if_splits)

lemma verify_via_key_service_fresh:
  "verify_via_key_service release report eph kem TEEAttestation =
   Inl (CloudAttestationError ''attestation not performed'')"
  by (simp add: verify_via_key_service_def tee_type_def TEEAttestation_def)

lemma first_existing_Nil: "first_existing h l xs = [] \<longleftrightarrow> (\<forall>(n, p)\<in>set xs. \<not> ch_exists h p)"
  by (induction xs) (auto split: if_splits)

lemma lockdown_check_Inr:
  "lockdown_check h True = Inr () \<longleftrightarrow>
   ssh_issues h = [] \<and> cloud_init_issues h = [] \<and>
   (\<forall>(n, p)\<in>set (shell_paths @ debug_paths @ console_paths). \<not> ch_exists h p)"
  by (auto simp: lockdown_check_def lockdown_issues_def first_existing_Nil)

text \<open>The derived key fills the new buffer.\<close>

lemma derive_master_key_Inr:
  assumes "hkdf_length c" "ProtectedMemory lc addr 32 s = Inr (key, s1)"
  shows "\<exists>s'. derive_master_key c lc addr m sec s = Inr (key, s') \<and> pm_size key = 32
    \<and> pm_load key s' = hkdf_sha512 c 32 [] MASTER_INFO (m @ sec) \<and> pm_all_locked s' = pm_all_locked s"
proof -
  note k = assms(2)
  note k' = ProtectedMemory_Inr [OF k]
  have l: "length (hkdf_sha512 c 32 [] MASTER_INFO (m @ sec)) = 32"
    using assms by (simp add: hkdf_length_def)
  have "pm_all_locked (pm_store key d s1) = pm_all_locked s1" for d
    by (simp add: pm_store_def pm_write_def raise_if_def)
  then show ?thesis
    using k k' l pm_write_store [of _ key s1] pmb.load_store_full [of _ key s1]
    by (simp add: derive_master_key_def Let_def)
qed

section \<open>Secrets without padding\<close>

lemma rstrip_Cons: "x \<noteq> c \<Longrightarrow> rstrip c (x # xs) = x # rstrip c xs"
  by (simp add: rstrip_def dropWhile_append)

lemma rstrip_single [simp]: "rstrip c [] = []" "rstrip c (c # replicate n c) = []"
  by (simp_all add: rstrip_def del: replicate_Suc add: replicate_Suc [symmetric])

abbreviation b64_unpadded :: "bytes \<Rightarrow> string" where
  "b64_unpadded bs \<equiv> rstrip CHR ''='' (b64encode bs)"

lemma b64_unpadded_simps:
  "b64_unpadded [a] = [b64_char (unat a div 4), b64_char (unat a mod 4 * 16)]"
  "b64_unpadded [a, b] =
     [b64_char (unat a div 4), b64_char (unat a mod 4 * 16 + unat b div 16), b64_char (unat b mod 16 * 4)]"
  "b64_unpadded (a # b # c # rest) =
     b64_char (unat a div 4) # b64_char (unat a mod 4 * 16 + unat b div 16)
     # b64_char (unat b mod 16 * 4 + unat c div 64) # b64_char (unat c mod 64) # b64_unpadded rest"
  using rstrip_single(2) [of "CHR ''=''" 0] rstrip_single(2) [of "CHR ''=''" 1]
  by (simp_all add: rstrip_Cons)

lemma set_rstrip: "set (rstrip c xs) \<subseteq> set xs"
  unfolding rstrip_def using set_dropWhileD by fastforce

lemma a2b_quad:
  "a2b 0 0 0 (b64_char (unat a div 4) # b64_char (unat a mod 4 * 16 + unat b div 16)
     # b64_char (unat b mod 16 * 4 + unat c div 64) # b64_char (unat c mod 64) # s) =
   bind_res (a2b 0 0 0 s) (\<lambda>r. Inr (a # b # c # r))"
  using sextets_join_words(1) [of a b] sextets_join_words(3) [of a b c] sextets_join_words(5) [of b c]
  by (simp add: bind_res_assoc del: of_nat_add of_nat_mult)

text \<open>Without its pads an encoding either decodes at once or fails and decodes when repadded.\<close>

lemma a2b_unpadded:
  "if length bs mod 3 = 0 then a2b 0 0 0 (b64_unpadded bs) = Inr bs
   else (\<exists>e. a2b 0 0 0 (b64_unpadded bs) = Inl e) \<and>
     a2b 0 0 0 (b64_unpadded bs @ replicate (4 - length (b64_unpadded bs) mod 4) CHR ''='') = Inr bs"
proof (induction bs rule: b64encode.induct)
  case 1
  then show ?case by simp
next
  case (2 a)
  have "replicate 2 CHR ''='' = ''==''" by (simp add: numeral_2_eq_2)
  then show ?case
    unfolding b64_unpadded_simps
    using sextets_join_words(2) [of a] by (simp del: of_nat_add of_nat_mult)
next
  case (3 a b)
  have "replicate 1 CHR ''='' = ''=''" by simp
  then show ?case
    unfolding b64_unpadded_simps
    using sextets_join_words(1) [of a b] sextets_join_words(4) [of a b]
    by (simp del: of_nat_add of_nat_mult)
next
  case (4 a b c rest)
  have "length (a # b # c # rest) mod 3 = length rest mod 3" by (simp add: numeral_3_eq_3 [symmetric])
  moreover have "length (b64_unpadded (a # b # c # rest)) mod 4 = length (b64_unpadded rest) mod 4"
    unfolding b64_unpadded_simps by simp
  ultimately show ?case
    using 4 unfolding b64_unpadded_simps by (auto simp: a2b_quad simp del: a2b.simps)
qed

lemma hmac_of_text_unpadded: "hmac_of_text (b64_unpadded bs) = Inr bs"
proof -
  have asc: "\<not> (\<exists>c\<in>set (b64_unpadded bs). 128 \<le> (of_char c :: nat))"
    using set_rstrip b64encode_ascii by (meson in_mono not_le)
  moreover have "\<not> (\<exists>c\<in>set (b64_unpadded bs @ replicate n CHR ''=''). 128 \<le> (of_char c :: nat))" for n
    using asc by auto
  ultimately show ?thesis
    using a2b_unpadded [of bs] by (auto simp: hmac_of_text_def b64decode_def split: if_splits)
qed

lemma hmac_of_text_padded: "hmac_of_text (b64encode bs) = Inr bs"
  by (simp add: hmac_of_text_def b64decode_b64encode)

section \<open>Properties\<close>

text \<open>
  C39. The production lockdown check passes exactly when no SSH daemon runs (or, if it cannot be asked,
  no SSH binary is there), \<^verbatim>\<open>cloud-init\<close> is not active (or has no configuration), and none of the
  listed shells, debuggers and serial consoles exists.
\<close>

theorem lockdown_passes_iff:
  "lockdown_check h True = Inr () \<longleftrightarrow>
   (case ch_run h [''systemctl'', ''is-active'', ''--quiet'', ''sshd''] [] of
      Inr (rc, out, err) \<Rightarrow> rc \<noteq> 0 | Inl e \<Rightarrow> \<not> ch_exists h ''/usr/sbin/sshd'') \<and>
   (case ch_run h [''cloud-init'', ''status''] [] of
      Inr (rc, out, err) \<Rightarrow> \<not> (rc = 0 \<and> \<not> py_in ''disabled'' out) | Inl e \<Rightarrow> \<not> ch_exists h ''/etc/cloud/cloud.cfg'') \<and>
   \<not> (ch_exists h ''/bin/bash'' \<or> ch_exists h ''/bin/sh'' \<or> ch_exists h ''/bin/zsh'' \<or>
      ch_exists h ''/usr/bin/strace'' \<or> ch_exists h ''/usr/bin/gdb'' \<or> ch_exists h ''/usr/bin/ltrace'' \<or>
      ch_exists h ''/usr/bin/valgrind'' \<or> ch_exists h ''/dev/ttyS0'' \<or> ch_exists h ''/dev/ttyAMA0'')"
  unfolding lockdown_check_Inr ssh_issues_def cloud_init_issues_def shell_paths_def debug_paths_def console_paths_def
  by (auto split: sum.splits)

text \<open>
  The token's secret is read correctly with and without base64 padding: the text of the last
  line decodes to the encoded bytes in both forms.
\<close>

theorem hmac_secret_padding:
  "hmac_of_text (b64encode bs) = Inr bs \<and> hmac_of_text (rstrip CHR ''='' (b64encode bs)) = Inr bs"
  using hmac_of_text_padded hmac_of_text_unpadded by blast

text \<open>
  The development verification accepts a report exactly when its measurement field is the
  expected measurement padded to 48 bytes; it looks neither at the nonce nor at the report data,
  so it accepts any old report of the same image.
\<close>

theorem dev_verification_ignores_nonce:
  "verify_attestation_report report expected nonce t = Inr t' \<longleftrightarrow>
   192 \<le> length report \<and> py_slice 0x90 0xC0 report = fit 48 expected \<and>
   t' = t\<lparr>att_tee_type := Some ''sev-snp'', att_measurement := Some (fit 48 expected), att_report_raw := Some report\<rparr>"
  by (auto simp: verify_attestation_report_Inr parse_measurement_def layout_defs)

end
