(* ===== verification/Process.thy ===== *)
theory Process
  imports Attestation
begin

text \<open>
  \<^verbatim>\<open>SecureZeroizer\<close> and \<^verbatim>\<open>ContinuousAttestationMonitor\<close> of \<^verbatim>\<open>src/src/cloud_protection.py\<close>. \<open>zeroizer_terminate\<close>
  and \<open>monitor_tick\<close> are the methods run without interruption. The step relation \<open>guard_step\<close> is the running
  process with everything interleaved: the monitor thread against whatever the host answers, signal
  handlers that interrupt the main thread and each other, the wiping of one buffer after another,
  the program's own work on protected buffers meanwhile, and every way in which the process ends.
\<close>

section \<open>The zeroizer\<close>

text \<open>\<open>pr_exit\<close> is the exit code, of \<^verbatim>\<open>os._exit\<close> or of \<^verbatim>\<open>main\<close>; a process that has exited takes no further step.\<close>

record process =
  pr_pms :: pm_state
  pr_armed :: bool
  pr_running :: bool
  pr_exit :: "int option"

datatype unix_signal = SIGINT | SIGTERM | SIGUSR1 | OtherSignal nat

definition HPV_SIGNAL_EXIT :: unix_signal where "HPV_SIGNAL_EXIT = SIGUSR1"

definition handled_signals :: "unix_signal list" where
  "handled_signals = [SIGINT, SIGTERM, HPV_SIGNAL_EXIT]"

definition zeroizer_arm :: "process \<Rightarrow> process" where
  "zeroizer_arm p = (if pr_armed p then p else p\<lparr>pr_armed := True\<rparr>)"

text \<open>\<^verbatim>\<open>terminate\<close>; the callback is what it did to the buffers before it returned or raised.\<close>

definition zeroizer_terminate :: "(pm_state \<Rightarrow> pm_state) option \<Rightarrow> process \<Rightarrow> process" where
  "zeroizer_terminate cb p =
     (let s1 = (case cb of None \<Rightarrow> pr_pms p | Some f \<Rightarrow> f (pr_pms p))
      in p\<lparr>pr_pms := zeroise_all s1, pr_exit := Some 1\<rparr>)"

definition zeroizer_handle :: "(pm_state \<Rightarrow> pm_state) option \<Rightarrow> unix_signal \<Rightarrow> process \<Rightarrow> process" where
  "zeroizer_handle cb sig p = zeroizer_terminate cb p"

section \<open>The monitor\<close>

definition MONITOR_INTERVAL :: nat where "MONITOR_INTERVAL = 300"

definition monitor_start :: "process \<Rightarrow> process" where
  "monitor_start p = p\<lparr>pr_running := True\<rparr>"

definition monitor_stop :: "process \<Rightarrow> process" where
  "monitor_stop p = p\<lparr>pr_running := False\<rparr>"

text \<open>The \<^verbatim>\<open>try\<close> block of \<^verbatim>\<open>_loop\<close>: whether the measurement is unchanged, or an exception.\<close>

definition monitor_check :: "cloud_host \<Rightarrow> bytes \<Rightarrow> bool res" where
  "monitor_check h expected =
     bind_res (fetch_attestation_report h []) (\<lambda>report.
     bind_res (parse_measurement report) (\<lambda>measured.
     Inr (measured = take 48 (ljust 48 0 expected))))"

text \<open>
  One round of \<^verbatim>\<open>_loop\<close> after the sleep. The handler of \<^verbatim>\<open>AttestationError\<close> is that of the class
  of \<^verbatim>\<open>cloud_protection\<close>; every other exception is logged as transient. \<open>monitor_violation\<close> is whether the
  round calls \<^verbatim>\<open>terminate\<close>.
\<close>

definition monitor_violation :: "bytes \<Rightarrow> cloud_host \<Rightarrow> bool" where
  "monitor_violation expected h =
     (case monitor_check h expected of
        Inr same \<Rightarrow> \<not> same
      | Inl (CloudAttestationError m) \<Rightarrow> True
      | Inl e \<Rightarrow> False)"

definition monitor_tick :: "(pm_state \<Rightarrow> pm_state) option \<Rightarrow> bytes \<Rightarrow> cloud_host \<Rightarrow> process \<Rightarrow> process" where
  "monitor_tick cb expected h p =
     (case monitor_check h expected of
        Inr same \<Rightarrow> if \<not> same then zeroizer_terminate cb p else p
      | Inl (CloudAttestationError m) \<Rightarrow> zeroizer_terminate cb p
      | Inl e \<Rightarrow> p)"

text \<open>\<^verbatim>\<open>_loop\<close> over the answers of the host in successive rounds, until stopped or exited.\<close>

fun monitor_loop ::
    "(pm_state \<Rightarrow> pm_state) option \<Rightarrow> bytes \<Rightarrow> cloud_host list \<Rightarrow> process \<Rightarrow> process" where
  "monitor_loop cb expected [] p = p"
| "monitor_loop cb expected (h # hs) p =
     (if \<not> pr_running p \<or> pr_exit p \<noteq> None then p
      else monitor_loop cb expected hs (monitor_tick cb expected h p))"

section \<open>The guarded process\<close>

text \<open>
  The monitor thread: not started, at the test of its \<^verbatim>\<open>while\<close>, past it (asleep or checking), inside \<^verbatim>\<open>terminate\<close> with
  the buffers of its snapshot that are left to wipe, or finished.
\<close>

datatype monitor_state = Unstarted | LoopTop | InRound | Terminating "pm list" | Finished

text \<open>
  How a process ends: \<^verbatim>\<open>os._exit\<close> in \<^verbatim>\<open>terminate\<close>, the main thread leaving \<^verbatim>\<open>main\<close> with an exit code (its return
  value under \<^verbatim>\<open>SystemExit\<close>, or that of an uncaught exception), or a signal that no handler of the
  zeroizer takes.
\<close>

datatype end_cause = ByTerminate | ByMain int | BySignal unix_signal

text \<open>
  \<open>gp_handlers\<close> are the nested signal handlers of the main thread, the running one first, each with the
  buffers left to wipe. \<open>gp_written\<close> is a history variable: the addresses that were written since a
  \<^verbatim>\<open>terminate\<close> took its snapshot.
\<close>

record guarded =
  gp_proc :: process
  gp_monitor :: monitor_state
  gp_handlers :: "pm list list"
  gp_written :: "int set"
  gp_end :: "end_cause option"

definition guard_start :: "process \<Rightarrow> guarded" where
  "guard_start p = \<lparr>gp_proc = p, gp_monitor = (if pr_running p then LoopTop else Unstarted), gp_handlers = [],
     gp_written = {}, gp_end = None\<rparr>"

text \<open>The pieces of \<^verbatim>\<open>terminate\<close>, for a zeroizer without callback: \<^verbatim>\<open>list(cls._registry)\<close>, one turn of the loop, \<^verbatim>\<open>os._exit(1)\<close>.\<close>

definition terminate_snapshot :: "guarded \<Rightarrow> pm list" where
  "terminate_snapshot g = pm_registry (pr_pms (gp_proc g))"

definition terminate_wipe :: "pm \<Rightarrow> guarded \<Rightarrow> guarded" where
  "terminate_wipe b g = g\<lparr>gp_proc := (gp_proc g)\<lparr>pr_pms := pm_zeroise b (pr_pms (gp_proc g))\<rparr>\<rparr>"

definition terminate_exit :: "guarded \<Rightarrow> guarded" where
  "terminate_exit g = g\<lparr>gp_proc := (gp_proc g)\<lparr>pr_exit := Some 1\<rparr>, gp_end := Some ByTerminate\<rparr>"

definition terminating :: "guarded \<Rightarrow> bool" where
  "terminating g \<longleftrightarrow> gp_handlers g \<noteq> [] \<or> (case gp_monitor g of Terminating bs \<Rightarrow> True | _ \<Rightarrow> False)"

text \<open>A thread of the program changed the memory of the buffers: the addresses \<open>xs\<close> were written.\<close>

definition program_wrote :: "int set \<Rightarrow> pm_state \<Rightarrow> guarded \<Rightarrow> guarded" where
  "program_wrote xs s g = g\<lparr>gp_proc := (gp_proc g)\<lparr>pr_pms := s\<rparr>,
     gp_written := (if terminating g then gp_written g \<union> xs else gp_written g)\<rparr>"

definition buffer_range :: "pm \<Rightarrow> int set" where
  "buffer_range b = {pm_addr b ..< pm_addr b + int (nat (pm_size b))}"

text \<open>
  The steps, while the process has not ended. The main thread is stopped while a handler runs in it;
  new buffers and writes may come from any thread. The monitor is a daemon thread: it does not keep
  the process alive.
\<close>

inductive guard_step :: "bytes \<Rightarrow> guarded \<Rightarrow> guarded \<Rightarrow> bool" for expected where
  arm: "gp_end g = None \<Longrightarrow> gp_handlers g = [] \<Longrightarrow> guard_step expected g (g\<lparr>gp_proc := zeroizer_arm (gp_proc g)\<rparr>)"
| start_monitor: "gp_end g = None \<Longrightarrow> gp_handlers g = [] \<Longrightarrow> gp_monitor g = Unstarted \<Longrightarrow>
    guard_step expected g (g\<lparr>gp_proc := monitor_start (gp_proc g), gp_monitor := LoopTop\<rparr>)"
| stop_monitor: "gp_end g = None \<Longrightarrow> gp_handlers g = [] \<Longrightarrow> guard_step expected g (g\<lparr>gp_proc := monitor_stop (gp_proc g)\<rparr>)"
| loop: "gp_end g = None \<Longrightarrow> gp_monitor g = LoopTop \<Longrightarrow>
    guard_step expected g (g\<lparr>gp_monitor := (if pr_running (gp_proc g) then InRound else Finished)\<rparr>)"
| round: "gp_end g = None \<Longrightarrow> gp_monitor g = InRound \<Longrightarrow>
    guard_step expected g (g\<lparr>gp_monitor := (if monitor_violation expected h then Terminating (terminate_snapshot g) else LoopTop)\<rparr>)"
| monitor_wipe: "gp_end g = None \<Longrightarrow> gp_monitor g = Terminating (b # bs) \<Longrightarrow>
    guard_step expected g (terminate_wipe b g\<lparr>gp_monitor := Terminating bs\<rparr>)"
| monitor_exit: "gp_end g = None \<Longrightarrow> gp_monitor g = Terminating [] \<Longrightarrow> guard_step expected g (terminate_exit g)"
| handled: "gp_end g = None \<Longrightarrow> pr_armed (gp_proc g) \<Longrightarrow> sig \<in> set handled_signals \<Longrightarrow>
    guard_step expected g (g\<lparr>gp_handlers := terminate_snapshot g # gp_handlers g\<rparr>)"
| handler_wipe: "gp_end g = None \<Longrightarrow> gp_handlers g = (b # bs) # hs \<Longrightarrow>
    guard_step expected g (terminate_wipe b g\<lparr>gp_handlers := bs # hs\<rparr>)"
| handler_exit: "gp_end g = None \<Longrightarrow> gp_handlers g = [] # hs \<Longrightarrow> guard_step expected g (terminate_exit g)"
| unhandled: "gp_end g = None \<Longrightarrow> \<not> (pr_armed (gp_proc g) \<and> sig \<in> set handled_signals) \<Longrightarrow>
    guard_step expected g (g\<lparr>gp_end := Some (BySignal sig)\<rparr>)"
| main_ends: "gp_end g = None \<Longrightarrow> gp_handlers g = [] \<Longrightarrow>
    guard_step expected g (g\<lparr>gp_proc := (gp_proc g)\<lparr>pr_exit := Some code\<rparr>, gp_end := Some (ByMain code)\<rparr>)"
| alloc: "gp_end g = None \<Longrightarrow> ProtectedMemory lc a n (pr_pms (gp_proc g)) = Inr (b, s) \<Longrightarrow>
    guard_step expected g (program_wrote {} s g)"
| store: "gp_end g = None \<Longrightarrow> pm_write b d off (pr_pms (gp_proc g)) = Inr s \<Longrightarrow>
    guard_step expected g (program_wrote {pm_addr b + off ..< pm_addr b + off + int (length d)} s g)"
| randomise: "gp_end g = None \<Longrightarrow> guard_step expected g (program_wrote (buffer_range b) (pm_randomise bs b (pr_pms (gp_proc g))) g)"
| zeroise: "gp_end g = None \<Longrightarrow> guard_step expected g (program_wrote {} (pm_zeroise b (pr_pms (gp_proc g))) g)"

inductive guard_reach :: "bytes \<Rightarrow> guarded \<Rightarrow> guarded \<Rightarrow> bool" for expected g0 where
  start: "guard_reach expected g0 g0"
| step: "guard_reach expected g0 g \<Longrightarrow> guard_step expected g g' \<Longrightarrow> guard_reach expected g0 g'"

inductive_cases guard_stepE: "guard_step expected g g'"

section \<open>Lemmas\<close>

lemma pm_registry_zeroise [simp]: "pm_registry (pm_zeroise b s) = pm_registry s"
  by (simp add: pm_zeroise_def)

lemma pm_registry_fold_zeroise: "pm_registry (fold pm_zeroise bs s) = pm_registry s"
  by (induction bs arbitrary: s) simp_all

lemma pm_registry_zeroise_all [simp]: "pm_registry (zeroise_all s) = pm_registry s"
  by (simp add: zeroise_all_def pm_registry_fold_zeroise)

lemma zeroise_all_load:
  "b \<in> set (pm_registry s) \<Longrightarrow> pm_load b (zeroise_all s) = replicate (nat (pm_size b)) 0"
  unfolding zeroise_all_def by (rule pmb.wipe_list)

lemma monitor_tick_eq:
  "monitor_tick cb expected h p = (if monitor_violation expected h then zeroizer_terminate cb p else p)"
  by (auto simp: monitor_tick_def monitor_violation_def split: sum.splits exn.splits)

lemma pm_mem_zeroise: "pm_mem (pm_zeroise b s) x = (if x \<in> buffer_range b then 0 else pm_mem s x)"
  by (auto simp: pm_zeroise_def mem_write_def buffer_range_def)

text \<open>
  The invariant. Every \<^verbatim>\<open>terminate\<close> under way, and the one that ended the process, has its work list: each
  address of a registered buffer is zero, in a buffer on the list, or was written since.
\<close>

definition covered :: "guarded \<Rightarrow> pm list \<Rightarrow> bool" where
  "covered g bs \<longleftrightarrow> (\<forall>b\<in>set (pm_registry (pr_pms (gp_proc g))). \<forall>x\<in>buffer_range b.
     pm_mem (pr_pms (gp_proc g)) x = 0 \<or> (\<exists>b'\<in>set bs. x \<in> buffer_range b') \<or> x \<in> gp_written g)"

definition worklists :: "guarded \<Rightarrow> pm list set" where
  "worklists g = set (gp_handlers g) \<union> {bs. gp_monitor g = Terminating bs} \<union> {bs. bs = [] \<and> gp_end g = Some ByTerminate}"

definition guard_inv :: "pm set \<Rightarrow> guarded \<Rightarrow> bool" where
  "guard_inv reg g \<longleftrightarrow> (\<forall>bs\<in>worklists g. covered g bs) \<and> reg \<subseteq> set (pm_registry (pr_pms (gp_proc g)))
     \<and> (gp_end g = Some ByTerminate \<longrightarrow> pr_exit (gp_proc g) = Some 1)"

lemma covered_snapshot: "covered g (terminate_snapshot g)"
  by (auto simp: covered_def terminate_snapshot_def)

text \<open>Wiping a buffer takes it off one list and harms no other.\<close>

lemma covered_wipe:
  assumes "covered g bs" "gp_proc g' = gp_proc (terminate_wipe b g)" "gp_written g' = gp_written g"
    and "set bs \<subseteq> insert b (set bs')"
  shows "covered g' bs'"
  using assms by (fastforce simp: covered_def terminate_wipe_def pm_mem_zeroise)

lemma covered_same:
  "covered g bs \<Longrightarrow> pr_pms (gp_proc g') = pr_pms (gp_proc g) \<Longrightarrow> gp_written g' = gp_written g \<Longrightarrow> covered g' bs"
  by (simp add: covered_def)

text \<open>The program's own writes are recorded, or zeros.\<close>

lemma covered_program:
  assumes "covered g bs" "terminating g"
    and "\<And>x. pm_mem s x = pm_mem (pr_pms (gp_proc g)) x \<or> x \<in> xs \<or> pm_mem s x = 0"
    and "\<And>b x. b \<in> set (pm_registry s) \<Longrightarrow> b \<notin> set (pm_registry (pr_pms (gp_proc g))) \<Longrightarrow> x \<in> buffer_range b \<Longrightarrow>
      x \<in> xs \<or> pm_mem s x = 0"
  shows "covered (program_wrote xs s g) bs"
  unfolding covered_def
proof (intro ballI)
  fix b x assume bx: "b \<in> set (pm_registry (pr_pms (gp_proc (program_wrote xs s g))))" "x \<in> buffer_range b"
  then have b: "b \<in> set (pm_registry s)" by (simp add: program_wrote_def)
  have "pm_mem s x = 0 \<or> (\<exists>b'\<in>set bs. x \<in> buffer_range b') \<or> x \<in> gp_written g \<or> x \<in> xs"
  proof (cases "b \<in> set (pm_registry (pr_pms (gp_proc g)))")
    case True
    then have "pm_mem (pr_pms (gp_proc g)) x = 0 \<or> (\<exists>b'\<in>set bs. x \<in> buffer_range b') \<or> x \<in> gp_written g"
      using assms(1) bx(2) unfolding covered_def by blast
    then show ?thesis using assms(3) [of x] by metis
  next
    case False
    then show ?thesis using assms(4) [OF b False bx(2)] by blast
  qed
  then show "pm_mem (pr_pms (gp_proc (program_wrote xs s g))) x = 0 \<or> (\<exists>b'\<in>set bs. x \<in> buffer_range b') \<or>
      x \<in> gp_written (program_wrote xs s g)"
    using assms(2) by (simp add: program_wrote_def)
qed

lemma worklists_program [simp]: "worklists (program_wrote xs s g) = worklists g"
  by (simp add: worklists_def program_wrote_def)

lemma worklists_terminating: "gp_end g = None \<Longrightarrow> bs \<in> worklists g \<Longrightarrow> terminating g"
  by (auto simp: worklists_def terminating_def)

lemma guard_inv_program:
  assumes "guard_inv reg g" "gp_end g = None" "set (pm_registry (pr_pms (gp_proc g))) \<subseteq> set (pm_registry s)"
    and "\<And>x. pm_mem s x = pm_mem (pr_pms (gp_proc g)) x \<or> x \<in> xs \<or> pm_mem s x = 0"
    and "\<And>b x. b \<in> set (pm_registry s) \<Longrightarrow> b \<notin> set (pm_registry (pr_pms (gp_proc g))) \<Longrightarrow> x \<in> buffer_range b \<Longrightarrow>
      x \<in> xs \<or> pm_mem s x = 0"
  shows "guard_inv reg (program_wrote xs s g)"
proof -
  have "covered (program_wrote xs s g) bs" if "bs \<in> worklists g" for bs
    by (rule covered_program [OF _ worklists_terminating [OF assms(2) that] assms(4,5)])
       (use assms(1) that in \<open>simp_all add: guard_inv_def\<close>)
  then show ?thesis using assms(1-3) by (auto simp: guard_inv_def) (simp_all add: program_wrote_def, blast)
qed

lemma guard_inv_frame:
  assumes "guard_inv reg g" "pr_pms (gp_proc g') = pr_pms (gp_proc g)" "gp_written g' = gp_written g"
    and "worklists g' \<subseteq> worklists g \<union> {terminate_snapshot g}"
    and "gp_end g' = Some ByTerminate \<Longrightarrow> pr_exit (gp_proc g') = Some 1"
  shows "guard_inv reg g'"
proof -
  have "covered g' bs" if "bs \<in> worklists g'" for bs
  proof (rule covered_same [OF _ assms(2,3)])
    show "covered g bs" using that assms(1,4) covered_snapshot by (auto simp: guard_inv_def)
  qed
  then show ?thesis using assms(1,2,5) by (simp add: guard_inv_def)
qed

lemma guard_inv_wipe:
  assumes "guard_inv reg g" "gp_end g = None" "gp_proc g' = gp_proc (terminate_wipe b g)" "gp_written g' = gp_written g"
    and "gp_end g' = gp_end g" "\<And>bs'. bs' \<in> worklists g' \<Longrightarrow> bs' \<in> worklists g \<or> b # bs' \<in> worklists g"
  shows "guard_inv reg g'"
proof -
  have "covered g' bs'" if "bs' \<in> worklists g'" for bs'
    using assms(6) [OF that]
  proof
    assume "bs' \<in> worklists g"
    then have "covered g bs'" using assms(1) by (simp add: guard_inv_def)
    then show ?thesis using assms(3,4) by (rule covered_wipe) blast
  next
    assume "b # bs' \<in> worklists g"
    then have "covered g (b # bs')" using assms(1) by (simp add: guard_inv_def)
    then show ?thesis using assms(3,4) by (rule covered_wipe) simp
  qed
  then show ?thesis using assms(1-3,5) by (simp add: guard_inv_def terminate_wipe_def)
qed

lemma guard_step_inv: "guard_step expected g g' \<Longrightarrow> guard_inv reg g \<Longrightarrow> guard_inv reg g'"
proof (induction rule: guard_step.induct)
  case (monitor_wipe g b bs)
  show ?case by (rule guard_inv_wipe [OF monitor_wipe(3,1)]) (use monitor_wipe(2) in \<open>auto simp: worklists_def terminate_wipe_def\<close>)
next
  case (handler_wipe g b bs hs)
  show ?case by (rule guard_inv_wipe [OF handler_wipe(3,1)]) (use handler_wipe(2) in \<open>auto simp: worklists_def terminate_wipe_def\<close>)
next
  case (alloc g lc a n b s)
  note i = ProtectedMemory_Inr [OF alloc(2)]
  then have m: "pm_mem s x = (if x \<in> buffer_range b then 0 else pm_mem (pr_pms (gp_proc g)) x)" for x
    by (auto simp: mem_write_def buffer_range_def)
  have "set (pm_registry s) = insert b (set (pm_registry (pr_pms (gp_proc g))))" using i by blast
  then show ?case by (intro guard_inv_program [OF alloc(3,1)]) (auto simp: m)
next
  case (store g b d off s)
  show ?case
    by (rule guard_inv_program [OF store(3,1)]) (use store(2) in \<open>auto simp: pm_write_def bind_res_Inr mem_write_def split: if_splits\<close>)
next
  case (randomise g b bs)
  show ?case
    by (rule guard_inv_program [OF randomise(2,1)]) (auto simp: pm_randomise_def mem_write_def buffer_range_def split: if_splits)
next
  case (zeroise g b)
  show ?case by (rule guard_inv_program [OF zeroise(2,1)]) (auto simp: pm_mem_zeroise)
next
  case (arm g)
  show ?case by (rule guard_inv_frame [OF arm(3)]) (use arm in \<open>auto simp: worklists_def zeroizer_arm_def\<close>)
next
  case (start_monitor g)
  show ?case by (rule guard_inv_frame [OF start_monitor(4)]) (use start_monitor in \<open>auto simp: worklists_def monitor_start_def\<close>)
next
  case (stop_monitor g)
  show ?case by (rule guard_inv_frame [OF stop_monitor(3)]) (use stop_monitor in \<open>auto simp: worklists_def monitor_stop_def\<close>)
next
  case (loop g)
  show ?case by (rule guard_inv_frame [OF loop(3)]) (use loop in \<open>auto simp: worklists_def split: if_splits\<close>)
next
  case (round g h)
  show ?case by (rule guard_inv_frame [OF round(3)]) (use round in \<open>auto simp: worklists_def split: if_splits\<close>)
next
  case (monitor_exit g)
  show ?case by (rule guard_inv_frame [OF monitor_exit(3)]) (use monitor_exit in \<open>auto simp: worklists_def terminate_exit_def\<close>)
next
  case (handled g sig)
  show ?case by (rule guard_inv_frame [OF handled(4)]) (use handled in \<open>auto simp: worklists_def\<close>)
next
  case (handler_exit g hs)
  show ?case by (rule guard_inv_frame [OF handler_exit(3)]) (use handler_exit in \<open>auto simp: worklists_def terminate_exit_def\<close>)
next
  case (unhandled g sig)
  show ?case by (rule guard_inv_frame [OF unhandled(3)]) (use unhandled in \<open>auto simp: worklists_def\<close>)
next
  case (main_ends g code)
  show ?case by (rule guard_inv_frame [OF main_ends(3)]) (use main_ends in \<open>auto simp: worklists_def\<close>)
qed

lemma guard_reach_inv:
  "guard_reach expected (guard_start p) g \<Longrightarrow> guard_inv (set (pm_registry (pr_pms p))) g"
  by (induction rule: guard_reach.induct)
     (auto intro: guard_step_inv, simp add: guard_inv_def worklists_def guard_start_def)

text \<open>Without interruption the steps of a \<^verbatim>\<open>terminate\<close> have the effect of \<open>zeroizer_terminate\<close>.\<close>

lemma monitor_terminates:
  "guard_reach expected g0 g \<Longrightarrow> gp_end g = None \<Longrightarrow> gp_monitor g = Terminating bs \<Longrightarrow>
   \<exists>g'. guard_reach expected g0 g' \<and> gp_end g' = Some ByTerminate \<and>
     gp_proc g' = (gp_proc g)\<lparr>pr_pms := fold pm_zeroise bs (pr_pms (gp_proc g)), pr_exit := Some 1\<rparr>"
proof (induction bs arbitrary: g)
  case Nil
  then show ?case
    by (intro exI [of _ "terminate_exit g"] conjI guard_reach.step [OF Nil(1) guard_step.monitor_exit]) (simp_all add: terminate_exit_def)
next
  case (Cons b bs)
  let ?g = "terminate_wipe b g\<lparr>gp_monitor := Terminating bs\<rparr>"
  have "guard_reach expected g0 ?g"
    using Cons.prems by (intro guard_reach.step [OF Cons.prems(1) guard_step.monitor_wipe])
  from Cons.IH [OF this] show ?case using Cons.prems by (simp add: terminate_wipe_def)
qed

lemma handler_terminates:
  "guard_reach expected g0 g \<Longrightarrow> gp_end g = None \<Longrightarrow> gp_handlers g = bs # hs \<Longrightarrow>
   \<exists>g'. guard_reach expected g0 g' \<and> gp_end g' = Some ByTerminate \<and>
     gp_proc g' = (gp_proc g)\<lparr>pr_pms := fold pm_zeroise bs (pr_pms (gp_proc g)), pr_exit := Some 1\<rparr>"
proof (induction bs arbitrary: g)
  case Nil
  then show ?case
    by (intro exI [of _ "terminate_exit g"] conjI guard_reach.step [OF Nil(1) guard_step.handler_exit]) (simp_all add: terminate_exit_def)
next
  case (Cons b bs)
  let ?g = "terminate_wipe b g\<lparr>gp_handlers := bs # hs\<rparr>"
  have "guard_reach expected g0 ?g"
    using Cons.prems by (intro guard_reach.step [OF Cons.prems(1) guard_step.handler_wipe])
  from Cons.IH [OF this] show ?case using Cons.prems by (simp add: terminate_wipe_def)
qed

section \<open>Properties\<close>

text \<open>
  C20. A process that ends in \<^verbatim>\<open>terminate\<close> has wiped its buffers, in every interleaving: however the monitor
  thread, nested signal handlers and the program's own threads take turns, from any state of the
  buffers, when one of them gets to \<^verbatim>\<open>os._exit\<close> the exit code is 1, every buffer registered at the start
  still is, and in every registered buffer, those that were created meanwhile included, each byte is zero
  or was written by another thread after a \<^verbatim>\<open>terminate\<close> had taken its snapshot; with no such write
  every buffer is zero. The other ends of the process (\<^verbatim>\<open>main\<close> returns, a signal without handler)
  wipe nothing, and the property does not speak of them.
\<close>

theorem exit_means_wiped:
  assumes "guard_reach expected (guard_start p) g" "gp_end g = Some ByTerminate"
  shows "pr_exit (gp_proc g) = Some 1 \<and>
    set (pm_registry (pr_pms p)) \<subseteq> set (pm_registry (pr_pms (gp_proc g))) \<and>
    (\<forall>b\<in>set (pm_registry (pr_pms (gp_proc g))). \<forall>i<nat (pm_size b).
       pm_load b (pr_pms (gp_proc g)) ! i = 0 \<or> pm_addr b + int i \<in> gp_written g) \<and>
    (gp_written g = {} \<longrightarrow> (\<forall>b\<in>set (pm_registry (pr_pms (gp_proc g))).
       pm_load b (pr_pms (gp_proc g)) = replicate (nat (pm_size b)) 0))"
proof -
  have i: "guard_inv (set (pm_registry (pr_pms p))) g" using assms(1) by (rule guard_reach_inv)
  then have "covered g []" using assms(2) by (simp add: guard_inv_def worklists_def)
  then have z: "pm_load b (pr_pms (gp_proc g)) ! i = 0 \<or> pm_addr b + int i \<in> gp_written g"
    if "b \<in> set (pm_registry (pr_pms (gp_proc g)))" "i < nat (pm_size b)" for b i
  proof -
    have "int i < int (nat (pm_size b))" using that(2) by (simp only: of_nat_less_iff)
    then have "pm_addr b + int i \<in> buffer_range b" by (simp only: buffer_range_def atLeastLessThan_iff) linarith
    then have "pm_mem (pr_pms (gp_proc g)) (pm_addr b + int i) = 0 \<or> pm_addr b + int i \<in> gp_written g"
      using \<open>covered g []\<close> that(1) unfolding covered_def by (metis empty_iff list.set(1))
    then show ?thesis using that(2) by (simp add: pm_load_def mem_read_def)
  qed
  then have "gp_written g = {} \<longrightarrow> (\<forall>b\<in>set (pm_registry (pr_pms (gp_proc g))).
       pm_load b (pr_pms (gp_proc g)) = replicate (nat (pm_size b)) 0)"
    by (auto simp: list_eq_iff_nth_eq pmb.load_length)
  then show ?thesis using i z assms(2) by (simp add: guard_inv_def)
qed

abbreviation sample_process :: process where
  "sample_process \<equiv> \<lparr>pr_pms = empty_pms\<lparr>pm_registry := [sample_key]\<rparr>, pr_armed = True, pr_running = True, pr_exit = None\<rparr>"

text \<open>A signal handler takes its snapshot; another thread writes a byte of the buffer; the handler goes on and exits.\<close>

theorem exit_means_wiped_witness:
  "\<exists>g. guard_reach [] (guard_start sample_process) g \<and> gp_end g = Some ByTerminate \<and>
    sample_key \<in> set (pm_registry (pr_pms (gp_proc g))) \<and>
    (\<forall>i<32. pm_load sample_key (pr_pms (gp_proc g)) ! i = 0 \<or> 4096 + int i \<in> gp_written g)"
proof -
  let ?g0 = "guard_start sample_process"
  let ?g1 = "?g0\<lparr>gp_handlers := [[sample_key]]\<rparr>"
  have "guard_step [] ?g0 (?g0\<lparr>gp_handlers := terminate_snapshot ?g0 # gp_handlers ?g0\<rparr>)"
    by (rule guard_step.handled [of _ SIGTERM]) (simp_all add: guard_start_def handled_signals_def)
  then have "guard_reach [] ?g0 ?g1"
    using guard_reach.step [OF guard_reach.start] by (simp add: terminate_snapshot_def guard_start_def)
  moreover obtain s where s: "pm_write sample_key [7] 3 (pr_pms (gp_proc ?g1)) = Inr s"
    by (simp add: pm_write_def raise_if_def)
  ultimately have "guard_reach [] ?g0 (program_wrote {pm_addr sample_key + 3 ..< pm_addr sample_key + 3 + int (length [7 :: byte])} s ?g1)"
    by (intro guard_reach.step [OF _ guard_step.store]) (simp_all add: guard_start_def)
  from handler_terminates [OF this] obtain g where g: "guard_reach [] ?g0 g" "gp_end g = Some ByTerminate"
    by (auto simp: program_wrote_def guard_start_def)
  from exit_means_wiped [OF g] have "sample_key \<in> set (pm_registry (pr_pms (gp_proc g)))" by simp
  then show ?thesis using exit_means_wiped [OF g] g by fastforce
qed

text \<open>
  The step relation refines the methods: a round of the monitor, or a signal handler, that nothing
  interrupts takes the process to the state that \<open>monitor_tick\<close>, or \<open>zeroizer_handle\<close>, computes.
\<close>

theorem terminate_runs:
  assumes "guard_reach expected g0 g" "gp_end g = None"
  shows "(gp_monitor g = InRound \<longrightarrow> (\<exists>g'. guard_reach expected g0 g' \<and>
      gp_proc g' = monitor_tick None expected h (gp_proc g) \<and>
      gp_end g' = (if monitor_violation expected h then Some ByTerminate else None))) \<and>
    (pr_armed (gp_proc g) \<and> sig \<in> set handled_signals \<longrightarrow> (\<exists>g'. guard_reach expected g0 g' \<and>
      gp_proc g' = zeroizer_handle None sig (gp_proc g) \<and> gp_end g' = Some ByTerminate))"
proof (intro conjI impI)
  assume "gp_monitor g = InRound"
  then have r: "guard_reach expected g0 (g\<lparr>gp_monitor := (if monitor_violation expected h then Terminating (terminate_snapshot g) else LoopTop)\<rparr>)"
    by (intro guard_reach.step [OF assms(1) guard_step.round] assms(2))
  show "\<exists>g'. guard_reach expected g0 g' \<and> gp_proc g' = monitor_tick None expected h (gp_proc g) \<and>
      gp_end g' = (if monitor_violation expected h then Some ByTerminate else None)"
  proof (cases "monitor_violation expected h")
    case True
    with r have "guard_reach expected g0 (g\<lparr>gp_monitor := Terminating (terminate_snapshot g)\<rparr>)" by simp
    from monitor_terminates [OF this] obtain g' where "guard_reach expected g0 g'" "gp_end g' = Some ByTerminate"
        "gp_proc g' = (gp_proc g)\<lparr>pr_pms := fold pm_zeroise (terminate_snapshot g) (pr_pms (gp_proc g)), pr_exit := Some 1\<rparr>"
      using assms(2) by auto
    then show ?thesis using True
      by (intro exI [of _ g']) (simp add: monitor_tick_eq zeroizer_terminate_def zeroise_all_def terminate_snapshot_def Let_def)
  next
    case False
    with r show ?thesis using assms(2) by (intro exI [of _ "g\<lparr>gp_monitor := LoopTop\<rparr>"]) (simp add: monitor_tick_eq)
  qed
next
  assume "pr_armed (gp_proc g) \<and> sig \<in> set handled_signals"
  then have r: "guard_reach expected g0 (g\<lparr>gp_handlers := terminate_snapshot g # gp_handlers g\<rparr>)"
    by (intro guard_reach.step [OF assms(1) guard_step.handled [where sig = sig]] assms(2)) simp_all
  show "\<exists>g'. guard_reach expected g0 g' \<and> gp_proc g' = zeroizer_handle None sig (gp_proc g) \<and> gp_end g' = Some ByTerminate"
    using handler_terminates [OF r] assms(2)
    by (auto simp: zeroizer_handle_def zeroizer_terminate_def zeroise_all_def terminate_snapshot_def Let_def)
qed

text \<open>
  The ends that wipe nothing: while no handler runs, \<^verbatim>\<open>main\<close> may end with any exit code, and a signal
  that the zeroizer does not handle, or that comes before it is armed, ends the process at any time; the
  buffers are then what they were.
\<close>

theorem other_ends_keep_buffers:
  assumes "gp_end g = None"
  shows "(gp_handlers g = [] \<longrightarrow> (\<exists>g'. guard_step expected g g' \<and> gp_end g' = Some (ByMain code) \<and>
      pr_exit (gp_proc g') = Some code \<and> pr_pms (gp_proc g') = pr_pms (gp_proc g))) \<and>
    (\<not> (pr_armed (gp_proc g) \<and> sig \<in> set handled_signals) \<longrightarrow> (\<exists>g'. guard_step expected g g' \<and>
      gp_end g' = Some (BySignal sig) \<and> pr_pms (gp_proc g') = pr_pms (gp_proc g)))"
  using guard_step.main_ends [OF assms, of expected code] guard_step.unhandled [OF assms, of sig expected] by fastforce

text \<open>
  C22. A round of the monitor ends the process when the device delivers a report with a changed
  measurement, and when no TEE is detected any more; it leaves the process alone when the
  measurement is the expected one.
\<close>

theorem monitor_tick_reacts:
  "(fetch_attestation_report h [] = Inr r \<and> 192 \<le> length r \<longrightarrow>
      monitor_tick cb expected h p =
        (if py_slice 0x90 0xC0 r = fit 48 expected then p else zeroizer_terminate cb p)) \<and>
   (\<not> ch_exists h SEV_GUEST_DEVICE \<longrightarrow> monitor_tick cb expected h p = zeroizer_terminate cb p)"
  by (auto simp: monitor_tick_def monitor_check_def parse_measurement_def layout_defs fit_eq_ljust_take
      fetch_attestation_report_def tee_detect_def fetch_tdx_quote_def)

definition host_of_device :: "snp_device \<Rightarrow> cloud_host" where
  "host_of_device d = \<lparr>ch_dev = d, ch_run = (\<lambda>args i. Inl FileNotFoundError),
     ch_read_text = (\<lambda>p. Inl FileNotFoundError), ch_dev_io = (\<lambda>b. Inl OSError)\<rparr>"

theorem monitor_tick_reacts_witness:
  "\<exists>r. fetch_attestation_report (host_of_device sample_device) [] = Inr r \<and> 192 \<le> length r \<and>
   monitor_tick None [1] (host_of_device sample_device) sample_process =
     (if py_slice 0x90 0xC0 r = fit 48 [1] then sample_process else zeroizer_terminate None sample_process)"
proof -
  let ?r = "replicate 80 0 @ fit 64 [] @ replicate 1040 (0 :: byte)"
  have "fetch_attestation_report (host_of_device sample_device) [] = Inr ?r"
    using sample_device_fetch [of "[]"]
    by (simp add: fetch_attestation_report_Inr host_of_device_def sample_device_def)
  moreover have "192 \<le> length ?r" by simp
  ultimately show ?thesis using monitor_tick_reacts [of "host_of_device sample_device" ?r None "[1]" sample_process] by blast
qed

text \<open>
  C23. A failing attestation device is not treated as a violation: when the SEV device exists but the
  ioctl fails or the firmware reports an error, the monitor logs a transient error and the process
  keeps its keys, because the exception is the other module's \<^verbatim>\<open>AttestationError\<close>.
\<close>

theorem monitor_ignores_device_errors:
  assumes "ch_exists h SEV_GUEST_DEVICE" "fetch_report_ioctl (ch_dev h) [] 0 = Inl (SnpAttestationError msg)"
  shows "monitor_tick cb expected h p = p"
  using assms by (simp add: monitor_tick_def monitor_check_def fetch_attestation_report_def tee_detect_sev
      fetch_sev_snp_report_def)

theorem monitor_ignores_device_errors_witness:
  "monitor_tick None [] (host_of_device (sample_device\<lparr>dev_ioctl := \<lambda>code req arg. Inl OSError\<rparr>)) sample_process = sample_process"
  by (rule monitor_ignores_device_errors [where msg = "''SNP_GET_REPORT ioctl failed''"])
     (simp_all add: host_of_device_def sample_device_def fetch_report_ioctl_def Let_def)

end
