(* ===== verification/Bootstrap.thy ===== *)
theory Bootstrap
  imports Process Effects
begin

text \<open>
  \<^verbatim>\<open>CloudProtection\<close> and \<^verbatim>\<open>main\<close> of \<^verbatim>\<open>src/src/cloud_protection.py\<close>. The bootstrap runs as a statement of
  \<open>Effects\<close> over the record \<open>cp_state\<close>: what it did before an exception stays, and the handlers
  see it. The hosts of all components are the record \<open>cp_world\<close>, the random and allocator choices
  of one run the record \<open>cp_draws\<close>.
\<close>

section \<open>Configuration and state\<close>

text \<open>
  The dict \<^verbatim>\<open>krs_config\<close>: one optional field per key that \<^verbatim>\<open>bootstrap\<close> looks up. A missing key is
  a \<^verbatim>\<open>KeyError\<close>, except for \<^verbatim>\<open>processor\<close>, which has a default.
\<close>

record krs_settings =
  ks_processor :: "string option"
  ks_client_cert :: "string option"
  ks_client_key :: "string option"
  ks_pinned_ca :: "string option"
  ks_pinned_server_fpr :: "string option"
  ks_krs_signing_pub :: "bytes option"
  ks_krs_mldsa_pub :: "bytes option"
  ks_server_name :: "string option"

text \<open>A dict in a condition: the empty dict is false.\<close>

definition settings_truthy :: "krs_settings option \<Rightarrow> bool" where
  "settings_truthy ks = (case ks of None \<Rightarrow> False | Some k \<Rightarrow>
     ks_processor k \<noteq> None \<or> ks_client_cert k \<noteq> None \<or> ks_client_key k \<noteq> None \<or> ks_pinned_ca k \<noteq> None
     \<or> ks_pinned_server_fpr k \<noteq> None \<or> ks_krs_signing_pub k \<noteq> None \<or> ks_krs_mldsa_pub k \<noteq> None
     \<or> ks_server_name k \<noteq> None)"

record cp_config =
  cp_output_dir :: string
  cp_cred_dir :: string
  cp_key_service_url :: "string option"
  cp_expected_measurement :: "bytes option"
  cp_production :: bool
  cp_krs_config :: "krs_settings option"
  cp_min_tcb :: int

record cp_state =
  cp_master_key :: "pm option"
  cp_replay_cache :: "bytes set"
  cp_lib :: bool
    \<comment> \<open>\<^verbatim>\<open>rust_unwrap._lib\<close> is loaded\<close>
  cp_outputs :: "string \<rightharpoonup> bytes"
    \<comment> \<open>files below the output directory\<close>
  cp_tmp :: files
  cp_proc :: process
  cp_monitored :: "bytes option"
    \<comment> \<open>the measurement a started monitor watches\<close>

record cp_world =
  w_crypto :: crypto
  w_host :: cloud_host
  w_snp :: snp_host
  w_libc :: libc
  w_rust :: rust_host
  w_pkg :: pkg_host
  w_net :: krs_net
  w_pki :: pki
  w_cert_files :: files
    \<comment> \<open>the files with the pinned CA, the client certificate and its key\<close>

record cp_draws =
  d_nonce :: bytes
  d_eph :: bytes
  d_kem :: bytes
  d_release_nonce :: bytes
    \<comment> \<open>the nonce that \<^verbatim>\<open>krs.release\<close> draws\<close>
  d_key_addr :: int

section \<open>The bootstrap sequence\<close>

text \<open>The first statement: lock all pages, now and in the future.\<close>

definition lock_pages :: "cp_world \<Rightarrow> (cp_state, unit) st" where
  "lock_pages w s =
     (case lock_all (w_libc w) (pr_pms (cp_proc s)) of
        Inl e \<Rightarrow> (Inl e, s)
      | Inr pms \<Rightarrow> (Inr (), s\<lparr>cp_proc := (cp_proc s)\<lparr>pr_pms := pms\<rparr>\<rparr>))"

text \<open>Step 2: the replay check on the fresh nonce and its recording.\<close>

definition fresh_nonce :: "cp_draws \<Rightarrow> (cp_state, unit) st" where
  "fresh_nonce d s =
     (let nonce_hash = sha256 (d_nonce d) in
      if has_seen nonce_hash (cp_replay_cache s)
      then (Inl (CloudAttestationError ''nonce replay detected''), s)
      else (Inr (), s\<lparr>cp_replay_cache := record_nonce nonce_hash (cp_replay_cache s)\<rparr>))"

definition bootstrap_report_data :: "bytes \<Rightarrow> bytes \<Rightarrow> bytes \<Rightarrow> bytes" where
  "bootstrap_report_data eph_pub kem_pub nonce =
     sha256 (eph_pub @ kem_pub @ nonce @ encode ''botsmaster-snp-binding-v2-hybrid'')"

text \<open>A new 32-byte buffer becomes the master key, then receives the first 32 bytes of the CEK.\<close>

definition set_master :: "cp_world \<Rightarrow> cp_draws \<Rightarrow> bytes \<Rightarrow> (cp_state, unit) st" where
  "set_master w d key s =
     (case ProtectedMemory (w_libc w) (d_key_addr d) 32 (pr_pms (cp_proc s)) of
        Inl e \<Rightarrow> (Inl e, s)
      | Inr (buf, pms1) \<Rightarrow>
         (let s1 = s\<lparr>cp_proc := (cp_proc s)\<lparr>pr_pms := pms1\<rparr>, cp_master_key := Some buf\<rparr>
          in case pm_write buf (take 32 key) 0 pms1 of
               Inl e \<Rightarrow> (Inl e, s1)
             | Inr pms2 \<Rightarrow> (Inr (), s1\<lparr>cp_proc := (cp_proc s1)\<lparr>pr_pms := pms2\<rparr>\<rparr>)))"

definition snp_check :: "cp_world \<Rightarrow> snp_verifier \<Rightarrow> bytes \<Rightarrow> bytes \<Rightarrow> (cp_state, bytes) st" where
  "snp_check w v report rd s =
     (case snp_verify (w_snp w) v (cp_tmp s) report rd of (r, fs) \<Rightarrow> (r, s\<lparr>cp_tmp := fs\<rparr>))"

definition key_of :: "string \<Rightarrow> 'a option \<Rightarrow> 'a res" where
  "key_of k v = res_of_option (KeyError k) v"

text \<open>Step 3, production: local verification, then the key-release service.\<close>

definition production_key ::
    "cp_world \<Rightarrow> cp_config \<Rightarrow> cp_draws \<Rightarrow> tee_attestation \<Rightarrow> bytes \<Rightarrow> bytes \<Rightarrow> (cp_state, bytes) st" where
  "production_key w cfg d att report report_data =
     bind_st (lift_res (raise_if (\<not> (str_truthy (cp_key_service_url cfg) \<and> settings_truthy (cp_krs_config cfg)))
        (CloudAttestationError ''production refuses the local attestation path''))) (\<lambda>_.
     bind_st (lift_res (res_of_option (CloudAttestationError ''production requires --expected-measurement'')
        (cp_expected_measurement cfg))) (\<lambda>expected.
     let ks = the (cp_krs_config cfg) in
     bind_st (snp_check w (SnpVerifier ''snpguest''
          (case ks_processor ks of None \<Rightarrow> ''milan'' | Some p \<Rightarrow> p) [expected] (cp_min_tcb cfg) True False None)
        report report_data) (\<lambda>_.
     bind_st (lift_res (key_of ''client_cert'' (ks_client_cert ks))) (\<lambda>client_cert.
     bind_st (lift_res (key_of ''client_key'' (ks_client_key ks))) (\<lambda>client_key.
     bind_st (lift_res (key_of ''pinned_ca'' (ks_pinned_ca ks))) (\<lambda>pinned_ca.
     bind_st (lift_res (key_of ''pinned_server_fpr'' (ks_pinned_server_fpr ks))) (\<lambda>fpr.
     bind_st (lift_res (key_of ''krs_signing_pub'' (ks_krs_signing_pub ks))) (\<lambda>signing_pub.
     bind_st (lift_res (key_of ''krs_mldsa_pub'' (ks_krs_mldsa_pub ks))) (\<lambda>mldsa_pub.
     bind_st (lift_res (key_of ''server_name'' (ks_server_name ks))) (\<lambda>name.
     bind_st (lift_res (KrsClient (w_crypto w) (w_pki w) (w_cert_files w) (the (cp_key_service_url cfg))
        client_cert client_key pinned_ca fpr signing_pub mldsa_pub name)) (\<lambda>krs.
     bind_st (lift_res (verify_via_key_service
        (\<lambda>r e k tt. krs_release (w_crypto w) krs (w_net w) (d_release_nonce d) r e k tt)
        report (d_eph d) (d_kem d) att)) (\<lambda>((key, measurement), att').
     bind_st (set_master w d key) (\<lambda>_. lift_res (Inr measurement))))))))))))))"

text \<open>Step 3, development: the measurement check and the local Nitrokey.\<close>

definition dev_key ::
    "cp_world \<Rightarrow> cp_config \<Rightarrow> cp_draws \<Rightarrow> tee_attestation \<Rightarrow> bytes \<Rightarrow> (cp_state, bytes) st" where
  "dev_key w cfg d att report =
     bind_st (lift_res (res_of_option (CloudAttestationError ''dev mode needs --expected-measurement'')
        (cp_expected_measurement cfg))) (\<lambda>expected.
     bind_st (lift_res (verify_attestation_report report expected (d_nonce d) att)) (\<lambda>att'.
     bind_st (lift_res (tee_measurement att')) (\<lambda>measurement.
     bind_st (lift_res (nk_detect (w_host w) (NitrokeyRoT (cp_cred_dir cfg)))) (\<lambda>nk1.
     bind_st (lift_res (nk_load_credential (w_host w) nk1)) (\<lambda>nk2.
     bind_st (lift_res (nk_derive_hmac_secret (w_host w) (take 32 measurement) nk2)) (\<lambda>(hmac_secret, nk3).
     bind_st (\<lambda>s. case derive_master_key (w_crypto w) (w_libc w) (d_key_addr d) measurement hmac_secret
                        (pr_pms (cp_proc s)) of
                    Inl e \<Rightarrow> (Inl e, s)
                  | Inr (key, pms) \<Rightarrow>
                     (Inr (), s\<lparr>cp_proc := (cp_proc s)\<lparr>pr_pms := pms\<rparr>, cp_master_key := Some key\<rparr>)) (\<lambda>_.
     lift_res (Inr measurement))))))))"

text \<open>Step 5; the loaded library stays loaded.\<close>

definition decrypt_step :: "cp_world \<Rightarrow> cp_config \<Rightarrow> (cp_state, nat) st" where
  "decrypt_step w cfg s =
     (case decrypt_package (w_crypto w) (w_rust w) (cp_lib s) (w_pkg w) (the (cp_master_key s))
             (pr_pms (cp_proc s)) (cp_production cfg) (cp_outputs s) of
        (r, outs) \<Rightarrow>
          (r, s\<lparr>cp_outputs := outs,
                cp_lib := (cp_lib s \<or> is_ok (pkg_mkdir (w_pkg w) []) \<and> rust_available (w_rust w) (cp_lib s) = Inr True)\<rparr>))"

definition findmnt :: "cp_config \<Rightarrow> string list" where
  "findmnt cfg = [''findmnt'', ''-T'', cp_output_dir cfg, ''-no'', ''FSTYPE'']"

text \<open>Steps 4 to 6.\<close>

definition finish ::
    "cp_world \<Rightarrow> cp_config \<Rightarrow> bytes \<Rightarrow> (cp_state, int) st" where
  "finish w cfg measurement =
     bind_st (lift_res (ch_run (w_host w) (findmnt cfg) [])) (\<lambda>(rc, fstype, err).
     bind_st (lift_res (raise_if (cp_production cfg \<and> \<not> py_in ''tmpfs'' fstype)
        (CloudAttestationError ''production requires tmpfs/LUKS output_dir''))) (\<lambda>_.
     bind_st (decrypt_step w cfg) (\<lambda>n.
     bind_st (lift_res (raise_if (n = 0)
        (CloudAttestationError ''No .aesgcm files found in sealed directory''))) (\<lambda>_.
     bind_st (update_st (\<lambda>s. s\<lparr>cp_proc := monitor_start (zeroizer_arm (cp_proc s)), cp_monitored := Some measurement\<rparr>)) (\<lambda>_.
     lift_res (Inr 0))))))"

text \<open>The \<^verbatim>\<open>try\<close> block.\<close>

definition bootstrap_body :: "cp_world \<Rightarrow> cp_config \<Rightarrow> cp_draws \<Rightarrow> (cp_state, int) st" where
  "bootstrap_body w cfg d =
     bind_st (lock_pages w) (\<lambda>_.
     bind_st (lift_res (lockdown_check (w_host w) (cp_production cfg))) (\<lambda>_.
     bind_st (lift_res (tee_detect (w_host w))) (\<lambda>tee.
     bind_st (fresh_nonce d) (\<lambda>_.
     bind_st (lift_res (kem_private_public (w_crypto w) (d_kem d))) (\<lambda>kem_pub.
     let report_data = bootstrap_report_data (x25519_public (w_crypto w) (d_eph d)) kem_pub (d_nonce d) in
     bind_st (lift_res (fetch_attestation_report (w_host w) report_data)) (\<lambda>report.
     bind_st (if cp_production cfg then production_key w cfg d TEEAttestation report report_data
              else dev_key w cfg d TEEAttestation report) (\<lambda>measurement.
     finish w cfg measurement)))))))"

text \<open>Both handlers do the same: zeroise the master key if there is one, and return 1.\<close>

definition bootstrap_fail :: "exn \<Rightarrow> cp_state \<Rightarrow> int \<times> cp_state" where
  "bootstrap_fail e s =
     (case cp_master_key s of
        None \<Rightarrow> (1, s)
      | Some k \<Rightarrow> (1, s\<lparr>cp_proc := (cp_proc s)\<lparr>pr_pms := pm_zeroise k (pr_pms (cp_proc s))\<rparr>\<rparr>))"

definition bootstrap :: "cp_world \<Rightarrow> cp_config \<Rightarrow> cp_draws \<Rightarrow> cp_state \<Rightarrow> int \<times> cp_state" where
  "bootstrap w cfg d s = catch_all (bootstrap_body w cfg d) bootstrap_fail s"

section \<open>Command line\<close>

record cloud_args =
  a_output_dir :: string
  a_cred_dir :: string
  a_key_service_url :: "string option"
  a_expected_measurement :: "string option"
  a_check_only :: bool
  a_production :: bool
  a_client_cert :: "string option"
  a_client_key :: "string option"
  a_pinned_ca :: "string option"
  a_pinned_server_fpr :: "string option"
  a_krs_pubkey :: "string option"
  a_krs_mldsa_pubkey :: "string option"
  a_server_name :: "string option"
  a_processor :: string
  a_min_tcb :: int

text \<open>\<^verbatim>\<open>--check-only\<close>: only \<^verbatim>\<open>AttestationError\<close> is caught.\<close>

definition check_only :: "cp_world \<Rightarrow> cloud_args \<Rightarrow> int res" where
  "check_only w a =
     (case bind_res (nk_detect (w_host w) (NitrokeyRoT (a_cred_dir a))) (nk_load_credential (w_host w)) of
        Inr nk \<Rightarrow> Inr 0
      | Inl (CloudAttestationError m) \<Rightarrow> Inr 0
      | Inl e \<Rightarrow> Inl e)"

definition missing_args :: "cloud_args \<Rightarrow> string list" where
  "missing_args a = map fst (filter (\<lambda>(n, v). \<not> str_truthy v)
     [(''--client-cert'', a_client_cert a), (''--client-key'', a_client_key a),
      (''--pinned-ca'', a_pinned_ca a), (''--pinned-server-fpr'', a_pinned_server_fpr a),
      (''--krs-pubkey'', a_krs_pubkey a), (''--krs-mldsa-pubkey'', a_krs_mldsa_pubkey a),
      (''--server-name'', a_server_name a), (''--key-service-url'', a_key_service_url a)])"

definition new_cp_state :: "pm_state \<Rightarrow> (string \<rightharpoonup> bytes) \<Rightarrow> files \<Rightarrow> bool \<Rightarrow> cp_state" where
  "new_cp_state pms outs tmp lib =
     \<lparr>cp_master_key = None, cp_replay_cache = new_replay_cache, cp_lib = lib, cp_outputs = outs, cp_tmp = tmp,
      cp_proc = \<lparr>pr_pms = pms, pr_armed = False, pr_running = False, pr_exit = None\<rparr>, cp_monitored = None\<rparr>"

definition cloud_main ::
    "cp_world \<Rightarrow> cloud_args \<Rightarrow> cp_draws \<Rightarrow> cp_state \<Rightarrow> int startup res \<times> cp_state" where
  "cloud_main w a d s =
     (case (if str_truthy (a_expected_measurement a)
            then bind_res (fromhex (the (a_expected_measurement a))) (\<lambda>m. Inr (Some m)) else Inr None) of
        Inl e \<Rightarrow> (Inl e, s)
      | Inr expected \<Rightarrow>
         (if a_check_only a then (bind_res (check_only w a) (\<lambda>r. Inr (Started r)), s)
          else if a_production a \<and> missing_args a \<noteq> []
          then (Inr (UsageError (''production requires: '' @ join '', '' (missing_args a))), s)
          else
            (case (if a_production a then
                     bind_res (fromhex (the (a_krs_pubkey a))) (\<lambda>pk.
                     bind_res (fromhex (the (a_krs_mldsa_pubkey a))) (\<lambda>mpk.
                     Inr (Some \<lparr>ks_processor = Some (a_processor a), ks_client_cert = a_client_cert a,
                       ks_client_key = a_client_key a, ks_pinned_ca = a_pinned_ca a,
                       ks_pinned_server_fpr = a_pinned_server_fpr a, ks_krs_signing_pub = Some pk,
                       ks_krs_mldsa_pub = Some mpk, ks_server_name = a_server_name a\<rparr>)))
                   else Inr None) of
               Inl e \<Rightarrow> (Inl e, s)
             | Inr ks \<Rightarrow>
                (case bootstrap w \<lparr>cp_output_dir = a_output_dir a, cp_cred_dir = a_cred_dir a,
                        cp_key_service_url = a_key_service_url a, cp_expected_measurement = expected,
                        cp_production = a_production a, cp_krs_config = ks, cp_min_tcb = a_min_tcb a\<rparr> d s of
                   (code, s') \<Rightarrow> (Inr (Started code), s')))))"

section \<open>Lemmas\<close>

lemma bootstrap_report_data_eq: "bootstrap_report_data x k n = report_data_for x k n"
  by (simp add: bootstrap_report_data_def report_data_for_def BIND_TAG_def)

text \<open>The body returns 0 or raises.\<close>

lemma finish_Inr:
  assumes "finish w cfg m s = (Inr r, s')"
  obtains n s1 where "r = 0" "decrypt_step w cfg s = (Inr n, s1)" "n \<noteq> 0"
    "s' = s1\<lparr>cp_proc := monitor_start (zeroizer_arm (cp_proc s1)), cp_monitored := Some m\<rparr>"
  using assms unfolding finish_def by (auto simp: bind_st_Inr split: prod.splits)

lemma bootstrap_body_Inr: "bootstrap_body w cfg d s = (Inr r, s') \<Longrightarrow> r = 0"
  unfolding bootstrap_body_def Let_def by (auto simp: bind_st_Inr elim: finish_Inr)

lemma bootstrap_result: "fst (bootstrap w cfg d s) = 0 \<or> fst (bootstrap w cfg d s) = 1"
proof (cases "bootstrap_body w cfg d s")
  case (Pair r s')
  then show ?thesis
    using bootstrap_body_Inr [of w cfg d s _ s']
    by (cases r) (auto simp: bootstrap_def catch_all_def bootstrap_fail_def split: option.splits)
qed

lemma bootstrap_0_iff: "bootstrap w cfg d s = (0, s') \<longleftrightarrow> bootstrap_body w cfg d s = (Inr 0, s')"
proof (cases "bootstrap_body w cfg d s")
  case (Pair r s')
  then show ?thesis
    using bootstrap_body_Inr [of w cfg d s _ s']
    by (cases r) (auto simp: bootstrap_def catch_all_def bootstrap_fail_def split: option.splits)
qed

lemma bootstrap_1_body:
  assumes "fst (bootstrap w cfg d s) = 1"
  obtains e s1 where "bootstrap_body w cfg d s = (Inl e, s1)" "bootstrap w cfg d s = bootstrap_fail e s1"
proof (cases "bootstrap_body w cfg d s")
  case (Pair r s')
  then show thesis
    using assms bootstrap_body_Inr [of w cfg d s _ s'] that
    by (cases r) (auto simp: bootstrap_def catch_all_def)
qed

text \<open>In production the key service is asked through an attestation object that has no TEE type yet.\<close>

lemma production_key_raises: "\<exists>e. fst (production_key w cfg d TEEAttestation report rd s) = Inl e"
proof (rule ccontr)
  assume "\<nexists>e. fst (production_key w cfg d TEEAttestation report rd s) = Inl e"
  then obtain m s' where "production_key w cfg d TEEAttestation report rd s = (Inr m, s')"
    by (metis prod.collapse sum.exhaust)
  then show False
    unfolding production_key_def Let_def
    by (auto simp: bind_st_Inr verify_via_key_service_fresh)
qed

lemma bootstrap_production_body:
  "cp_production cfg \<Longrightarrow> \<exists>e s'. bootstrap_body w cfg d s = (Inl e, s')"
proof -
  assume p: "cp_production cfg"
  have "bootstrap_body w cfg d s \<noteq> (Inr r, s')" for r s'
    unfolding bootstrap_body_def Let_def using p production_key_raises [of w cfg d]
    by (auto simp: bind_st_Inr) (metis fst_conv sum.distinct(1))
  then show ?thesis by (metis prod.collapse sum.exhaust)
qed

text \<open>Nothing before the decryption step touches the output files, the monitor or the zeroizer.\<close>

definition untouched :: "cp_state \<Rightarrow> cp_state \<Rightarrow> bool" where
  "untouched s s' \<longleftrightarrow> cp_outputs s' = cp_outputs s \<and> cp_monitored s' = cp_monitored s
     \<and> pr_armed (cp_proc s') = pr_armed (cp_proc s) \<and> pr_running (cp_proc s') = pr_running (cp_proc s)"

lemma keeps_lock_pages: "keeps (untouched s0) (lock_pages w)"
  by (auto simp: keeps_def lock_pages_def untouched_def split: sum.splits)

lemma keeps_fresh_nonce: "keeps (untouched s0) (fresh_nonce d)"
  by (auto simp: keeps_def fresh_nonce_def untouched_def Let_def)

lemma keeps_snp_check: "keeps (untouched s0) (snp_check w v r rd)"
  by (auto simp: keeps_def snp_check_def untouched_def split: prod.splits)

lemma keeps_set_master: "keeps (untouched s0) (set_master w d key)"
  by (auto simp: keeps_def set_master_def untouched_def Let_def split: sum.splits prod.splits)

lemma keeps_production_key: "keeps (untouched s0) (production_key w cfg d att report rd)"
  unfolding production_key_def Let_def
  by (intro keeps_bind keeps_lift keeps_snp_check keeps_set_master keeps_case_prod
      keeps_case_prod_app)

lemma bootstrap_production_untouched:
  assumes "cp_production cfg" "bootstrap_body w cfg d s = (Inl e, s')"
  shows "untouched s s'"
proof -
  note key = keeps_raising [OF keeps_production_key production_key_raises]
  have "keeps (untouched s) (bootstrap_body w cfg d)"
    unfolding bootstrap_body_def Let_def if_P [OF assms(1)]
    by (rule key keeps_lift keeps_lock_pages keeps_fresh_nonce | rule keeps_bind)+
  moreover have "untouched s s" by (simp add: untouched_def)
  ultimately show ?thesis using assms(2) by (rule keepsD)
qed

lemma dev_key_Inr:
  assumes "dev_key w cfg d TEEAttestation report s = (Inr m, s')" "hkdf_length (w_crypto w)"
  obtains expected secret nk0 nk nk' key where "cp_expected_measurement cfg = Some expected"
    "parse_measurement report = Inr (fit 48 expected)" "m = fit 48 expected"
    "nk_detect (w_host w) (NitrokeyRoT (cp_cred_dir cfg)) = Inr nk0" "nk_load_credential (w_host w) nk0 = Inr nk"
    "nk_derive_hmac_secret (w_host w) (take 32 m) nk = Inr (secret, nk')"
    "cp_master_key s' = Some key" "pm_size key = 32"
    "pm_load key (pr_pms (cp_proc s')) = hkdf_sha512 (w_crypto w) 32 [] MASTER_INFO (m @ secret)"
    "cp_outputs s' = cp_outputs s" "cp_lib s' = cp_lib s"
    "pm_all_locked (pr_pms (cp_proc s')) = pm_all_locked (pr_pms (cp_proc s))"
proof -
  obtain expected att' nk0 nk secret nk' where *: "cp_expected_measurement cfg = Some expected"
      "verify_attestation_report report expected (d_nonce d) TEEAttestation = Inr att'"
      "tee_measurement att' = Inr m"
      "nk_detect (w_host w) (NitrokeyRoT (cp_cred_dir cfg)) = Inr nk0" "nk_load_credential (w_host w) nk0 = Inr nk"
      "nk_derive_hmac_secret (w_host w) (take 32 m) nk = Inr (secret, nk')"
    and k: "(case derive_master_key (w_crypto w) (w_libc w) (d_key_addr d) m secret (pr_pms (cp_proc s)) of
        Inl e \<Rightarrow> (Inl e, s)
      | Inr (key, pms) \<Rightarrow>
          (Inr (), s\<lparr>cp_proc := (cp_proc s)\<lparr>pr_pms := pms\<rparr>, cp_master_key := Some key\<rparr>)) = (Inr (), s')"
    using assms(1) unfolding dev_key_def by (auto simp: bind_st_Inr)
  have m: "parse_measurement report = Inr (fit 48 expected)" "m = fit 48 expected"
    using *(2,3) by (auto simp: verify_attestation_report_Inr tee_measurement_def)
  obtain key pms1 where "ProtectedMemory (w_libc w) (d_key_addr d) 32 (pr_pms (cp_proc s)) = Inr (key, pms1)"
    using k by (auto simp: derive_master_key_def Let_def bind_res_Inr split: sum.splits)
  then obtain pms where "derive_master_key (w_crypto w) (w_libc w) (d_key_addr d) m secret (pr_pms (cp_proc s)) = Inr (key, pms)"
      "pm_size key = 32" "pm_load key pms = hkdf_sha512 (w_crypto w) 32 [] MASTER_INFO (m @ secret)"
      "pm_all_locked pms = pm_all_locked (pr_pms (cp_proc s))"
    using derive_master_key_Inr [OF assms(2)] by blast
  with k show thesis by (intro that [OF *(1) m *(4-6), of key]) auto
qed

lemma decrypt_step_Inr:
  assumes "decrypt_step w cfg s = (Inr n, s')"
  obtains use_rust where "cp_master_key s' = cp_master_key s" "cp_proc s' = cp_proc s"
    "n = length (pkg_files (w_pkg w))"
    "rust_available (w_rust w) (cp_lib s) = Inr use_rust"
    "\<forall>rel pt. cp_outputs s' rel = Some pt \<longrightarrow> cp_outputs s rel = Some pt \<or>
       (\<exists>p\<in>set (pkg_files (w_pkg w)). \<exists>blob. pkg_rel p = rel \<and> pkg_read (w_pkg w) p = Inr blob \<and>
          open_blob (w_crypto w) (w_rust w) use_rust (the (cp_master_key s)) (pr_pms (cp_proc s)) blob (encode rel) = Inr pt)"
    "\<forall>p\<in>set (pkg_files (w_pkg w)).
       (\<exists>blob pt. pkg_read (w_pkg w) p = Inr blob \<and>
         open_blob (w_crypto w) (w_rust w) use_rust (the (cp_master_key s)) (pr_pms (cp_proc s)) blob (encode (pkg_rel p)) = Inr pt) \<and>
       (\<exists>q\<in>set (pkg_files (w_pkg w)). \<exists>blob pt. pkg_rel q = pkg_rel p \<and> pkg_read (w_pkg w) q = Inr blob \<and>
         open_blob (w_crypto w) (w_rust w) use_rust (the (cp_master_key s)) (pr_pms (cp_proc s)) blob (encode (pkg_rel p)) = Inr pt \<and>
         cp_outputs s' (pkg_rel p) = Some pt)"
proof -
  obtain use_rust where u:
      "decrypt_package (w_crypto w) (w_rust w) (cp_lib s) (w_pkg w) (the (cp_master_key s))
         (pr_pms (cp_proc s)) (cp_production cfg) (cp_outputs s) =
       decrypt_files (open_blob (w_crypto w) (w_rust w) use_rust (the (cp_master_key s)) (pr_pms (cp_proc s)))
         (w_pkg w) (pkg_files (w_pkg w)) 0 (cp_outputs s)"
      "rust_available (w_rust w) (cp_lib s) = Inr use_rust"
    using assms unfolding decrypt_step_def decrypt_package_def by (auto split: sum.splits simp: bind_res_Inr)
  let ?r = "decrypt_files (open_blob (w_crypto w) (w_rust w) use_rust (the (cp_master_key s)) (pr_pms (cp_proc s)))
         (w_pkg w) (pkg_files (w_pkg w)) 0 (cp_outputs s)"
  have r: "fst ?r = Inr n" "cp_outputs s' = snd ?r" "cp_master_key s' = cp_master_key s" "cp_proc s' = cp_proc s"
    using assms unfolding decrypt_step_def u(1) by (auto split: prod.splits)
  have "n = length (pkg_files (w_pkg w))" using decrypt_files_count [OF r(1)] by simp
  moreover have "\<forall>rel pt. snd ?r rel = Some pt \<longrightarrow> cp_outputs s rel = Some pt \<or>
       (\<exists>p\<in>set (pkg_files (w_pkg w)). \<exists>blob. pkg_rel p = rel \<and> pkg_read (w_pkg w) p = Inr blob \<and>
          open_blob (w_crypto w) (w_rust w) use_rust (the (cp_master_key s)) (pr_pms (cp_proc s)) blob (encode rel) = Inr pt)"
    by (intro allI impI, drule decrypt_files_outputs) (unfold r(1), blast)
  ultimately show thesis
    by (rule that [OF r(3,4) _ u(2), unfolded r(2)]) (intro ballI decrypt_files_written [OF r(1)])
qed

text \<open>The steps of a successful bootstrap.\<close>

lemma bootstrap_0_steps:
  assumes "bootstrap w cfg d s = (0, s')"
  obtains sl s0 report m s1 where "\<not> cp_production cfg" "fresh_nonce d sl = (Inr (), s0)"
    "fetch_attestation_report (w_host w) (report_data_for (x25519_public (w_crypto w) (d_eph d))
      (oqs_kem_public (w_crypto w) (d_kem d)) (d_nonce d)) = Inr report"
    "dev_key w cfg d TEEAttestation report s0 = (Inr m, s1)" "finish w cfg m s1 = (Inr 0, s')"
    "lock_pages w s = (Inr (), sl)"
proof -
  have body: "bootstrap_body w cfg d s = (Inr 0, s')" using assms by (simp add: bootstrap_0_iff)
  then have prod: "\<not> cp_production cfg" using bootstrap_production_body [of cfg w d s] by auto
  show thesis
    using body prod that unfolding bootstrap_body_def Let_def bootstrap_report_data_eq
    by (auto simp: bind_st_Inr kem_private_public_def bind_res_Inr)
qed

section \<open>Properties\<close>

lemma bootstrap_fail_simps:
  "fst (bootstrap_fail e s) = 1" "cp_outputs (snd (bootstrap_fail e s)) = cp_outputs s"
  "cp_monitored (snd (bootstrap_fail e s)) = cp_monitored s" "cp_master_key (snd (bootstrap_fail e s)) = cp_master_key s"
  "pr_armed (cp_proc (snd (bootstrap_fail e s))) = pr_armed (cp_proc s)"
  "pr_running (cp_proc (snd (bootstrap_fail e s))) = pr_running (cp_proc s)"
  by (simp_all add: bootstrap_fail_def split: option.splits)

text \<open>
  C7. The production bootstrap never succeeds: for every host, configuration and random choice it
  returns 1, decrypts nothing and starts no monitor, because \<^verbatim>\<open>verify_via_key_service\<close> reads the
  TEE type of an attestation object on which nothing has been verified.
\<close>

theorem production_bootstrap_fails:
  assumes "cp_production cfg"
  shows "fst (bootstrap w cfg d s) = 1 \<and> cp_outputs (snd (bootstrap w cfg d s)) = cp_outputs s \<and>
    cp_monitored (snd (bootstrap w cfg d s)) = cp_monitored s"
proof -
  obtain e s' where b: "bootstrap_body w cfg d s = (Inl e, s')"
    using bootstrap_production_body [OF assms] by blast
  then have "bootstrap w cfg d s = bootstrap_fail e s'" by (simp add: bootstrap_def catch_all_def)
  then show ?thesis
    using bootstrap_production_untouched [OF assms b] by (simp add: bootstrap_fail_simps untouched_def)
qed

text \<open>
  C21. A failed bootstrap leaves no master key: whenever it returns 1, the key buffer it holds, if
  any, is zero.
\<close>

theorem bootstrap_failure_wipes_key:
  assumes "fst (bootstrap w cfg d s) = 1" "cp_master_key (snd (bootstrap w cfg d s)) = Some k"
  shows "pm_load k (pr_pms (cp_proc (snd (bootstrap w cfg d s)))) = replicate (nat (pm_size k)) 0"
proof -
  obtain e s1 where b: "bootstrap w cfg d s = bootstrap_fail e s1" using assms(1) by (rule bootstrap_1_body)
  then have "cp_master_key s1 = Some k" using assms(2) by (simp add: bootstrap_fail_simps)
  then show ?thesis by (simp add: b bootstrap_fail_def pmb.load_wipe)
qed

lemma bootstrap_success:
  assumes "bootstrap w cfg d s = (0, s')" "hkdf_length (w_crypto w)"
  shows "\<not> cp_production cfg \<and>
    (\<exists>expected report secret nk0 nk nk' key use_rust.
      cp_expected_measurement cfg = Some expected \<and>
      fetch_attestation_report (w_host w) (report_data_for (x25519_public (w_crypto w) (d_eph d))
        (oqs_kem_public (w_crypto w) (d_kem d)) (d_nonce d)) = Inr report \<and>
      parse_measurement report = Inr (fit 48 expected) \<and>
      nk_detect (w_host w) (NitrokeyRoT (cp_cred_dir cfg)) = Inr nk0 \<and> nk_load_credential (w_host w) nk0 = Inr nk \<and>
      nk_derive_hmac_secret (w_host w) (take 32 (fit 48 expected)) nk = Inr (secret, nk') \<and>
      cp_master_key s' = Some key \<and>
      pm_load key (pr_pms (cp_proc s')) = hkdf_sha512 (w_crypto w) 32 [] MASTER_INFO (fit 48 expected @ secret) \<and>
      pkg_files (w_pkg w) \<noteq> [] \<and> rust_available (w_rust w) (cp_lib s) = Inr use_rust \<and>
      (\<forall>p\<in>set (pkg_files (w_pkg w)).
       (\<exists>blob pt. pkg_read (w_pkg w) p = Inr blob \<and>
         open_blob (w_crypto w) (w_rust w) use_rust key (pr_pms (cp_proc s')) blob (encode (pkg_rel p)) = Inr pt) \<and>
       (\<exists>q\<in>set (pkg_files (w_pkg w)). \<exists>blob pt. pkg_rel q = pkg_rel p \<and> pkg_read (w_pkg w) q = Inr blob \<and>
         open_blob (w_crypto w) (w_rust w) use_rust key (pr_pms (cp_proc s')) blob (encode (pkg_rel p)) = Inr pt \<and>
         cp_outputs s' (pkg_rel p) = Some pt)) \<and>
      (\<forall>rel pt. cp_outputs s' rel = Some pt \<longrightarrow> cp_outputs s rel = Some pt \<or>
        (\<exists>p\<in>set (pkg_files (w_pkg w)). \<exists>blob. pkg_rel p = rel \<and> pkg_read (w_pkg w) p = Inr blob \<and>
          open_blob (w_crypto w) (w_rust w) use_rust key (pr_pms (cp_proc s')) blob (encode rel) = Inr pt)) \<and>
      pr_armed (cp_proc s') \<and> pr_running (cp_proc s') \<and> cp_monitored s' = Some (fit 48 expected))"
proof -
  obtain sl s0 report m s1 where prod: "\<not> cp_production cfg" and f: "fresh_nonce d sl = (Inr (), s0)"
      "fetch_attestation_report (w_host w) (report_data_for (x25519_public (w_crypto w) (d_eph d))
        (oqs_kem_public (w_crypto w) (d_kem d)) (d_nonce d)) = Inr report"
      "dev_key w cfg d TEEAttestation report s0 = (Inr m, s1)" "finish w cfg m s1 = (Inr 0, s')"
      "lock_pages w s = (Inr (), sl)"
    using assms(1) by (rule bootstrap_0_steps)
  have o0: "cp_outputs s0 = cp_outputs s" "cp_lib s0 = cp_lib s"
    using f(1,5) by (auto simp: fresh_nonce_def lock_pages_def Let_def split: if_splits sum.splits)
  obtain expected secret nk0 nk nk' key where k: "cp_expected_measurement cfg = Some expected"
      "parse_measurement report = Inr (fit 48 expected)" "m = fit 48 expected"
      "nk_detect (w_host w) (NitrokeyRoT (cp_cred_dir cfg)) = Inr nk0" "nk_load_credential (w_host w) nk0 = Inr nk"
      "nk_derive_hmac_secret (w_host w) (take 32 m) nk = Inr (secret, nk')"
      "cp_master_key s1 = Some key" "pm_size key = 32"
      "pm_load key (pr_pms (cp_proc s1)) = hkdf_sha512 (w_crypto w) 32 [] MASTER_INFO (m @ secret)"
      "cp_outputs s1 = cp_outputs s0" "cp_lib s1 = cp_lib s0"
    by (rule dev_key_Inr [OF f(3) assms(2)])
  obtain n s2 where s2: "decrypt_step w cfg s1 = (Inr n, s2)" "n \<noteq> 0"
      "s' = s2\<lparr>cp_proc := monitor_start (zeroizer_arm (cp_proc s2)), cp_monitored := Some m\<rparr>"
    using finish_Inr [OF f(4)] by metis
  have p: "pr_pms (cp_proc s') = pr_pms (cp_proc s2)" "pr_running (cp_proc s')" "pr_armed (cp_proc s')"
      "cp_monitored s' = Some m" "cp_outputs s' = cp_outputs s2" "cp_master_key s' = cp_master_key s2"
    by (simp_all add: s2(3) monitor_start_def zeroizer_arm_def)
  obtain use_rust where u: "cp_master_key s2 = cp_master_key s1" "cp_proc s2 = cp_proc s1"
      "n = length (pkg_files (w_pkg w))" "rust_available (w_rust w) (cp_lib s1) = Inr use_rust"
      "\<forall>rel pt. cp_outputs s2 rel = Some pt \<longrightarrow> cp_outputs s1 rel = Some pt \<or>
       (\<exists>p\<in>set (pkg_files (w_pkg w)). \<exists>blob. pkg_rel p = rel \<and> pkg_read (w_pkg w) p = Inr blob \<and>
          open_blob (w_crypto w) (w_rust w) use_rust (the (cp_master_key s1)) (pr_pms (cp_proc s1)) blob (encode rel) = Inr pt)"
      "\<forall>p\<in>set (pkg_files (w_pkg w)).
       (\<exists>blob pt. pkg_read (w_pkg w) p = Inr blob \<and>
         open_blob (w_crypto w) (w_rust w) use_rust (the (cp_master_key s1)) (pr_pms (cp_proc s1)) blob (encode (pkg_rel p)) = Inr pt) \<and>
       (\<exists>q\<in>set (pkg_files (w_pkg w)). \<exists>blob pt. pkg_rel q = pkg_rel p \<and> pkg_read (w_pkg w) q = Inr blob \<and>
         open_blob (w_crypto w) (w_rust w) use_rust (the (cp_master_key s1)) (pr_pms (cp_proc s1)) blob (encode (pkg_rel p)) = Inr pt \<and>
         cp_outputs s2 (pkg_rel p) = Some pt)"
    by (rule decrypt_step_Inr [OF s2(1)])
  have key: "the (cp_master_key s1) = key" using k(7) by simp
  have "pkg_files (w_pkg w) \<noteq> []" using u(3) s2(2) by auto
  moreover have "rust_available (w_rust w) (cp_lib s) = Inr use_rust" using u(4) k(11) o0(2) by simp
  ultimately show ?thesis
    using u(5,6) prod f(2) k(1,2,4-7,9) p(2-4) unfolding p u(1,2) key o0(1) k(3,10) by blast
qed


lemma bootstrap_key:
  assumes "bootstrap w cfg d s = (0, s')" "hkdf_length (w_crypto w)"
  shows "\<exists>expected secret key. cp_monitored s' = Some (fit 48 expected) \<and> cp_master_key s' = Some key \<and>
    pm_load key (pr_pms (cp_proc s')) = hkdf_sha512 (w_crypto w) 32 [] MASTER_INFO (fit 48 expected @ secret)"
  using bootstrap_success [OF assms] by blast

text \<open>
  C6. What a successful bootstrap guarantees: it ran in development mode; the fetched report was
  requested over the digest of its fresh X25519 key, ML-KEM key and nonce and carries the expected
  measurement; the key buffer holds the HKDF of that measurement and the secret that the detected
  token, with the credential loaded from the configured directory, gave for it; there was at least one sealed file,
  each was read and opened under that key with its own path as associated data, and the output
  at its path holds the plaintext opened for that path; every output is an old file or such a plaintext; the
  zeroizer is armed and the monitor watches the expected measurement.
\<close>

theorem bootstrap_success_guarantees:
  assumes "bootstrap w cfg d s = (0, s')" "hkdf_length (w_crypto w)"
  shows "\<not> cp_production cfg \<and>
    (\<exists>expected report secret nk0 nk nk' key use_rust.
      cp_expected_measurement cfg = Some expected \<and>
      fetch_attestation_report (w_host w) (report_data_for (x25519_public (w_crypto w) (d_eph d))
        (oqs_kem_public (w_crypto w) (d_kem d)) (d_nonce d)) = Inr report \<and>
      parse_measurement report = Inr (fit 48 expected) \<and>
      nk_detect (w_host w) (NitrokeyRoT (cp_cred_dir cfg)) = Inr nk0 \<and> nk_load_credential (w_host w) nk0 = Inr nk \<and>
      nk_derive_hmac_secret (w_host w) (take 32 (fit 48 expected)) nk = Inr (secret, nk') \<and>
      cp_master_key s' = Some key \<and>
      pm_load key (pr_pms (cp_proc s')) = hkdf_sha512 (w_crypto w) 32 [] MASTER_INFO (fit 48 expected @ secret) \<and>
      pkg_files (w_pkg w) \<noteq> [] \<and> rust_available (w_rust w) (cp_lib s) = Inr use_rust \<and>
      (\<forall>p\<in>set (pkg_files (w_pkg w)).
       (\<exists>blob pt. pkg_read (w_pkg w) p = Inr blob \<and>
         open_blob (w_crypto w) (w_rust w) use_rust key (pr_pms (cp_proc s')) blob (encode (pkg_rel p)) = Inr pt) \<and>
       (\<exists>q\<in>set (pkg_files (w_pkg w)). \<exists>blob pt. pkg_rel q = pkg_rel p \<and> pkg_read (w_pkg w) q = Inr blob \<and>
         open_blob (w_crypto w) (w_rust w) use_rust key (pr_pms (cp_proc s')) blob (encode (pkg_rel p)) = Inr pt \<and>
         cp_outputs s' (pkg_rel p) = Some pt)) \<and>
      (\<forall>rel pt. cp_outputs s' rel = Some pt \<longrightarrow> cp_outputs s rel = Some pt \<or>
        (\<exists>p\<in>set (pkg_files (w_pkg w)). \<exists>blob. pkg_rel p = rel \<and> pkg_read (w_pkg w) p = Inr blob \<and>
          open_blob (w_crypto w) (w_rust w) use_rust key (pr_pms (cp_proc s')) blob (encode rel) = Inr pt)) \<and>
      pr_armed (cp_proc s') \<and> pr_running (cp_proc s') \<and> cp_monitored s' = Some (fit 48 expected))"
  using assms by (rule bootstrap_success)

text \<open>A concrete host on which the development bootstrap runs to its end, and its configuration.\<close>

definition sample_assertion :: string where
  "sample_assertion = ''a'' @ newline @ ''b'' @ newline @ ''AQ==''"

definition sample_host :: cloud_host where
  "sample_host = \<lparr>
     ch_dev = sample_device\<lparr>path_exists := \<lambda>p. p = SEV_GUEST_DEVICE \<or> p = ''c/fido2_cred'' \<or> p = ''c/fido2_salt''\<rparr>,
     ch_run = (\<lambda>args i. if hd args = ''fido2-token'' then Inr (0, ''/dev/hidraw0: Nitrokey'', [])
                        else Inr (0, sample_assertion, [])),
     ch_read_text = (\<lambda>p. Inr ''id''), ch_dev_io = (\<lambda>b. Inl OSError)\<rparr>"

definition sample_world :: cp_world where
  "sample_world = \<lparr>w_crypto = sample_crypto, w_host = sample_host, w_snp = sample_snp_host, w_libc = sample_libc,
     w_rust = sample_rust,
     w_pkg = \<lparr>pkg_files = [''s.aesgcm''], pkg_read = (\<lambda>p. Inr (replicate 50 1)), pkg_mkdir = (\<lambda>p. Inr ()), pkg_put = (\<lambda>p d. Inr ()),
       pkg_left = (\<lambda>p d. None)\<rparr>,
     w_net = \<lparr>connect = (\<lambda>h p. Inl OSError), handshake = (\<lambda>ctx n. Inl OSError), send_all = (\<lambda>b. Inl OSError), received = (\<lambda>b. []),
       json_loads = sample_loads\<rparr>,
     w_pki = sample_pki, w_cert_files = Map.empty\<rparr>"

definition sample_config :: cp_config where
  "sample_config = \<lparr>cp_output_dir = ''out'', cp_cred_dir = ''c'', cp_key_service_url = None,
     cp_expected_measurement = Some [], cp_production = False, cp_krs_config = None, cp_min_tcb = 0\<rparr>"

definition sample_choices :: cp_draws where
  "sample_choices = \<lparr>d_nonce = replicate 32 1, d_eph = [2], d_kem = [3], d_release_nonce = replicate 32 4, d_key_addr = 8192\<rparr>"

definition sample_state :: cp_state where
  "sample_state = new_cp_state empty_pms Map.empty Map.empty False"

lemma sample_texts:
  "find_nitrokey (splitlines ''/dev/hidraw0: Nitrokey'') = Some ''/dev/hidraw0''"
  "py_strip ''id'' = ''id''"
  "split_on (char_of (10 :: nat)) (py_strip sample_assertion) = [''a'', ''b'', ''AQ=='']"
  "hmac_of_text (py_strip ''AQ=='') = Inr [1]"
  by code_simp+

lemma sample_fetch:
  "fetch_attestation_report sample_host rd = Inr (replicate 80 0 @ fit 64 rd @ replicate 1040 0)"
proof -
  have "fetch_report_ioctl (ch_dev sample_host) rd 0 = fetch_report_ioctl sample_device rd 0"
    by (simp add: sample_host_def fetch_report_ioctl_def sample_device_def)
  then show ?thesis using sample_device_fetch [of rd] by (simp add: fetch_attestation_report_Inr) (simp add: sample_host_def)
qed

lemma sample_measurement: "parse_measurement (replicate 80 0 @ fit 64 rd @ replicate 1040 0) = Inr (replicate 48 0)"
  by (simp add: parse_measurement_def layout_defs py_slice_def)

lemma sample_nitrokey:
  "\<exists>nk nk1. nk_detect sample_host (NitrokeyRoT ''c'') = Inr nk \<and> nk_load_credential sample_host nk = Inr nk1 \<and>
     nk_derive_hmac_secret sample_host ch nk1 = Inr ([1], nk1)"
  by (simp add: nk_detect_def nk_load_credential_def nk_derive_hmac_secret_def sample_host_def NitrokeyRoT_def
      sample_texts str_truthy_def Let_def)

lemma sample_dev_key:
  "\<exists>s'. dev_key sample_world sample_config sample_choices TEEAttestation
     (replicate 80 0 @ fit 64 rd @ replicate 1040 0) s = (Inr (replicate 48 0), s') \<and>
     (\<exists>key. cp_master_key s' = Some key \<and> pm_size key = 32)"
proof -
  obtain nk nk1 where n: "nk_detect sample_host (NitrokeyRoT ''c'') = Inr nk" "nk_load_credential sample_host nk = Inr nk1"
      "nk_derive_hmac_secret sample_host (take 32 (replicate 48 0)) nk1 = Inr ([1], nk1)"
    using sample_nitrokey by blast
  have v: "verify_attestation_report (replicate 80 0 @ fit 64 rd @ replicate 1040 0) [] nonce TEEAttestation =
      Inr (TEEAttestation\<lparr>att_tee_type := Some ''sev-snp'', att_measurement := Some (replicate 48 0),
        att_report_raw := Some (replicate 80 0 @ fit 64 rd @ replicate 1040 0)\<rparr>)" for nonce
    by (simp add: verify_attestation_report_Inr sample_measurement fit_short)
  obtain key pms1 where "ProtectedMemory sample_libc 8192 32 (pr_pms (cp_proc s)) = Inr (key, pms1)"
    by (auto simp: ProtectedMemory_def Let_def)
  then obtain pms where "derive_master_key sample_crypto sample_libc 8192 (replicate 48 0) [1] (pr_pms (cp_proc s)) = Inr (key, pms)"
      "pm_size key = 32"
    using derive_master_key_Inr [OF sample_hkdf] by blast
  then show ?thesis
    using n v
    by (simp add: dev_key_def sample_world_def sample_config_def sample_choices_def tee_measurement_def bind_st_def)
qed

lemma sample_decrypt:
  assumes "cp_master_key s = Some key" "pm_size key = 32" "\<not> cp_lib s"
  shows "\<exists>s'. decrypt_step sample_world sample_config s = (Inr 1, s')"
proof -
  have "rust_available sample_rust False = Inr True" by (rule sample_pkg_ok)
  moreover have "\<exists>pt. open_blob sample_crypto sample_rust True key (pr_pms (cp_proc s)) (replicate 50 1) aad = Inr pt" for aad
  proof -
    have "\<exists>pt. aes_gcm_open sample_crypto (replicate 50 1) key aad (pr_pms (cp_proc s)) = Inr pt"
      using assms(2) by (simp add: aes_gcm_open_def key32_default sample_crypto_def Let_def)
    then show ?thesis
      using rust_python_agree [of sample_crypto sample_rust key True "pr_pms (cp_proc s)" "replicate 50 1" aad] assms(2)
      by (auto simp: open_blob_def rust_load_def sample_rust_def sample_crates_agree)
  qed
  moreover then obtain pt where "open_blob sample_crypto sample_rust True key (pr_pms (cp_proc s)) (replicate 50 1)
      (encode (pkg_rel ''s.aesgcm'')) = Inr pt" by blast
  ultimately show ?thesis
    using assms by (simp add: decrypt_step_def decrypt_package_def sample_world_def sample_config_def Let_def)
qed

lemma sample_selectors:
  "w_crypto sample_world = sample_crypto" "w_host sample_world = sample_host" "\<not> cp_production sample_config"
  "d_eph sample_choices = [2]" "d_kem sample_choices = [3]" "d_nonce sample_choices = replicate 32 1"
  "tee_detect sample_host = Inr ''sev-snp''" "lockdown_check sample_host False = Inr ()"
  "kem_private_public sample_crypto sk = Inr (fit 32 sk)"
  by (simp_all add: sample_world_def sample_config_def sample_choices_def sample_host_def tee_detect_def
      lockdown_check_def kem_private_public_def) (simp add: sample_crypto_def)

lemma sample_lock_pages:
  "lock_pages sample_world s = (Inr (), s\<lparr>cp_proc := (cp_proc s)\<lparr>pr_pms := (pr_pms (cp_proc s))\<lparr>pm_libc := True\<rparr>\<rparr>\<rparr>)"
proof -
  have "w_libc sample_world = sample_libc" by (simp add: sample_world_def)
  then show ?thesis by (simp add: lock_pages_def lock_all_def) (simp add: sample_libc_def)
qed

lemma sample_bootstrap: "\<exists>s'. bootstrap sample_world sample_config sample_choices sample_state = (0, s')"
proof -
  let ?rd = "bootstrap_report_data (fit 32 [2]) (fit 32 [3]) (replicate 32 1)"
  obtain sl where sl: "lock_pages sample_world sample_state = (Inr (), sl)" "cp_replay_cache sl = {}" "\<not> cp_lib sl"
    by (simp add: sample_lock_pages sample_state_def new_cp_state_def new_replay_cache_def)
  then obtain s0 where s0: "fresh_nonce sample_choices sl = (Inr (), s0)" "\<not> cp_lib s0"
    by (simp add: fresh_nonce_def has_seen_def Let_def)
  obtain s1 key where s1: "dev_key sample_world sample_config sample_choices TEEAttestation
      (replicate 80 0 @ fit 64 ?rd @ replicate 1040 0) s0 = (Inr (replicate 48 0), s1)"
      "cp_master_key s1 = Some key" "pm_size key = 32"
    using sample_dev_key by blast
  have "cp_lib s1 = cp_lib s0" using dev_key_Inr [OF s1(1)] sample_hkdf by (auto simp: sample_world_def)
  then obtain s2 where s2: "decrypt_step sample_world sample_config s1 = (Inr 1, s2)"
    using sample_decrypt [OF s1(2,3)] s0(2) by auto
  have "ch_run (w_host sample_world) (findmnt sample_config) [] = Inr (0, sample_assertion, [])"
      "cp_production sample_config = False"
    by (simp_all add: sample_world_def sample_host_def sample_config_def findmnt_def)
  then have "\<exists>s'. finish sample_world sample_config (replicate 48 0) s1 = (Inr 0, s')"
    using s2 by (simp add: finish_def bind_st_def)
  then have "\<exists>s'. bootstrap_body sample_world sample_config sample_choices sample_state = (Inr 0, s')"
    unfolding bootstrap_body_def Let_def
    using sl(1) s0 s1 sample_fetch [of ?rd] by (simp add: bind_st_def sample_selectors)
  then show ?thesis by (simp add: bootstrap_0_iff)
qed

theorem bootstrap_success_guarantees_witness:
  "\<exists>s'. bootstrap sample_world sample_config sample_choices sample_state = (0, s') \<and>
     (\<exists>key pt. cp_master_key s' = Some key \<and> cp_outputs s' (pkg_rel ''s.aesgcm'') = Some pt) \<and>
     cp_monitored s' = Some (fit 48 [])"
proof -
  obtain s' where s': "bootstrap sample_world sample_config sample_choices sample_state = (0, s')"
    using sample_bootstrap by blast
  have "hkdf_length (w_crypto sample_world)" by (simp add: sample_selectors sample_hkdf)
  moreover have "pkg_files (w_pkg sample_world) = [''s.aesgcm'']" by (simp add: sample_world_def)
  ultimately show ?thesis using bootstrap_success_guarantees [OF s'] s' by (auto simp: sample_config_def)
qed

text \<open>
  After a successful bootstrap the protection ends with the program: \<^verbatim>\<open>main\<close> has nothing left to do but
  to return 0, the monitor thread is a daemon, and when the process ends that way the buffer still
  holds the master key.
\<close>

theorem success_ends_with_key:
  assumes "bootstrap w cfg d s = (0, s')" "hkdf_length (w_crypto w)"
  shows "\<exists>g expected secret key. guard_step expected (guard_start (cp_proc s')) g \<and> gp_end g = Some (ByMain 0) \<and>
    cp_monitored s' = Some (fit 48 expected) \<and> cp_master_key s' = Some key \<and>
    pm_load key (pr_pms (gp_proc g)) = hkdf_sha512 (w_crypto w) 32 [] MASTER_INFO (fit 48 expected @ secret)"
proof -
  obtain expected secret key where k: "cp_monitored s' = Some (fit 48 expected)" "cp_master_key s' = Some key"
      "pm_load key (pr_pms (cp_proc s')) = hkdf_sha512 (w_crypto w) 32 [] MASTER_INFO (fit 48 expected @ secret)"
    using bootstrap_key [OF assms] by blast
  obtain g where "guard_step expected (guard_start (cp_proc s')) g" "gp_end g = Some (ByMain 0)"
      "pr_pms (gp_proc g) = pr_pms (cp_proc s')"
    using other_ends_keep_buffers [of "guard_start (cp_proc s')" expected 0] by (auto simp: guard_start_def)
  then show ?thesis using k by metis
qed

theorem success_ends_with_key_witness:
  "\<exists>s' g expected secret key. bootstrap sample_world sample_config sample_choices sample_state = (0, s') \<and>
    guard_step expected (guard_start (cp_proc s')) g \<and> gp_end g = Some (ByMain 0) \<and> cp_master_key s' = Some key \<and>
    pm_load key (pr_pms (gp_proc g)) = hkdf_sha512 sample_crypto 32 [] MASTER_INFO (fit 48 expected @ secret)"
proof -
  obtain s' where s': "bootstrap sample_world sample_config sample_choices sample_state = (0, s')"
    using sample_bootstrap by blast
  have "hkdf_length (w_crypto sample_world)" by (simp add: sample_selectors sample_hkdf)
  from success_ends_with_key [OF s' this] show ?thesis using s' unfolding sample_selectors by blast
qed

theorem production_bootstrap_fails_witness:
  "fst (bootstrap sample_world (sample_config\<lparr>cp_production := True\<rparr>) sample_choices sample_state) = 1 \<and>
   cp_outputs (snd (bootstrap sample_world (sample_config\<lparr>cp_production := True\<rparr>) sample_choices sample_state)) = cp_outputs sample_state \<and>
   cp_monitored (snd (bootstrap sample_world (sample_config\<lparr>cp_production := True\<rparr>) sample_choices sample_state)) = cp_monitored sample_state"
  by (rule production_bootstrap_fails) simp

text \<open>
  The locking of all pages is not checked: \<^verbatim>\<open>bootstrap\<close> drops the result of \<^verbatim>\<open>mlockall\<close> and reports that all
  pages are locked. After a success they are locked exactly when the kernel had agreed.
\<close>

theorem bootstrap_mlockall_unchecked:
  assumes "bootstrap w cfg d s = (0, s')" "hkdf_length (w_crypto w)"
  shows "pm_all_locked (pr_pms (cp_proc s')) \<longleftrightarrow>
    pm_all_locked (pr_pms (cp_proc s)) \<or> mlockall (w_libc w) (MCL_CURRENT OR MCL_FUTURE) = 0"
proof -
  obtain sl s0 report m s1 where f: "fresh_nonce d sl = (Inr (), s0)"
      "dev_key w cfg d TEEAttestation report s0 = (Inr m, s1)" "finish w cfg m s1 = (Inr 0, s')"
      "lock_pages w s = (Inr (), sl)"
    using assms(1) by (rule bootstrap_0_steps)
  obtain n s2 where s2: "decrypt_step w cfg s1 = (Inr n, s2)"
      "s' = s2\<lparr>cp_proc := monitor_start (zeroizer_arm (cp_proc s2)), cp_monitored := Some m\<rparr>"
    using finish_Inr [OF f(3)] by metis
  have "pm_all_locked (pr_pms (cp_proc s1)) = pm_all_locked (pr_pms (cp_proc s0))"
    using dev_key_Inr [OF f(2) assms(2)] by metis
  moreover have "cp_proc s2 = cp_proc s1" by (rule decrypt_step_Inr [OF s2(1)])
  moreover have "cp_proc s0 = cp_proc sl" using f(1) by (auto simp: fresh_nonce_def Let_def split: if_splits)
  moreover obtain pms where "lock_all (w_libc w) (pr_pms (cp_proc s)) = Inr pms" "pr_pms (cp_proc sl) = pms"
    using f(4) by (auto simp: lock_pages_def split: sum.splits)
  ultimately show ?thesis
    using lock_all_Inr [of "w_libc w" "pr_pms (cp_proc s)" pms] s2(2)
    by (simp add: monitor_start_def zeroizer_arm_def)
qed

theorem bootstrap_mlockall_unchecked_witness:
  "\<exists>s'. bootstrap sample_world sample_config sample_choices sample_state = (0, s') \<and> \<not> pm_all_locked (pr_pms (cp_proc s'))"
proof -
  obtain s' where s': "bootstrap sample_world sample_config sample_choices sample_state = (0, s')"
    using sample_bootstrap by blast
  have "hkdf_length (w_crypto sample_world)" by (simp add: sample_selectors sample_hkdf)
  from bootstrap_mlockall_unchecked [OF s' this] show ?thesis
    using s' by (simp add: sample_world_def sample_libc_def sample_state_def new_cp_state_def empty_pms_def)
qed

text \<open>A second bootstrap of an object that holds a key, refused by the lockdown check.\<close>

lemma sample_failure:
  "\<exists>s'. bootstrap sample_world (sample_config\<lparr>cp_production := True\<rparr>) sample_choices (sample_state\<lparr>cp_master_key := Some sample_key\<rparr>)
     = (1, s') \<and> cp_master_key s' = Some sample_key"
proof -
  have "lockdown_check sample_host True =
      Inl (CloudAttestationError ''Production requires locked-down image'')"
    by (simp add: lockdown_check_def lockdown_issues_def ssh_issues_def) (simp add: sample_host_def)
  then show ?thesis
    by (simp add: bootstrap_def catch_all_def bootstrap_body_def sample_selectors bootstrap_fail_def bind_st_eq(2) [OF sample_lock_pages])
qed

theorem bootstrap_failure_wipes_key_witness:
  "\<exists>s'. bootstrap sample_world (sample_config\<lparr>cp_production := True\<rparr>) sample_choices (sample_state\<lparr>cp_master_key := Some sample_key\<rparr>)
     = (1, s') \<and> cp_master_key s' = Some sample_key \<and> pm_load sample_key (pr_pms (cp_proc s')) = replicate (nat (pm_size sample_key)) 0"
  using sample_failure bootstrap_failure_wipes_key by (metis fst_conv snd_conv)

end
