(* ===== verification/Krs_Selftest.thy ===== *)
theory Krs_Selftest
  imports Krs_Client Pyconv
begin

text \<open>
  \<^verbatim>\<open>src/src/krs_selftest.py\<close>: \<^verbatim>\<open>main\<close> generates an authority and two certificates, starts the server of
  \<open>Krs_Serve\<close> in development mode and drives the client of \<open>Krs_Client\<close> against it, once with the right
  pins and three times with a wrong one. The server answers one request after the other, so that
  the replay cache is passed from attempt to attempt; an attempt that fails before the request is
  sent leaves it alone. Printing is left out, as is the thread that runs the server.
\<close>

section \<open>The scenario\<close>

text \<open>What the script runs on: the packages, the temporary directory, and the keys, serial numbers and
  clock readings of the authority (0), the server (1) and the client (2).\<close>

record test_world =
  tw_crypto :: crypto
  tw_loads :: "bytes \<Rightarrow> json res"
  tw_lib :: http_library
  tw_pieces :: "bytes \<Rightarrow> bytes list"
    \<comment> \<open>how the bytes of an answer arrive\<close>
  tw_pki :: pki
  tw_write :: "string \<Rightarrow> unit res"
  tw_bind :: "string \<Rightarrow> int \<Rightarrow> int res"
  tw_tmp :: string
  tw_key :: "nat \<Rightarrow> bytes"
  tw_serial :: "nat \<Rightarrow> nat"
  tw_time :: "nat \<Rightarrow> int"

text \<open>What one attempt draws: the client's nonce, ephemeral and ML-KEM keys, the server's draws, and the
  time at which it connects.\<close>

record attempt =
  at_nonce :: bytes
  at_x :: bytes
  at_kem :: bytes
  at_krs :: krs_draws
  at_now :: int

definition test_certs :: "test_world \<Rightarrow> (bytes \<times> files) res" where
  "test_certs w =
     bind_res (gen_ca (tw_pki w) (tw_write w) (tw_tmp w) (tw_key w 0) (tw_serial w 0) (tw_time w 0) Map.empty)
       (\<lambda>((ca_key, ca_cert), fs0).
     bind_res (gen_leaf (tw_pki w) (tw_write w) (tw_tmp w) ''localhost'' ca_key ca_cert True
         (tw_key w 1) (tw_serial w 1) (tw_time w 1) fs0) (\<lambda>(server_cert, fs1).
     bind_res (gen_leaf (tw_pki w) (tw_write w) (tw_tmp w) ''client'' ca_key ca_cert False
         (tw_key w 2) (tw_serial w 2) (tw_time w 2) fs1) (\<lambda>(client_cert, fs2).
     Inr (server_cert, fs2))))"

definition mk_client :: "test_world \<Rightarrow> files \<Rightarrow> int \<Rightarrow> string \<Rightarrow> bytes \<Rightarrow> bytes \<Rightarrow> krs_client res" where
  "mk_client w fs prt fpr edpub mldsapub =
     KrsClient (tw_crypto w) (tw_pki w) fs (''https://'' @ ''localhost'' @ '':'' @ int_str prt @ ''/'' @ ''verify'')
       (path_join (tw_tmp w) ''client.pem'') (path_join (tw_tmp w) ''client.key'') (path_join (tw_tmp w) ''ca.pem'')
       fpr edpub mldsapub ''localhost''"

text \<open>\<^verbatim>\<open>mk_client(...).release(b"\x00" * 1184, ...)\<close>, and the server's cache afterwards.\<close>

definition drive :: "test_world \<Rightarrow> files \<Rightarrow> krs_httpd \<Rightarrow> string \<Rightarrow> bytes \<Rightarrow> bytes \<Rightarrow> attempt \<Rightarrow> krs_cache
    \<Rightarrow> (bytes \<times> bytes) res \<times> krs_cache" where
  "drive w fs httpd fpr edpub mldsapub a rc =
     (case bind_res (mk_client w fs (hd_port httpd) fpr edpub mldsapub) (\<lambda>cl.
           bind_res (kem_private_public (tw_crypto w) (at_kem a)) (\<lambda>kp. Inr (cl, kp))) of
        Inl e \<Rightarrow> (Inl e, rc)
      | Inr (cl, kp) \<Rightarrow>
         (krs_release (tw_crypto w) cl (net_of_server (tw_crypto w) (tw_loads w) (tw_lib w) (tw_pieces w) (tw_pki w) httpd
              (peer_of (krs_ctx cl)) (at_now a) (at_krs a) rc)
            (at_nonce a) (replicate 1184 0) (at_x a) (at_kem a) ''sev-snp'',
          (case client_handshake (tw_pki w) (at_now a) (krs_ctx cl) (server_name cl) (peer_of (hd_ctx httpd)) of
             Inl e \<Rightarrow> rc
           | Inr cert \<Rightarrow>
              (if sha256_hex cert = pinned_server_fpr cl
               then snd (handle_conn (tw_crypto w) (tw_loads w) (tw_lib w) (tw_pki w) httpd
                      (conn_of (peer_of (krs_ctx cl)) (at_now a) (at_krs a) (http_post (server_name cl) (encode (dumps
                         (release_body (replicate 1184 0) (x25519_public (tw_crypto w) (at_x a)) kp (at_nonce a) (sha256 cert) ''sev-snp'')))))
                      rc)
               else rc))))"

text \<open>\<^verbatim>\<open>try: ...; return 1 except KrsError: pass\<close>, then \<open>k\<close>.\<close>

definition must_refuse :: "'a res \<Rightarrow> int res \<Rightarrow> int res" where
  "must_refuse r k =
     (case r of Inr x \<Rightarrow> Inr 1 | Inl e \<Rightarrow> (case e of KrsError m \<Rightarrow> k | _ \<Rightarrow> Inl e))"

definition selftest :: "test_world \<Rightarrow> bytes \<Rightarrow> bytes \<Rightarrow> bytes \<Rightarrow> bytes \<Rightarrow> bytes
    \<Rightarrow> attempt \<Rightarrow> attempt \<Rightarrow> attempt \<Rightarrow> attempt \<Rightarrow> int res" where
  "selftest w key sk msk wrong_sk wrong_msk a1 a2 a3 a4 =
     (let c = tw_crypto w; krs_pub = ed25519_public c sk in
      bind_res (test_certs w) (\<lambda>(server_cert, fs).
      let fpr = sha256_hex server_cert in
      bind_res (sig_generate c msk) (\<lambda>(mldsa_pk, mldsa_secret).
      bind_res (KrsConfig sk mldsa_secret key None False) (\<lambda>(cfg, rc0).
      bind_res (serve (tw_pki w) fs (tw_bind w) cfg ''127.0.0.1'' 0 (path_join (tw_tmp w) ''localhost.pem'')
          (path_join (tw_tmp w) ''localhost.key'') (path_join (tw_tmp w) ''ca.pem'')) (\<lambda>httpd.
      case drive w fs httpd fpr krs_pub mldsa_pk a1 rc0 of (r1, rc1) \<Rightarrow>
      bind_res r1 (\<lambda>(got, meas).
      bind_res (raise_if (got \<noteq> key) (OtherError ''AssertionError'')) (\<lambda>_.
      bind_res (raise_if (length meas \<noteq> 48) (OtherError ''AssertionError'')) (\<lambda>_.
      case drive w fs httpd (concat (replicate 32 ''00'')) krs_pub mldsa_pk a2 rc1 of (r2, rc2) \<Rightarrow>
      must_refuse r2
        (case drive w fs httpd fpr (ed25519_public c wrong_sk) mldsa_pk a3 rc2 of (r3, rc3) \<Rightarrow>
         must_refuse r3
           (must_refuse (bind_res (sig_generate c wrong_msk) (\<lambda>(wrong_pk, x).
                fst (drive w fs httpd fpr krs_pub wrong_pk a4 rc3)))
              (Inr 0)))))))))))"

section \<open>The certificates\<close>

definition test_ca :: "test_world \<Rightarrow> bytes" where
  "test_ca w = cert_sign (tw_pki w) (ca_spec (tw_pki w) (tw_key w 0) (tw_serial w 0) (tw_time w 0)) (tw_key w 0)"

definition test_leaf :: "test_world \<Rightarrow> string \<Rightarrow> bool \<Rightarrow> nat \<Rightarrow> bytes" where
  "test_leaf w cn san i =
     cert_sign (tw_pki w) (leaf_spec (tw_pki w) cn (test_ca w) san (tw_key w i) (tw_serial w i) (tw_time w i)) (tw_key w 0)"

definition test_files :: "test_world \<Rightarrow> files" where
  "test_files w = Map.empty
     (path_join (tw_tmp w) ''ca.pem'' \<mapsto> pem_cert (tw_pki w) (test_ca w),
      path_join (tw_tmp w) ''localhost.pem'' \<mapsto> pem_cert (tw_pki w) (test_leaf w ''localhost'' True 1),
      path_join (tw_tmp w) ''localhost.key'' \<mapsto> pem_key (tw_pki w) (tw_key w 1),
      path_join (tw_tmp w) ''client.pem'' \<mapsto> pem_cert (tw_pki w) (test_leaf w ''client'' False 2),
      path_join (tw_tmp w) ''client.key'' \<mapsto> pem_key (tw_pki w) (tw_key w 2))"

definition test_ctx :: "test_world \<Rightarrow> tls_protocol \<Rightarrow> string \<Rightarrow> bool \<Rightarrow> nat \<Rightarrow> ssl_context" where
  "test_ctx w prot cn san i =
     \<lparr>sc_protocol = prot, sc_minimum_version = TLSv1_3, sc_verify_mode = CERT_REQUIRED,
      sc_check_hostname = (prot = PROTOCOL_TLS_CLIENT), sc_cas = [test_ca w], sc_chain = Some (test_leaf w cn san i, tw_key w i)\<rparr>"

abbreviation test_client_ctx :: "test_world \<Rightarrow> ssl_context" where
  "test_client_ctx w \<equiv> test_ctx w PROTOCOL_TLS_CLIENT ''client'' False 2"

abbreviation test_server_ctx :: "test_world \<Rightarrow> ssl_context" where
  "test_server_ctx w \<equiv> test_ctx w PROTOCOL_TLS_SERVER ''localhost'' True 1"

lemma test_certs_eq:
  assumes "\<And>f. tw_write w f = Inr ()" shows "test_certs w = Inr (test_leaf w ''localhost'' True 1, test_files w)"
  using assms by (simp add: test_certs_def gen_ca_def gen_leaf_def write_bytes_def Let_def test_ca_def test_leaf_def test_files_def)

lemma path_join_inj [simp]: "path_join d a = path_join d b \<longleftrightarrow> a = b"
  by (simp add: path_join_def)

lemma test_contexts:
  assumes "pki_correct (tw_pki w)"
  shows "server_context (tw_pki w) (test_files w) (path_join (tw_tmp w) ''localhost.pem'') (path_join (tw_tmp w) ''localhost.key'')
      (path_join (tw_tmp w) ''ca.pem'') = Inr (test_server_ctx w)"
    and "client_context (tw_pki w) (test_files w) (path_join (tw_tmp w) ''client.pem'') (path_join (tw_tmp w) ''client.key'')
      (path_join (tw_tmp w) ''ca.pem'') = Inr (test_client_ctx w)"
proof -
  note pem = pki_correctD(2-4) [OF assms]
  have "key_matches (tw_pki w) (test_leaf w cn san i) (tw_key w i)" for cn san i
    unfolding test_leaf_def by (rule pki_correctD(5) [OF assms]) (simp add: leaf_spec_def)
  then show "server_context (tw_pki w) (test_files w) (path_join (tw_tmp w) ''localhost.pem'') (path_join (tw_tmp w) ''localhost.key'')
      (path_join (tw_tmp w) ''ca.pem'') = Inr (test_server_ctx w)"
    "client_context (tw_pki w) (test_files w) (path_join (tw_tmp w) ''client.pem'') (path_join (tw_tmp w) ''client.key'')
      (path_join (tw_tmp w) ''ca.pem'') = Inr (test_client_ctx w)"
    by (simp_all add: server_context_def client_context_def set_verify_mode_def set_check_hostname_def SSLContext_def
        load_verify_locations_def load_cert_chain_def test_files_def pem test_ctx_def)
qed

text \<open>While all certificates are valid, both sides accept each other.\<close>

definition certs_valid :: "test_world \<Rightarrow> int \<Rightarrow> bool" where
  "certs_valid w now \<longleftrightarrow> (\<forall>i < 3. tw_time w i \<le> now \<and> now \<le> tw_time w i + one_day)"

lemma test_chain:
  assumes "pki_correct (tw_pki w)" "certs_valid w now" "i < 3"
  shows "chain_ok (tw_pki w) now [test_ca w] (test_leaf w cn san i)"
proof -
  let ?ca = "ca_spec (tw_pki w) (tw_key w 0) (tw_serial w 0) (tw_time w 0)"
  let ?leaf = "leaf_spec (tw_pki w) cn (test_ca w) san (tw_key w i) (tw_serial w i) (tw_time w i)"
  have "may_issue ?ca (tw_key w 0) (tw_pki w)" by (simp add: may_issue_def ca_spec_def)
  moreover have "cs_issuer ?leaf = cs_subject ?ca"
    by (simp add: pki_correctD(1) [OF assms(1)] leaf_spec_def test_ca_def)
  moreover have "valid_at now ?ca" "valid_at now ?leaf"
    using assms(2,3) by (simp_all add: certs_valid_def valid_at_def ca_spec_def leaf_spec_def)
  ultimately show ?thesis unfolding test_ca_def test_leaf_def by (rule pki_correctD(6) [OF assms(1)])
qed

lemma test_handshake:
  assumes "pki_correct (tw_pki w)" "certs_valid w now"
  shows "client_handshake (tw_pki w) now (test_client_ctx w) ''localhost'' (peer_of (test_server_ctx w)) = Inr (test_leaf w ''localhost'' True 1)"
    and "server_admits (tw_pki w) now (test_server_ctx w) (peer_of (test_client_ctx w))"
proof -
  have "host_ok (tw_pki w) (test_leaf w ''localhost'' True 1) ''localhost''"
    unfolding test_leaf_def
    by (rule pki_correctD(7) [OF assms(1), of "[''localhost'']" False]) (simp_all add: leaf_spec_def)
  then show "client_handshake (tw_pki w) now (test_client_ctx w) ''localhost'' (peer_of (test_server_ctx w)) = Inr (test_leaf w ''localhost'' True 1)"
    "server_admits (tw_pki w) now (test_server_ctx w) (peer_of (test_client_ctx w))"
    using test_chain [OF assms]
    by (simp_all add: client_handshake_def server_admits_def peer_cert_ok_def peer_of_def test_ctx_def)
qed

section \<open>Lemmas\<close>

lemma normalise_fpr_hex: "set s \<subseteq> set hex_digits \<Longrightarrow> normalise_fpr s = s"
proof (induction s)
  case (Cons x s)
  then have "x \<in> set hex_digits" by simp
  then have "lower_char x = x \<and> x \<noteq> CHR '':''" by (auto simp: hex_digits_def lower_char_def)
  with Cons show ?case by (simp add: normalise_fpr_def)
qed (simp add: normalise_fpr_def)

lemma normalise_fpr_sha: "normalise_fpr (sha256_hex m) = sha256_hex m"
  using hex_encode_chars by (intro normalise_fpr_hex) (auto simp: sha256_hex_def)

lemma normalise_fpr_zero: "normalise_fpr (concat (replicate 32 ''00'')) = concat (replicate 32 ''00'')"
  by (rule normalise_fpr_hex) (simp add: hex_digits_def)

definition pinned :: "test_world \<Rightarrow> int \<Rightarrow> string \<Rightarrow> bytes \<Rightarrow> bytes \<Rightarrow> krs_client" where
  "pinned w prt fpr edpub mldsapub =
     \<lparr>host = ''localhost'', port = prt, server_name = ''localhost'', pinned_server_fpr = normalise_fpr fpr,
      krs_ed_pub = edpub, krs_mldsa_pub = mldsapub, krs_ctx = test_client_ctx w\<rparr>"

lemma mk_client_ok:
  assumes "ed25519_correct (tw_crypto w)" "pki_correct (tw_pki w)"
  shows "mk_client w (test_files w) prt fpr (ed25519_public (tw_crypto w) s) mldsapub =
    Inr (pinned w prt fpr (ed25519_public (tw_crypto w) s) mldsapub)"
proof -
  have "split_url (''https://'' @ ''localhost'' @ '':'' @ int_str prt @ ''/'' @ ''verify'') = Inr (''localhost'', prt)"
    using split_url_parts [of "''localhost''" prt "''verify''"] by auto
  then show ?thesis
    using assms test_contexts(2) [OF assms(2)] by (simp add: mk_client_def KrsClient_def pinned_def ed25519_correct_def)
qed

text \<open>A served answer that was signed with other keys than the pinned ones is refused.\<close>

lemma accept_refused:
  assumes "hybrid_verify c (krs_ed_pub cl) (krs_mldsa_pub cl) (kx @ ct @ w @ m @ nonce) sig = Inr False"
  shows "accept_response c cl x_eph kem xp kp nonce
    (JObj [(''verified'', JBool True), (''krs_x_pub'', JHex kx), (''kem_ct'', JB64 ct), (''session_key'', JB64 w),
       (''measurement'', JHex m), (''nonce_echo'', JB64 nonce), (''krs_signature'', JB64 sig)])
    = Inl (KrsError ''KRS response hybrid signature invalid'')"
  using assms by (simp add: accept_response_def hex_field_def b64_field_def obj_lookup_def)

lemma hybrid_verify_wrong:
  assumes "ed25519_correct c" "mldsa_correct c" "hybrid_sign c sk msk msg = Inr sig"
    and "ed25519_verify c ed (ed25519_sign c sk msg) msg \<noteq> Inr () \<or>
      (\<forall>s. oqs_sign c msk msg = Inr s \<longrightarrow> oqs_verify c msg s pq = Inr False)"
  shows "hybrid_verify c ed pq msg sig = Inr False"
proof -
  obtain s where s: "sig_sign c msk msg = Inr s" "length s < 2 ^ 32" using sig_verify_sign [OF assms(2)] by blast
  then have f: "frameable [ed25519_sign c sk msg, s]" using assms(1) by (simp add: frameable_def ed25519_correct_def)
  have "sig = frame_bytes [ed25519_sign c sk msg, s]"
    using assms(3) s(1) f by (simp add: hybrid_sign_def frame_eq del: frame.simps frame_bytes.simps)
  moreover have "oqs_import c = Inr ()" using assms(2) by (simp add: mldsa_correct_def)
  moreover have "oqs_sign c msk msg = Inr s" using s(1) calculation(2) by (simp add: sig_sign_def)
  ultimately show ?thesis
    using hybrid_verify_frame [OF f, of c ed pq msg] assms(4) by (auto simp: sig_verify_def split: sum.splits)
qed

lemma release_cek_Inr:
  assumes "release_cek c cfg dr report xp kp nonce = Inr b"
  obtains kx ct w m sig where
    "hybrid_sign c (signing_key cfg) (mldsa_sk cfg) (kx @ ct @ w @ m @ nonce) = Inr sig"
    "b = JObj [(''verified'', JBool True), (''krs_x_pub'', JHex kx), (''kem_ct'', JB64 ct), (''session_key'', JB64 w),
       (''measurement'', JHex m), (''nonce_echo'', JB64 nonce), (''krs_signature'', JB64 sig)]"
  using assms by (auto simp: release_cek_def bind_res_Inr)

lemma accept_deny: "accept_response c cl x_eph kem xp kp nonce (body deny) = Inl (KrsError ''KRS refused'')"
  by (simp add: accept_response_def deny_def obj_lookup_def)

text \<open>The two answers of the handler to a well-formed request.\<close>

lemma post_answer_cases:
  assumes "reads_dumps jl" "length xp = 32" "length nonce = 32"
  shows "fst (do_POST c cfg dr (post_request jl (release_body report xp kp nonce cb tee)) rc) = deny \<or>
    (\<exists>b. release_cek c cfg dr report xp kp nonce = Inr b \<and>
      fst (do_POST c cfg dr (post_request jl (release_body report xp kp nonce cb tee)) rc) = \<lparr>status = 200, body = b\<rparr>)"
  using parse_post_request [OF assms]
  by (auto simp: do_POST_def split: sum.splits prod.splits bool.splits)

text \<open>What the packages and the libraries have to provide, and what one attempt needs.\<close>

definition crypto_ok :: "crypto \<Rightarrow> bool" where
  "crypto_ok c \<longleftrightarrow>
     x25519_agrees c \<and> aead_correct c \<and> hkdf_length c \<and> ed25519_correct c \<and> mldsa_correct c"

definition world_ok :: "test_world \<Rightarrow> bool" where
  "world_ok w \<longleftrightarrow> crypto_ok (tw_crypto w) \<and> pki_correct (tw_pki w) \<and> reads_dumps (tw_loads w) \<and> library_ok (tw_lib w) \<and> delivers (tw_pieces w)
     \<and> (\<forall>f. tw_write w f = Inr ()) \<and> is_ok (tw_bind w ''127.0.0.1'' 0)"

definition attempt_ok :: "test_world \<Rightarrow> attempt \<Rightarrow> bool" where
  "attempt_ok w a \<longleftrightarrow> length (at_nonce a) = 32 \<and> certs_valid w (at_now a)"

text \<open>The server that \<^verbatim>\<open>main\<close> starts.\<close>

definition test_httpd :: "test_world \<Rightarrow> krs_config \<Rightarrow> int \<Rightarrow> krs_httpd" where
  "test_httpd w cfg prt = \<lparr>hd_host = ''127.0.0.1'', hd_port = prt, hd_cfg = cfg, hd_ctx = test_server_ctx w\<rparr>"

lemma test_linked:
  assumes "world_ok w" "certs_valid w now"
  shows "linked (tw_loads w) (tw_lib w) (tw_pieces w) (tw_pki w) now (pinned w prt fpr edpub mldsapub) (test_httpd w cfg prt) (test_leaf w ''localhost'' True 1)"
  using assms test_handshake [of w now] by (simp add: linked_def world_ok_def pinned_def test_httpd_def)

text \<open>An attempt with a key that loads: the pin decides, then the handler's answer.\<close>

lemma drive_release:
  assumes "world_ok w"
  shows "fst (drive w (test_files w) (test_httpd w cfg prt) fpr (ed25519_public (tw_crypto w) s) mldsapub a rc) =
    (let cl = pinned w prt fpr (ed25519_public (tw_crypto w) s) mldsapub in
     krs_release (tw_crypto w) cl (net_of_server (tw_crypto w) (tw_loads w) (tw_lib w) (tw_pieces w) (tw_pki w) (test_httpd w cfg prt)
        (peer_of (krs_ctx cl)) (at_now a) (at_krs a) rc)
      (at_nonce a) (replicate 1184 0) (at_x a) (at_kem a) ''sev-snp'')"
proof -
  have "oqs_import (tw_crypto w) = Inr ()" "ed25519_correct (tw_crypto w)" "pki_correct (tw_pki w)"
    using assms by (simp_all add: world_ok_def crypto_ok_def mldsa_correct_def)
  then show ?thesis
    using mk_client_ok [of w prt fpr s mldsapub] by (simp add: drive_def kem_private_public_def test_httpd_def Let_def)
qed

lemma drive_eq:
  assumes "world_ok w" "certs_valid w (at_now a)"
  shows "fst (drive w (test_files w) (test_httpd w cfg prt) fpr (ed25519_public (tw_crypto w) s) mldsapub a rc) =
    (let c = tw_crypto w; cl = pinned w prt fpr (ed25519_public c s) mldsapub; cert = test_leaf w ''localhost'' True 1;
         xp = x25519_public c (at_x a); kp = oqs_kem_public c (at_kem a) in
     bind_res (raise_if (sha256_hex cert \<noteq> normalise_fpr fpr) (KrsError ''server cert fingerprint mismatch'')) (\<lambda>_.
     accept_response c cl (at_x a) (at_kem a) xp kp (at_nonce a) (body (fst (do_POST c cfg (at_krs a)
       (post_request (tw_loads w) (release_body (replicate 1184 0) xp kp (at_nonce a) (sha256 cert) ''sev-snp'')) rc)))))"
  unfolding drive_release [OF assms(1)] Let_def krs_release_linked [OF test_linked [OF assms]]
  by (simp add: test_httpd_def) (simp add: pinned_def)

lemma drive_served:
  assumes "world_ok w" "attempt_ok w a" "\<not> production cfg" "sha256 (at_nonce a) \<notin> krs_seen rc"
    and "mlkem_correct (tw_crypto w) (draw_coins (at_krs a)) (at_kem a)" "length (draw_nonce (at_krs a)) = 12"
  shows "fst (drive w (test_files w) (test_httpd w cfg prt) (sha256_hex (test_leaf w ''localhost'' True 1))
      (ed25519_public (tw_crypto w) (signing_key cfg)) (oqs_sig_public (tw_crypto w) (mldsa_sk cfg)) a rc)
    = Inr (cek cfg, dev_measurement)"
proof -
  have c: "x25519_agrees (tw_crypto w)" "aead_correct (tw_crypto w)" "hkdf_length (tw_crypto w)" "ed25519_correct (tw_crypto w)"
      "mldsa_correct (tw_crypto w)"
    using assms(1) by (simp_all add: world_ok_def crypto_ok_def)
  have l: "linked (tw_loads w) (tw_lib w) (tw_pieces w) (tw_pki w) (at_now a) (pinned w prt fpr ed pq) (test_httpd w cfg prt) (test_leaf w ''localhost'' True 1)"
    for fpr ed pq using assms(1,2) test_linked by (simp add: attempt_ok_def)
  show ?thesis
    unfolding drive_release [OF assms(1)] Let_def
    by (subst krs_release_served [OF c(1) assms(5) c(2-5) assms(6) _ _ _ l])
       (use assms in \<open>simp_all add: pinned_def normalise_fpr_sha attest_def attempt_ok_def test_httpd_def\<close>)
qed

lemma drive_wrong_fpr:
  assumes "world_ok w" "attempt_ok w a" "sha256_hex (test_leaf w ''localhost'' True 1) \<noteq> concat (replicate 32 ''00'')"
  shows "fst (drive w (test_files w) (test_httpd w cfg prt) (concat (replicate 32 ''00'')) (ed25519_public (tw_crypto w) s) mldsapub a rc)
    = Inl (KrsError ''server cert fingerprint mismatch'')"
  using assms drive_eq [of w a] normalise_fpr_zero by (simp add: attempt_ok_def)

lemma must_refuse_error: "\<exists>e. r = Inl (KrsError e) \<Longrightarrow> must_refuse r k = k"
  by (auto simp: must_refuse_def)

text \<open>With a wrong pinned key the client gives up, whether the server releases or refuses.\<close>

lemma drive_wrong_key:
  assumes "world_ok w" "attempt_ok w a"
    and "\<And>m. ed25519_verify (tw_crypto w) (ed25519_public (tw_crypto w) s) (ed25519_sign (tw_crypto w) (signing_key cfg) m) m \<noteq> Inr () \<or>
      (\<forall>x. oqs_sign (tw_crypto w) (mldsa_sk cfg) m = Inr x \<longrightarrow> oqs_verify (tw_crypto w) m x pq = Inr False)"
  shows "\<exists>e. fst (drive w (test_files w) (test_httpd w cfg prt) (sha256_hex (test_leaf w ''localhost'' True 1))
      (ed25519_public (tw_crypto w) s) pq a rc) = Inl (KrsError e)"
proof -
  let ?c = "tw_crypto w" and ?cert = "test_leaf w ''localhost'' True 1"
  let ?cl = "pinned w prt (sha256_hex ?cert) (ed25519_public ?c s) pq"
  let ?xp = "x25519_public ?c (at_x a)" and ?kp = "oqs_kem_public ?c (at_kem a)"
  let ?rq = "post_request (tw_loads w) (release_body (replicate 1184 0) ?xp ?kp (at_nonce a) (sha256 ?cert) ''sev-snp'')"
  have eq: "fst (drive w (test_files w) (test_httpd w cfg prt) (sha256_hex ?cert) (ed25519_public ?c s) pq a rc) =
      accept_response ?c ?cl (at_x a) (at_kem a) ?xp ?kp (at_nonce a) (body (fst (do_POST ?c cfg (at_krs a) ?rq rc)))"
    using assms(1,2) drive_eq [of w a] by (simp add: attempt_ok_def normalise_fpr_sha Let_def)
  have w: "length ?xp = 32" "reads_dumps (tw_loads w)" "length (at_nonce a) = 32"
    using assms(1,2) by (simp_all add: world_ok_def crypto_ok_def x25519_agrees_def attempt_ok_def)
  consider "fst (do_POST ?c cfg (at_krs a) ?rq rc) = deny"
    | b where "release_cek ?c cfg (at_krs a) (replicate 1184 0) ?xp ?kp (at_nonce a) = Inr b"
        "fst (do_POST ?c cfg (at_krs a) ?rq rc) = \<lparr>status = 200, body = b\<rparr>"
    using post_answer_cases [OF w(2,1,3)] by blast
  then show ?thesis
  proof cases
    case 1
    then show ?thesis using eq accept_deny by simp
  next
    case 2
    obtain kx ct wr m sig where r: "hybrid_sign ?c (signing_key cfg) (mldsa_sk cfg) (kx @ ct @ wr @ m @ at_nonce a) = Inr sig"
        "b = JObj [(''verified'', JBool True), (''krs_x_pub'', JHex kx), (''kem_ct'', JB64 ct), (''session_key'', JB64 wr),
           (''measurement'', JHex m), (''nonce_echo'', JB64 (at_nonce a)), (''krs_signature'', JB64 sig)]"
      using release_cek_Inr [OF 2(1)] .
    have "hybrid_verify ?c (krs_ed_pub ?cl) (krs_mldsa_pub ?cl) (kx @ ct @ wr @ m @ at_nonce a) sig = Inr False"
      using hybrid_verify_wrong [OF _ _ r(1) assms(3)] assms(1) by (simp add: pinned_def world_ok_def crypto_ok_def)
    then show ?thesis unfolding eq 2(2) using accept_refused r(2) by simp
  qed
qed

section \<open>Properties\<close>

text \<open>
  C40. The self-test passes: with packages that behave as documented, writes and a port that succeed,
  attempts within a day of the certificates' generation, 32-byte nonces, and a wrong Ed25519 key and a
  wrong ML-DSA key under which the service's signatures do not verify, the generated certificates
  carry every handshake, the released key and measurement are the expected ones, each of the three
  wrong pins is refused with \<^verbatim>\<open>KrsError\<close>, and the exit code is 0.
\<close>

theorem selftest_passes:
  assumes "world_ok w" "attempt_ok w a1" "attempt_ok w a2" "attempt_ok w a3" "attempt_ok w a4" "length key = 32"
    and "mlkem_correct (tw_crypto w) (draw_coins (at_krs a1)) (at_kem a1)" "length (draw_nonce (at_krs a1)) = 12"
    and "sha256_hex (test_leaf w ''localhost'' True 1) \<noteq> concat (replicate 32 ''00'')"
    and "\<And>m. ed25519_verify (tw_crypto w) (ed25519_public (tw_crypto w) wrong_sk) (ed25519_sign (tw_crypto w) sk m) m \<noteq> Inr ()"
    and "\<And>m s. oqs_sign (tw_crypto w) msk m = Inr s \<Longrightarrow> oqs_verify (tw_crypto w) m s (oqs_sig_public (tw_crypto w) wrong_msk) = Inr False"
  shows "selftest w key sk msk wrong_sk wrong_msk a1 a2 a3 a4 = Inr 0"
proof -
  let ?c = "tw_crypto w" and ?fs = "test_files w" and ?f = "sha256_hex (test_leaf w ''localhost'' True 1)"
  let ?pk = "ed25519_public ?c sk" and ?pq = "oqs_sig_public ?c msk"
  define cfg where "cfg = \<lparr>signing_key = sk, mldsa_sk = msk, cek = key, verifier = None, production = False\<rparr>"
  define rc0 where "rc0 = new_krs_cache krs_default_cap"
  obtain prt where prt: "tw_bind w ''127.0.0.1'' 0 = Inr prt" using assms(1) by (auto simp: world_ok_def is_ok_iff)
  have cfg: "\<not> production cfg" "signing_key cfg = sk" "mldsa_sk cfg = msk" "cek cfg = key" by (simp_all add: cfg_def)
  have "test_certs w = Inr (test_leaf w ''localhost'' True 1, ?fs)" "oqs_import ?c = Inr ()"
    using assms(1) test_certs_eq by (simp_all add: world_ok_def crypto_ok_def mldsa_correct_def)
  moreover have "serve (tw_pki w) ?fs (tw_bind w) cfg ''127.0.0.1'' 0 (path_join (tw_tmp w) ''localhost.pem'')
      (path_join (tw_tmp w) ''localhost.key'') (path_join (tw_tmp w) ''ca.pem'') = Inr (test_httpd w cfg prt)"
    using assms(1) test_contexts(1) [of w] prt by (simp add: serve_def test_httpd_def world_ok_def)
  moreover have "sha256 (at_nonce a1) \<notin> krs_seen rc0" by (simp add: rc0_def new_krs_cache_def)
  then have "fst (drive w ?fs (test_httpd w cfg prt) ?f ?pk ?pq a1 rc0) = Inr (key, dev_measurement)"
    using drive_served [OF assms(1,2) cfg(1) _ assms(7,8)] cfg by simp
  moreover have "must_refuse (fst (drive w ?fs (test_httpd w cfg prt) ?f (ed25519_public ?c wrong_sk) ?pq a3 rc)) k = k" for rc k
    using assms(10) cfg by (intro must_refuse_error drive_wrong_key [OF assms(1,4)]) simp
  moreover have "must_refuse (fst (drive w ?fs (test_httpd w cfg prt) ?f ?pk (oqs_sig_public ?c wrong_msk) a4 rc)) k = k" for rc k
    using assms(11) cfg by (intro must_refuse_error drive_wrong_key [OF assms(1,5)]) simp
  moreover have "must_refuse (fst (drive w ?fs (test_httpd w cfg prt) (concat (replicate 32 ''00'')) ?pk ?pq a2 rc)) k = k" for rc k
    by (intro must_refuse_error exI, rule drive_wrong_fpr [OF assms(1,3,9)])
  ultimately show ?thesis
    using assms(6)
    by (simp add: selftest_def KrsConfig_def sig_generate_def case_prod_unfold Let_def cfg_def [symmetric] rc0_def [symmetric])
qed

definition sample_attempt :: "byte \<Rightarrow> attempt" where
  "sample_attempt b = \<lparr>at_nonce = replicate 32 b, at_x = [5], at_kem = [6], at_krs = sample_draws, at_now = 60\<rparr>"

text \<open>A certificate is a name; the server's is the one whose digest is the published vector.\<close>

definition swap_name :: "string \<Rightarrow> string" where
  "swap_name s = (if s = ''localhost'' then ''abc'' else if s = ''abc'' then ''localhost'' else s)"

definition sample_pki_abc :: pki where
  "sample_pki_abc = sample_pki\<lparr>cert_sign := (\<lambda>b k. encode (swap_name (common_name (cs_subject b)))),
     cert_subject := (\<lambda>d. Name (swap_name (utf8_decode d)))\<rparr>"

lemma sample_pki_abc_correct: "pki_correct sample_pki_abc"
  by (auto simp: pki_correct_def sample_pki_abc_def sample_pki_def swap_name_def)
     (metis x509_name.collapse)+

definition sample_test :: test_world where
  "sample_test = \<lparr>tw_crypto = sample_crypto, tw_loads = sample_loads, tw_lib = sample_lib, tw_pieces = sample_cut,
     tw_pki = sample_pki_abc, tw_write = (\<lambda>f. Inr ()), tw_bind = (\<lambda>h p. Inr 8443), tw_tmp = ''/tmp'',
     tw_key = (\<lambda>i. [of_nat i]), tw_serial = id, tw_time = int\<rparr>"

theorem selftest_passes_witness:
  "selftest sample_test (replicate 32 9) [1] [2] [3] [4]
     (sample_attempt 1) (sample_attempt 2) (sample_attempt 3) (sample_attempt 4) = Inr 0"
proof (rule selftest_passes)
  have other: "fit 32 [3] \<noteq> fit 32 [1 :: byte]" "fit 32 [4] \<noteq> fit 32 [2 :: byte]" by (simp_all add: fit_def ljust_def)
  show "world_ok sample_test"
    by (simp add: world_ok_def sample_test_def crypto_ok_def sample_correct sample_pki_abc_correct sample_reads_dumps sample_delivers library_ok_def
        sample_lib_def is_ok_def)
  have leaf: "test_leaf sample_test ''localhost'' True 1 = encode ''abc''"
    by (simp add: test_leaf_def sample_test_def sample_pki_abc_def leaf_spec_def swap_name_def)
  show "sha256_hex (test_leaf sample_test ''localhost'' True 1) \<noteq> concat (replicate 32 ''00'')"
    unfolding leaf sha256_abc by (simp add: numeral_eq_Suc)
  fix m
  show "ed25519_verify (tw_crypto sample_test) (ed25519_public (tw_crypto sample_test) [3]) (ed25519_sign (tw_crypto sample_test) [1] m) m \<noteq> Inr ()"
    using other by (simp add: sample_test_def sample_crypto_def)
  show "oqs_verify (tw_crypto sample_test) m s (oqs_sig_public (tw_crypto sample_test) [4]) = Inr False"
    if "oqs_sign (tw_crypto sample_test) [2] m = Inr s" for s
    using that other by (auto simp: sample_test_def sample_crypto_def)
qed (simp_all add: sample_attempt_def attempt_ok_def certs_valid_def one_day_def sample_test_def sample_draws_def sample_mlkem)

end
