(* ===== verification/Krs_Threads.thy ===== *)
theory Krs_Threads
  imports Krs_Client
begin

text \<open>
  The threads of the server: \<^verbatim>\<open>ThreadingHTTPServer\<close> runs \<^verbatim>\<open>do_POST\<close> of \<^verbatim>\<open>src/src/krs_server.py\<close> for
  several requests at once. A request passes through the phases of the handler; only
  \<^verbatim>\<open>cfg.replay.fresh\<close> touches shared state, in one step because it holds the lock of the cache. The
  ghost field \<open>kt_order\<close> records the requests in the order in which they were decided. The main
  result is that this order explains every answer: the threads behave like a server that handles
  one request after the other.
\<close>

section \<open>The threads as a step relation\<close>

type_synonym krs_fields = "bytes \<times> bytes \<times> bytes \<times> bytes"

datatype phase =
    Received krs_draws http_request
  | Parsed krs_draws http_request krs_fields
  | Admitted krs_draws http_request krs_fields
  | Answered krs_draws http_request http_response

record krs_threads =
  kt_cache :: krs_cache
  kt_phase :: "nat \<rightharpoonup> phase"
  kt_order :: "(nat \<times> krs_draws \<times> http_request) list"

definition threads_start :: "krs_cache \<Rightarrow> krs_threads" where
  "threads_start rc = \<lparr>kt_cache = rc, kt_phase = Map.empty, kt_order = []\<rparr>"

text \<open>Request \<open>t\<close> moves to phase \<open>p\<close>; if this decides it, it takes its place in the order.\<close>

definition moved :: "nat \<Rightarrow> phase \<Rightarrow> krs_threads \<Rightarrow> krs_threads" where
  "moved t p s = s\<lparr>kt_phase := (kt_phase s)(t \<mapsto> p)\<rparr>"

definition decided :: "nat \<Rightarrow> krs_draws \<Rightarrow> http_request \<Rightarrow> krs_threads \<Rightarrow> krs_threads" where
  "decided t dr rq s = s\<lparr>kt_order := kt_order s @ [(t, dr, rq)]\<rparr>"

text \<open>What the handler does with the fields once the nonce was fresh.\<close>

definition admitted_answer :: "crypto \<Rightarrow> krs_config \<Rightarrow> krs_draws \<Rightarrow> krs_fields \<Rightarrow> http_response" where
  "admitted_answer c cfg dr f =
     (case f of (report, x, k, nonce) \<Rightarrow>
        (case release_cek c cfg dr report x k nonce of
           Inl e \<Rightarrow> deny | Inr b \<Rightarrow> \<lparr>status = 200, body = b\<rparr>))"

abbreviation field_nonce :: "krs_fields \<Rightarrow> bytes" where
  "field_nonce f \<equiv> snd (snd (snd f))"

inductive thread_step :: "crypto \<Rightarrow> krs_config \<Rightarrow> krs_threads \<Rightarrow> krs_threads \<Rightarrow> bool"
  for c :: crypto and cfg :: krs_config where
  arrive: "kt_phase s t = None \<Longrightarrow> thread_step c cfg s (moved t (Received dr rq) s)"
| wrong_path: "kt_phase s t = Some (Received dr rq) \<Longrightarrow> path rq \<noteq> ''/verify'' \<Longrightarrow>
    thread_step c cfg s (decided t dr rq (moved t (Answered dr rq deny) s))"
| bad: "kt_phase s t = Some (Received dr rq) \<Longrightarrow> path rq = ''/verify'' \<Longrightarrow> parse_request rq = Inl e \<Longrightarrow>
    thread_step c cfg s (decided t dr rq (moved t (Answered dr rq deny) s))"
| parse: "kt_phase s t = Some (Received dr rq) \<Longrightarrow> path rq = ''/verify'' \<Longrightarrow> parse_request rq = Inr f \<Longrightarrow>
    thread_step c cfg s (moved t (Parsed dr rq f) s)"
| replay: "kt_phase s t = Some (Parsed dr rq f) \<Longrightarrow> krs_fresh (sha256 (field_nonce f)) (kt_cache s) = (False, rc) \<Longrightarrow>
    thread_step c cfg s (decided t dr rq (moved t (Answered dr rq deny) (s\<lparr>kt_cache := rc\<rparr>)))"
| admit: "kt_phase s t = Some (Parsed dr rq f) \<Longrightarrow> krs_fresh (sha256 (field_nonce f)) (kt_cache s) = (True, rc) \<Longrightarrow>
    thread_step c cfg s (decided t dr rq (moved t (Admitted dr rq f) (s\<lparr>kt_cache := rc\<rparr>)))"
| answer: "kt_phase s t = Some (Admitted dr rq f) \<Longrightarrow>
    thread_step c cfg s (moved t (Answered dr rq (admitted_answer c cfg dr f)) s)"

section \<open>The sequential server\<close>

fun serve_seq :: "crypto \<Rightarrow> krs_config \<Rightarrow> krs_cache \<Rightarrow> (krs_draws \<times> http_request) list \<Rightarrow> http_response list \<times> krs_cache" where
  "serve_seq c cfg rc [] = ([], rc)"
| "serve_seq c cfg rc ((dr, rq) # rqs) =
     (case do_POST c cfg dr rq rc of (resp, rc1) \<Rightarrow>
      case serve_seq c cfg rc1 rqs of (resps, rc2) \<Rightarrow> (resp # resps, rc2))"

lemma serve_seq_snoc:
  "fst (serve_seq c cfg rc (rqs @ [(dr, rq)])) =
     fst (serve_seq c cfg rc rqs) @ [fst (do_POST c cfg dr rq (snd (serve_seq c cfg rc rqs)))]"
  "snd (serve_seq c cfg rc (rqs @ [(dr, rq)])) = snd (do_POST c cfg dr rq (snd (serve_seq c cfg rc rqs)))"
  by (induction rqs arbitrary: rc) (auto simp: case_prod_unfold)

lemma length_serve_seq [simp]: "length (fst (serve_seq c cfg rc rqs)) = length rqs"
  by (induction c cfg rc rqs rule: serve_seq.induct) (auto split: prod.splits)

lemma do_POST_phases:
  "path rq \<noteq> ''/verify'' \<Longrightarrow> do_POST c cfg dr rq rc = (deny, rc)"
  "path rq = ''/verify'' \<Longrightarrow> parse_request rq = Inl e \<Longrightarrow> do_POST c cfg dr rq rc = (deny, rc)"
  "path rq = ''/verify'' \<Longrightarrow> parse_request rq = Inr f \<Longrightarrow> krs_fresh (sha256 (field_nonce f)) rc = (False, rc') \<Longrightarrow>
     do_POST c cfg dr rq rc = (deny, rc')"
  "path rq = ''/verify'' \<Longrightarrow> parse_request rq = Inr f \<Longrightarrow> krs_fresh (sha256 (field_nonce f)) rc = (True, rc') \<Longrightarrow>
     do_POST c cfg dr rq rc = (admitted_answer c cfg dr f, rc')"
  by (auto simp: do_POST_def admitted_answer_def split: prod.splits sum.splits)

section \<open>The order explains the answers\<close>

text \<open>The decided requests with the answers of the sequential server.\<close>

definition history :: "crypto \<Rightarrow> krs_config \<Rightarrow> krs_cache \<Rightarrow> krs_threads \<Rightarrow> ((nat \<times> krs_draws \<times> http_request) \<times> http_response) list" where
  "history c cfg rc s = zip (kt_order s) (fst (serve_seq c cfg rc (map snd (kt_order s))))"

fun phase_ok :: "crypto \<Rightarrow> krs_config \<Rightarrow> krs_cache \<Rightarrow> krs_threads \<Rightarrow> nat \<Rightarrow> phase option \<Rightarrow> bool" where
  "phase_ok c cfg rc s t None \<longleftrightarrow> t \<notin> fst ` set (kt_order s)"
| "phase_ok c cfg rc s t (Some (Received dr rq)) \<longleftrightarrow> t \<notin> fst ` set (kt_order s)"
| "phase_ok c cfg rc s t (Some (Parsed dr rq f)) \<longleftrightarrow>
     t \<notin> fst ` set (kt_order s) \<and> path rq = ''/verify'' \<and> parse_request rq = Inr f"
| "phase_ok c cfg rc s t (Some (Admitted dr rq f)) \<longleftrightarrow>
     ((t, dr, rq), admitted_answer c cfg dr f) \<in> set (history c cfg rc s)"
| "phase_ok c cfg rc s t (Some (Answered dr rq resp)) \<longleftrightarrow> ((t, dr, rq), resp) \<in> set (history c cfg rc s)"

definition threads_inv :: "crypto \<Rightarrow> krs_config \<Rightarrow> krs_cache \<Rightarrow> krs_threads \<Rightarrow> bool" where
  "threads_inv c cfg rc s \<longleftrightarrow>
     kt_cache s = snd (serve_seq c cfg rc (map snd (kt_order s))) \<and> distinct (map fst (kt_order s))
     \<and> (\<forall>t. phase_ok c cfg rc s t (kt_phase s t))"

lemma threads_inv_start: "threads_inv c cfg rc (threads_start rc)"
  by (simp add: threads_inv_def threads_start_def)

lemma phase_ok_same_order:
  "kt_order s' = kt_order s \<Longrightarrow> phase_ok c cfg rc s' t p = phase_ok c cfg rc s t p"
  by (cases "(c, cfg, rc, s', t, p)" rule: phase_ok.cases) (simp_all add: history_def)

text \<open>A step of \<open>t\<close> that does not decide keeps the invariant if the new phase is right.\<close>

lemma inv_moved:
  assumes "threads_inv c cfg rc s" "phase_ok c cfg rc s t (Some p)"
  shows "threads_inv c cfg rc (moved t p s)"
  using assms phase_ok_same_order [of "moved t p s" s]
  by (simp add: threads_inv_def moved_def)

lemma history_decided:
  assumes "threads_inv c cfg rc s" "do_POST c cfg dr rq (kt_cache s) = (resp, rc')" "kt_order s' = kt_order s @ [(t, dr, rq)]"
  shows "history c cfg rc s' = history c cfg rc s @ [((t, dr, rq), resp)]"
    and "snd (serve_seq c cfg rc (map snd (kt_order s'))) = rc'"
  using assms by (simp_all add: history_def threads_inv_def serve_seq_snoc)

text \<open>A deciding step: it agrees with the handler run at once on the current cache.\<close>

lemma inv_decided:
  assumes inv: "threads_inv c cfg rc s" and post: "do_POST c cfg dr rq (kt_cache s) = (resp, rc')"
    and new: "t \<notin> fst ` set (kt_order s)"
    and p: "p = Answered dr rq resp \<or> (\<exists>f. p = Admitted dr rq f \<and> resp = admitted_answer c cfg dr f)"
  shows "threads_inv c cfg rc (decided t dr rq (moved t p (s\<lparr>kt_cache := rc'\<rparr>)))" (is "threads_inv c cfg rc ?s")
proof -
  have o: "kt_order ?s = kt_order s @ [(t, dr, rq)]" by (simp add: decided_def moved_def)
  note h = history_decided [OF inv post o]
  have "phase_ok c cfg rc ?s u (kt_phase ?s u)" for u
  proof (cases "u = t")
    case True
    then show ?thesis using p h(1) by (auto simp: decided_def moved_def)
  next
    case False
    then have "kt_phase ?s u = kt_phase s u" by (simp add: decided_def moved_def)
    moreover have "phase_ok c cfg rc s u (kt_phase s u)" using inv by (simp add: threads_inv_def)
    ultimately show ?thesis using False h(1) o
      by (cases "(c, cfg, rc, s, u, kt_phase s u)" rule: phase_ok.cases) auto
  qed
  moreover have "distinct (map fst (kt_order ?s))" using inv new o by (auto simp: threads_inv_def)
  moreover have "kt_cache ?s = rc'" by (simp add: decided_def moved_def)
  ultimately show ?thesis using h(2) by (simp add: threads_inv_def)
qed

lemma threads_inv_step:
  assumes "thread_step c cfg s s'" "threads_inv c cfg rc s" shows "threads_inv c cfg rc s'"
proof -
  have ok: "phase_ok c cfg rc s t (kt_phase s t)" for t using assms(2) by (simp add: threads_inv_def)
  have same: "s\<lparr>kt_cache := kt_cache s\<rparr> = s" by simp
  from assms(1) show ?thesis
  proof cases
    case (arrive t dr rq)
    then show ?thesis using ok [of t] assms(2) by (auto intro: inv_moved)
  next
    case (wrong_path t dr rq)
    then show ?thesis
      using inv_decided [OF assms(2) do_POST_phases(1), of rq t "Answered dr rq deny" dr] ok [of t] by simp
  next
    case (bad t dr rq e)
    then show ?thesis
      using inv_decided [OF assms(2) do_POST_phases(2), of rq e t "Answered dr rq deny" dr] ok [of t] by simp
  next
    case (parse t dr rq f)
    then show ?thesis using ok [of t] assms(2) by (auto intro: inv_moved)
  next
    case (replay t dr rq f rc')
    then show ?thesis
      using inv_decided [OF assms(2) do_POST_phases(3), of rq f rc' t "Answered dr rq deny" dr] ok [of t] by simp
  next
    case (admit t dr rq f rc')
    then show ?thesis
      using inv_decided [OF assms(2) do_POST_phases(4), of rq f rc' t "Admitted dr rq f" dr] ok [of t] by simp
  next
    case (answer t dr rq f)
    then show ?thesis using ok [of t] assms(2) by (auto intro: inv_moved)
  qed
qed

lemma threads_inv_reach:
  assumes "(thread_step c cfg)\<^sup>*\<^sup>* (threads_start rc) s" shows "threads_inv c cfg rc s"
  using assms by (induction rule: rtranclp_induct) (auto intro: threads_inv_start threads_inv_step)

lemma answered_placed:
  assumes "threads_inv c cfg rc s" "kt_phase s t = Some (Answered dr rq resp)"
  shows "\<exists>i < length (kt_order s). kt_order s ! i = (t, dr, rq) \<and> fst (serve_seq c cfg rc (map snd (kt_order s))) ! i = resp"
proof -
  have "phase_ok c cfg rc s t (kt_phase s t)" using assms(1) by (simp add: threads_inv_def)
  then have "((t, dr, rq), resp) \<in> set (history c cfg rc s)" using assms(2) by simp
  then show ?thesis by (auto simp: history_def set_zip)
qed

lemma order_extends:
  assumes "(thread_step c cfg)\<^sup>*\<^sup>* s s'" shows "\<exists>later. kt_order s' = kt_order s @ later"
  using assms
proof (induction rule: rtranclp_induct)
  case (step s1 s2)
  then show ?case by (auto simp: moved_def decided_def elim!: thread_step.cases)
qed simp

section \<open>No nonce twice\<close>

lemma distinct_concat_disjoint:
  assumes "distinct (concat xss)" "i < length xss" "j < length xss" "i \<noteq> j" "x \<in> set (xss ! i)"
  shows "x \<notin> set (xss ! j)"
proof -
  have less: "x \<notin> set (xss ! k)" if "x \<in> set (xss ! m)" "m < k" "k < length xss" "distinct (concat xss)" for x k m
  proof -
    have "xss = take k xss @ xss ! k # drop (Suc k) xss" using that by (simp add: id_take_nth_drop)
    then have "distinct (concat (take k xss) @ xss ! k)" using that(4)
      by (metis concat.simps(2) concat_append distinct_append append.assoc)
    moreover have "xss ! m \<in> set (take k xss)" using that nth_mem [of m "take k xss"] by simp
    then have "x \<in> set (concat (take k xss))" using that(1) by auto
    ultimately show ?thesis by auto
  qed
  show ?thesis using less [of x i j] less [of x j i] assms by (meson linorder_neq_iff)
qed

definition released_nonce :: "(krs_draws \<times> http_request) \<times> http_response \<Rightarrow> bytes list" where
  "released_nonce h = (if status (snd h) = 200
     then (case parse_request (snd (fst h)) of Inl e \<Rightarrow> [] | Inr f \<Rightarrow> [field_nonce f]) else [])"

lemma released_serve_seq:
  "released c cfg rc rqs = concat (map released_nonce (zip rqs (fst (serve_seq c cfg rc rqs))))"
  by (induction rqs arbitrary: rc)
     (auto simp: released_nonce_def case_prod_unfold split: sum.splits)

section \<open>Properties\<close>

text \<open>
  C8. The threaded server is linearizable: there is an order of the decided requests, extended but
  never changed by later steps, in which a server that handles one request after the other gives
  every answer that a thread has given and ends with the same replay cache. A request that arrives
  after another was answered comes after it in the order.
\<close>

theorem threads_linearizable:
  assumes "(thread_step c cfg)\<^sup>*\<^sup>* (threads_start rc) s" "(thread_step c cfg)\<^sup>*\<^sup>* s s'"
  shows "\<exists>later. kt_order s' = kt_order s @ later \<and> distinct (map fst (kt_order s'))
    \<and> kt_cache s' = snd (serve_seq c cfg rc (map snd (kt_order s')))
    \<and> (\<forall>t dr rq resp. kt_phase s' t = Some (Answered dr rq resp) \<longrightarrow>
         (\<exists>i < length (kt_order s'). kt_order s' ! i = (t, dr, rq) \<and> fst (serve_seq c cfg rc (map snd (kt_order s'))) ! i = resp))
    \<and> (\<forall>t. kt_phase s t = None \<longrightarrow> t \<notin> fst ` set (kt_order s))"
proof -
  obtain later where l: "kt_order s' = kt_order s @ later" using order_extends [OF assms(2)] by blast
  have "(thread_step c cfg)\<^sup>*\<^sup>* (threads_start rc) s'" using assms by (rule rtranclp_trans)
  then have i': "threads_inv c cfg rc s'" by (rule threads_inv_reach)
  have "t \<notin> fst ` set (kt_order s)" if "kt_phase s t = None" for t
  proof -
    have "phase_ok c cfg rc s t (kt_phase s t)" using threads_inv_reach [OF assms(1)] by (simp add: threads_inv_def)
    then show ?thesis using that by simp
  qed
  then show ?thesis using l i' answered_placed [OF i'] unfolding threads_inv_def by blast
qed

text \<open>
  C9. However the threads of the server interleave, of two requests with the same nonce at most one is
  answered with a released key, as long as the cache has room for all decided requests.
\<close>

theorem threads_no_double_release:
  assumes "(thread_step c cfg)\<^sup>*\<^sup>* (threads_start rc) s" "krs_cache_inv rc"
    and "card (krs_seen rc) + length (kt_order s) \<le> krs_cap rc" "t \<noteq> u"
    and "kt_phase s t = Some (Answered dr rq resp)" "kt_phase s u = Some (Answered dr' rq' resp')"
    and "parse_request rq = Inr f" "parse_request rq' = Inr f'" "field_nonce f = field_nonce f'"
  shows "status resp \<noteq> 200 \<or> status resp' \<noteq> 200"
proof -
  let ?rqs = "map snd (kt_order s)"
  let ?as = "fst (serve_seq c cfg rc ?rqs)"
  note placed = answered_placed [OF threads_inv_reach [OF assms(1)]]
  obtain i where i: "i < length (kt_order s)" "kt_order s ! i = (t, dr, rq)" "?as ! i = resp"
    using placed [OF assms(5)] by auto
  obtain j where j: "j < length (kt_order s)" "kt_order s ! j = (u, dr', rq')" "?as ! j = resp'"
    using placed [OF assms(6)] by auto
  have "i \<noteq> j" using i(2) j(2) assms(4) by auto
  have "distinct (concat (map released_nonce (zip ?rqs ?as)))"
    using krs_no_double_release [OF assms(2), of ?rqs c cfg] assms(3) by (simp add: released_serve_seq)
  then have disjoint: "field_nonce f \<notin> set (released_nonce (?rqs ! j, ?as ! j))" if "field_nonce f \<in> set (released_nonce (?rqs ! i, ?as ! i))"
    using distinct_concat_disjoint [of "map released_nonce (zip ?rqs ?as)" i j "field_nonce f"] i(1) j(1) \<open>i \<noteq> j\<close> that by simp
  have "field_nonce f \<in> set (released_nonce (?rqs ! i, ?as ! i))" if "status resp = 200"
    using i assms(7) that by (simp add: released_nonce_def)
  moreover have "field_nonce f \<in> set (released_nonce (?rqs ! j, ?as ! j))" if "status resp' = 200"
    using j assms(8,9) that by (simp add: released_nonce_def)
  ultimately show ?thesis using disjoint by blast
qed

text \<open>Two threads with the same request, both past the parsing when the first takes the lock.\<close>

lemma nonce_race:
  assumes "path rq = ''/verify''" "parse_request rq = Inr f"
    and "krs_fresh (sha256 (field_nonce f)) rc = (True, rc1)" "krs_fresh (sha256 (field_nonce f)) rc1 = (False, rc2)"
  shows "\<exists>s. (thread_step c cfg)\<^sup>*\<^sup>* (threads_start rc) s \<and> kt_phase s 0 = Some (Answered dr rq deny)
    \<and> kt_phase s 1 = Some (Answered dr rq (admitted_answer c cfg dr f)) \<and> length (kt_order s) = 2"
proof -
  let ?s0 = "threads_start rc"
  let ?s1 = "moved 0 (Received dr rq) ?s0"
  let ?s2 = "moved 1 (Received dr rq) ?s1"
  let ?s3 = "moved 0 (Parsed dr rq f) ?s2"
  let ?s4 = "moved 1 (Parsed dr rq f) ?s3"
  let ?s5 = "decided 1 dr rq (moved 1 (Admitted dr rq f) (?s4\<lparr>kt_cache := rc1\<rparr>))"
  let ?s6 = "decided 0 dr rq (moved 0 (Answered dr rq deny) (?s5\<lparr>kt_cache := rc2\<rparr>))"
  let ?s7 = "moved 1 (Answered dr rq (admitted_answer c cfg dr f)) ?s6"
  note defs = threads_start_def moved_def decided_def
  have "thread_step c cfg ?s0 ?s1" by (rule arrive) (simp add: defs)
  moreover have "thread_step c cfg ?s1 ?s2" by (rule arrive) (simp add: defs)
  moreover have "thread_step c cfg ?s2 ?s3" using assms by (intro parse) (simp_all add: defs)
  moreover have "thread_step c cfg ?s3 ?s4" using assms by (intro parse) (simp_all add: defs)
  moreover have "thread_step c cfg ?s4 ?s5" using assms by (intro admit) (simp_all add: defs)
  moreover have "thread_step c cfg ?s5 ?s6" using assms by (intro replay) (simp_all add: defs)
  moreover have "thread_step c cfg ?s6 ?s7" by (rule answer) (simp add: defs)
  ultimately have "(thread_step c cfg)\<^sup>*\<^sup>* ?s0 ?s7" by (meson rtranclp.rtrancl_refl rtranclp.rtrancl_into_rtrancl)
  then show ?thesis by (intro exI [of _ ?s7]) (simp add: defs)
qed

lemma sample_race:
  "\<exists>s resp. (thread_step sample_crypto sample_cfg)\<^sup>*\<^sup>* (threads_start (new_krs_cache 10)) s
    \<and> kt_phase s 0 = Some (Answered sample_draws sample_request deny)
    \<and> kt_phase s 1 = Some (Answered sample_draws sample_request resp) \<and> length (kt_order s) = 2"
proof -
  obtain f where f: "parse_request sample_request = Inr f"
    using parse_post_request [OF sample_reads_dumps, of "fit 32 [5]" "replicate 32 8"] by simp
  let ?h = "sha256 (field_nonce f)"
  have "fst (krs_fresh ?h (new_krs_cache 10))" using krsg.accept_iff by (simp add: new_krs_cache_def)
  then obtain rc1 where rc1: "krs_fresh ?h (new_krs_cache 10) = (True, rc1)" by (metis prod.collapse)
  then have "\<not> fst (krs_fresh ?h rc1)" using krsg.immediate_replay_refused [of ?h "new_krs_cache 10"] by simp
  then obtain rc2 where "krs_fresh ?h rc1 = (False, rc2)" by (metis prod.collapse)
  then show ?thesis using nonce_race [OF _ f rc1] path_post_request by blast
qed

theorem threads_linearizable_witness:
  "\<exists>s later. (thread_step sample_crypto sample_cfg)\<^sup>*\<^sup>* (threads_start (new_krs_cache 10)) s \<and> kt_order s = later \<and> length later = 2
    \<and> kt_cache s = snd (serve_seq sample_crypto sample_cfg (new_krs_cache 10) (map snd later))"
proof -
  obtain s where s: "(thread_step sample_crypto sample_cfg)\<^sup>*\<^sup>* (threads_start (new_krs_cache 10)) s" "length (kt_order s) = 2"
    using sample_race by blast
  then show ?thesis using threads_linearizable [OF rtranclp.rtrancl_refl s(1)] by blast
qed

theorem threads_no_double_release_witness:
  "\<exists>s resp. (thread_step sample_crypto sample_cfg)\<^sup>*\<^sup>* (threads_start (new_krs_cache 10)) s
    \<and> kt_phase s 1 = Some (Answered sample_draws sample_request resp) \<and> (status deny \<noteq> 200 \<or> status resp \<noteq> 200)"
proof -
  obtain s resp where s: "(thread_step sample_crypto sample_cfg)\<^sup>*\<^sup>* (threads_start (new_krs_cache 10)) s"
      "kt_phase s 0 = Some (Answered sample_draws sample_request deny)"
      "kt_phase s 1 = Some (Answered sample_draws sample_request resp)" "length (kt_order s) = 2"
    using sample_race by blast
  have "krs_cache_inv (new_krs_cache 10)" "card (krs_seen (new_krs_cache 10)) + length (kt_order s) \<le> krs_cap (new_krs_cache 10)"
    using s(4) by (simp_all add: krs_cache_inv_def new_krs_cache_def)
  moreover obtain f where "parse_request sample_request = Inr f"
    using parse_post_request [OF sample_reads_dumps, of "fit 32 [5]" "replicate 32 8"] by simp
  ultimately show ?thesis using threads_no_double_release [OF s(1) _ _ _ s(2,3)] s(1,3) by fastforce
qed

end
