(* ===== verification/Pqc_Objects.thy ===== *)
theory Pqc_Objects
  imports Pqc Effects
begin

text \<open>
  The native objects behind \<^verbatim>\<open>src/src/pqc.py\<close>. Every function of the module constructs an object of the
  \<^verbatim>\<open>oqs\<close> library, uses it in a \<^verbatim>\<open>try\<close> and frees it in the \<^verbatim>\<open>finally\<close>, where an exception of \<^verbatim>\<open>free\<close> is
  dropped; \<^verbatim>\<open>KemPrivate\<close> keeps its object until \<^verbatim>\<open>free\<close>. The state is the set of objects that the
  library has handed out and not taken back, with the secret key each of them holds. The functions of
  \<open>Pqc\<close>, which the rest of the development uses, are the values of the ones here; the theorems say so,
  and say which objects are left.
\<close>

section \<open>The library's objects\<close>

text \<open>An object is of one of two classes and holds a secret key or none.\<close>

datatype oqs_object = KeyEncapsulation "bytes option" | Signature "bytes option"

record oqs_objects =
  next_handle :: nat
  live :: "nat \<rightharpoonup> oqs_object"

text \<open>
  What the library answers: to a construction for an algorithm, to \<^verbatim>\<open>generate_keypair\<close> (the keys
  themselves are in the record \<open>crypto\<close>), to \<^verbatim>\<open>free\<close>, and to \<^verbatim>\<open>decap_secret\<close> on an object that has been
  freed or has no secret key.
\<close>

record oqs_native =
  on_new :: "string \<Rightarrow> unit res"
  on_keypair :: "nat \<Rightarrow> unit res"
  on_free :: "nat \<Rightarrow> unit res"
  on_no_key :: "bytes \<Rightarrow> bytes res"

definition KEM_ALG :: string where "KEM_ALG = ''ML-KEM-768''"

definition SIG_ALG :: string where "SIG_ALG = ''ML-DSA-65''"

definition new_object :: "oqs_native \<Rightarrow> string \<Rightarrow> oqs_object \<Rightarrow> (oqs_objects, nat) st" where
  "new_object n alg obj =
     bind_st (lift_res (on_new n alg)) (\<lambda>_ s.
       (Inr (next_handle s), s\<lparr>next_handle := Suc (next_handle s), live := (live s)(next_handle s \<mapsto> obj)\<rparr>))"

definition generate_keypair :: "oqs_native \<Rightarrow> nat \<Rightarrow> oqs_object \<Rightarrow> (oqs_objects, unit) st" where
  "generate_keypair n h obj =
     bind_st (lift_res (on_keypair n h)) (\<lambda>_. update_st (\<lambda>s. s\<lparr>live := (live s)(h \<mapsto> obj)\<rparr>))"

text \<open>\<^verbatim>\<open>try: obj.free() except Exception: pass\<close>.\<close>

definition free_quietly :: "oqs_native \<Rightarrow> nat \<Rightarrow> oqs_objects \<Rightarrow> oqs_objects" where
  "free_quietly n h s = (case on_free n h of Inl e \<Rightarrow> s | Inr u \<Rightarrow> s\<lparr>live := (live s)(h := None)\<rparr>)"

section \<open>The module's functions\<close>

definition kem_encap_run :: "crypto \<Rightarrow> oqs_native \<Rightarrow> bytes \<Rightarrow> bytes \<Rightarrow> (oqs_objects, bytes \<times> bytes) st" where
  "kem_encap_run c n coins peer_public =
     bind_st (lift_res (oqs_import c)) (\<lambda>_.
     bind_st (new_object n KEM_ALG (KeyEncapsulation None)) (\<lambda>kem.
     finally_st (lift_res (oqs_encap c coins peer_public)) (free_quietly n kem)))"

definition sig_generate_run :: "crypto \<Rightarrow> oqs_native \<Rightarrow> bytes \<Rightarrow> (oqs_objects, bytes \<times> bytes) st" where
  "sig_generate_run c n sk =
     bind_st (lift_res (oqs_import c)) (\<lambda>_.
     bind_st (new_object n SIG_ALG (Signature None)) (\<lambda>sig.
     finally_st (bind_st (generate_keypair n sig (Signature (Some sk))) (\<lambda>_. lift_res (Inr (oqs_sig_public c sk, sk))))
       (free_quietly n sig)))"

definition sig_sign_run :: "crypto \<Rightarrow> oqs_native \<Rightarrow> bytes \<Rightarrow> bytes \<Rightarrow> (oqs_objects, bytes) st" where
  "sig_sign_run c n secret_key message =
     bind_st (lift_res (oqs_import c)) (\<lambda>_.
     bind_st (new_object n SIG_ALG (Signature (Some secret_key))) (\<lambda>sig.
     finally_st (lift_res (oqs_sign c secret_key message)) (free_quietly n sig)))"

definition sig_verify_run :: "crypto \<Rightarrow> oqs_native \<Rightarrow> bytes \<Rightarrow> bytes \<Rightarrow> bytes \<Rightarrow> (oqs_objects, bool) st" where
  "sig_verify_run c n public_key message signature =
     bind_st (lift_res (oqs_import c)) (\<lambda>_.
     bind_st (new_object n SIG_ALG (Signature None)) (\<lambda>sig.
     finally_st (lift_res (oqs_verify c message signature public_key)) (free_quietly n sig)))"

section \<open>The class KemPrivate\<close>

record kem_private =
  kem_handle :: nat
  kem_public :: bytes

text \<open>\<^verbatim>\<open>__init__\<close>, with the secret key that \<^verbatim>\<open>generate_keypair\<close> draws.\<close>

definition KemPrivate :: "crypto \<Rightarrow> oqs_native \<Rightarrow> bytes \<Rightarrow> (oqs_objects, kem_private) st" where
  "KemPrivate c n sk =
     bind_st (lift_res (oqs_import c)) (\<lambda>_.
     bind_st (new_object n KEM_ALG (KeyEncapsulation None)) (\<lambda>kem.
     bind_st (generate_keypair n kem (KeyEncapsulation (Some sk))) (\<lambda>_.
     lift_res (Inr \<lparr>kem_handle = kem, kem_public = oqs_kem_public c sk\<rparr>))))"

definition kem_private_decap :: "crypto \<Rightarrow> oqs_native \<Rightarrow> kem_private \<Rightarrow> bytes \<Rightarrow> (oqs_objects, bytes) st" where
  "kem_private_decap c n k ciphertext s =
     (case live s (kem_handle k) of
        Some (KeyEncapsulation (Some sk)) \<Rightarrow> (oqs_decap c sk ciphertext, s)
      | _ \<Rightarrow> (on_no_key n ciphertext, s))"

definition kem_private_free :: "oqs_native \<Rightarrow> kem_private \<Rightarrow> oqs_objects \<Rightarrow> oqs_objects" where
  "kem_private_free n k = free_quietly n (kem_handle k)"

section \<open>Sequences of calls\<close>

datatype pqc_call =
  Encap bytes bytes
| Generate bytes
| Sign bytes bytes
| Verify bytes bytes bytes

datatype pqc_value = Pair_of "bytes \<times> bytes" | Bytes_of bytes | Bool_of bool

definition map_st :: "('a \<Rightarrow> 'b) \<Rightarrow> ('s, 'a) st \<Rightarrow> ('s, 'b) st" where
  "map_st f m = bind_st m (\<lambda>x. lift_res (Inr (f x)))"

fun call_run :: "crypto \<Rightarrow> oqs_native \<Rightarrow> pqc_call \<Rightarrow> (oqs_objects, pqc_value) st" where
  "call_run c n (Encap coins pk) = map_st Pair_of (kem_encap_run c n coins pk)"
| "call_run c n (Generate sk) = map_st Pair_of (sig_generate_run c n sk)"
| "call_run c n (Sign sk msg) = map_st Bytes_of (sig_sign_run c n sk msg)"
| "call_run c n (Verify pk msg sig) = map_st Bool_of (sig_verify_run c n pk msg sig)"

text \<open>The same calls as values.\<close>

fun call_value :: "crypto \<Rightarrow> pqc_call \<Rightarrow> pqc_value res" where
  "call_value c (Encap coins pk) = bind_res (kem_encap c coins pk) (\<lambda>x. Inr (Pair_of x))"
| "call_value c (Generate sk) = bind_res (sig_generate c sk) (\<lambda>x. Inr (Pair_of x))"
| "call_value c (Sign sk msg) = bind_res (sig_sign c sk msg) (\<lambda>x. Inr (Bytes_of x))"
| "call_value c (Verify pk msg sig) = bind_res (sig_verify c pk msg sig) (\<lambda>x. Inr (Bool_of x))"

text \<open>A program that makes calls one after the other and goes on when one raises.\<close>

fun calls_run :: "crypto \<Rightarrow> oqs_native \<Rightarrow> pqc_call list \<Rightarrow> oqs_objects \<Rightarrow> pqc_value res list \<times> oqs_objects" where
  "calls_run c n [] s = ([], s)"
| "calls_run c n (call # calls) s =
     (case call_run c n call s of (r, s1) \<Rightarrow>
      case calls_run c n calls s1 of (rs, s2) \<Rightarrow> (r # rs, s2))"

section \<open>Lemmas\<close>

text \<open>Handles that were not given out yet are not live.\<close>

definition objects_wf :: "oqs_objects \<Rightarrow> bool" where
  "objects_wf s \<longleftrightarrow> (\<forall>h\<ge>next_handle s. live s h = None)"

text \<open>The library constructs, and takes back what it is given.\<close>

definition constructs :: "oqs_native \<Rightarrow> bool" where
  "constructs n \<longleftrightarrow> (\<forall>alg. on_new n alg = Inr ()) \<and> (\<forall>h. on_keypair n h = Inr ())"

definition takes_back :: "oqs_native \<Rightarrow> bool" where
  "takes_back n \<longleftrightarrow> (\<forall>h. on_free n h = Inr ())"

lemma map_st_simps [simp]:
  "fst (map_st f m s) = bind_res (fst (m s)) (\<lambda>x. Inr (f x))"
  "snd (map_st f m s) = snd (m s)"
  by (simp_all add: map_st_def fst_bind_st snd_bind_st bind_res_def split: sum.split)

lemmas run_defs = kem_encap_run_def sig_generate_run_def sig_sign_run_def sig_verify_run_def

lemmas value_defs = kem_encap_def sig_generate_def sig_sign_def sig_verify_def

text \<open>An object that lives in a \<^verbatim>\<open>try\<close> only is gone afterwards, whatever the body does.\<close>

lemma with_object_live:
  assumes "takes_back n" "objects_wf s"
    and "\<And>h s1. s1 = s\<lparr>next_handle := Suc h, live := (live s)(h \<mapsto> obj)\<rparr> \<Longrightarrow>
      next_handle (snd (body h s1)) = Suc h \<and> (\<forall>h'. h' \<noteq> h \<longrightarrow> live (snd (body h s1)) h' = live s1 h')"
  shows "live (snd (bind_st (new_object n alg obj) (\<lambda>h. finally_st (body h) (free_quietly n h)) s)) = live s \<and>
    objects_wf (snd (bind_st (new_object n alg obj) (\<lambda>h. finally_st (body h) (free_quietly n h)) s))"
proof (cases "on_new n alg")
  case (Inl e)
  then show ?thesis using assms(2) by (simp add: new_object_def snd_bind_st fst_bind_st)
next
  case (Inr u)
  let ?h = "next_handle s"
  let ?s1 = "s\<lparr>next_handle := Suc ?h, live := (live s)(?h \<mapsto> obj)\<rparr>"
  have b: "next_handle (snd (body ?h ?s1)) = Suc ?h" "\<And>h'. h' \<noteq> ?h \<Longrightarrow> live (snd (body ?h ?s1)) h' = live s h'"
    using assms(3) [of ?s1 ?h] by simp_all
  have "live s ?h = None" using assms(2) by (simp add: objects_wf_def)
  then have l: "(live (snd (body ?h ?s1)))(?h := None) = live s" using b(2) by (auto simp: fun_eq_iff)
  then show ?thesis
    using assms(1,2) Inr b(1)
    by (simp add: new_object_def snd_bind_st fst_bind_st free_quietly_def takes_back_def objects_wf_def)
qed

lemma generate_keypair_frame:
  "next_handle (snd (generate_keypair n h obj s)) = next_handle s \<and>
   (\<forall>h'. h' \<noteq> h \<longrightarrow> live (snd (generate_keypair n h obj s)) h' = live s h')"
  by (simp add: generate_keypair_def snd_bind_st split: sum.split)

lemma call_run_live:
  assumes "takes_back n" "objects_wf s"
  shows "live (snd (call_run c n call s)) = live s \<and> objects_wf (snd (call_run c n call s))"
  by (cases call)
     (simp_all add: run_defs snd_bind_st [of "lift_res r" for r] with_object_live [OF assms] generate_keypair_frame
        snd_bind_st [of "generate_keypair n h obj" for h obj] assms(2) split: sum.split)

lemma call_run_value: "constructs n \<Longrightarrow> fst (call_run c n call s) = call_value c call"
  by (cases call)
     (simp_all add: run_defs value_defs constructs_def new_object_def generate_keypair_def fst_bind_st bind_res_def
        split: sum.split)

section \<open>Properties\<close>

text \<open>
  C30. The module's functions leave no native object behind: over any sequence of calls, failing ones
  included, and whatever the library answers, the live objects are the same afterwards, as long as
  the library takes back what it is given. Where it constructs what is asked, the results are the
  values that the rest of the development uses.
\<close>

theorem pqc_calls_refine:
  assumes "takes_back n" "objects_wf s"
  shows "live (snd (calls_run c n calls s)) = live s \<and>
    (constructs n \<longrightarrow> fst (calls_run c n calls s) = map (call_value c) calls)"
  using assms(2)
proof (induction calls arbitrary: s)
  case (Cons call calls)
  obtain r s1 where r: "call_run c n call s = (r, s1)" by fastforce
  then have "live s1 = live s" "objects_wf s1" "constructs n \<Longrightarrow> r = call_value c call"
    using call_run_live [OF assms(1) Cons.prems, of c call] call_run_value [of n c call s] by auto
  then show ?case using Cons.IH [of s1] r by (auto split: prod.split)
qed simp

definition sample_native :: oqs_native where
  "sample_native = \<lparr>on_new = (\<lambda>alg. Inr ()), on_keypair = (\<lambda>h. Inr ()), on_free = (\<lambda>h. Inr ()), on_no_key = (\<lambda>ct. Inl (RuntimeError ''no secret key''))\<rparr>"

theorem pqc_calls_refine_witness:
  "live (snd (calls_run sample_crypto sample_native [Sign [1] [2], Encap [3] [4]] \<lparr>next_handle = 0, live = Map.empty\<rparr>)) = Map.empty \<and>
   fst (calls_run sample_crypto sample_native [Sign [1] [2], Encap [3] [4]] \<lparr>next_handle = 0, live = Map.empty\<rparr>) =
     map (call_value sample_crypto) [Sign [1] [2], Encap [3] [4]]"
  using pqc_calls_refine [of sample_native "\<lparr>next_handle = 0, live = Map.empty\<rparr>" sample_crypto "[Sign [1] [2], Encap [3] [4]]"]
  by (simp add: sample_native_def takes_back_def constructs_def objects_wf_def)

text \<open>
  The life of a \<^verbatim>\<open>KemPrivate\<close>: while it is alive it decapsulates with the key it drew, and after
  \<^verbatim>\<open>free\<close>, once or more often, the library holds what it held before.
\<close>

theorem kem_private_life:
  assumes "objects_wf s" "takes_back n" "KemPrivate c n sk s = (Inr k, s1)"
  shows "kem_private_public c sk = Inr (kem_public k) \<and>
    kem_private_decap c n k ct s1 = (kem_decap c sk ct, s1) \<and>
    live (kem_private_free n k s1) = live s \<and>
    live (kem_private_free n k (kem_private_free n k s1)) = live s"
proof -
  have k: "oqs_import c = Inr ()" "k = \<lparr>kem_handle = next_handle s, kem_public = oqs_kem_public c sk\<rparr>"
      "live s1 = (live s)(next_handle s \<mapsto> KeyEncapsulation (Some sk))"
    using assms(3) by (auto simp: KemPrivate_def new_object_def generate_keypair_def bind_st_def lift_res_def
        update_st_def split: sum.splits)
  have "live s (next_handle s) = None" using assms(1) by (simp add: objects_wf_def)
  then have "(live s)(next_handle s := None) = live s" by (auto simp: fun_eq_iff)
  then show ?thesis
    using k assms(2)
    by (simp add: kem_private_public_def kem_private_decap_def kem_decap_def kem_private_free_def free_quietly_def takes_back_def)
qed

theorem kem_private_life_witness:
  "kem_private_public sample_crypto [6] = Inr (fit 32 [6]) \<and>
   live (kem_private_free sample_native \<lparr>kem_handle = 0, kem_public = fit 32 [6]\<rparr>
     \<lparr>next_handle = 1, live = [0 \<mapsto> KeyEncapsulation (Some [6])]\<rparr>) = Map.empty"
proof -
  have "KemPrivate sample_crypto sample_native [6] \<lparr>next_handle = 0, live = Map.empty\<rparr> =
      (Inr \<lparr>kem_handle = 0, kem_public = fit 32 [6]\<rparr>, \<lparr>next_handle = 1, live = [0 \<mapsto> KeyEncapsulation (Some [6])]\<rparr>)"
    by (simp add: KemPrivate_def sample_crypto_def) (simp add: new_object_def generate_keypair_def bind_st_def sample_native_def)
  from kem_private_life [OF _ _ this] show ?thesis by (simp add: objects_wf_def takes_back_def sample_native_def)
qed

text \<open>
  The constructor is not protected: when \<^verbatim>\<open>generate_keypair\<close> raises, the object it made stays in the
  library and nothing refers to it.
\<close>

theorem kem_private_constructor_leaks:
  assumes "oqs_import c = Inr ()" "on_new n KEM_ALG = Inr ()" "on_keypair n (next_handle s) = Inl e"
  shows "fst (KemPrivate c n sk s) = Inl e \<and>
    live (snd (KemPrivate c n sk s)) = (live s)(next_handle s \<mapsto> KeyEncapsulation None)"
  using assms by (simp add: KemPrivate_def new_object_def generate_keypair_def fst_bind_st snd_bind_st)

end
