(* ===== verification/Order_Intent.thy ===== *)
theory Order_Intent
  imports Json_Text Crypto
begin

text \<open>
  \<^verbatim>\<open>src/src/signed_order_intent.py\<close>, the parts the strategy side and the executor share: coarse
  size banding, the \<^verbatim>\<open>OrderIntent\<close> schema with its dictionary form, the signing key with its
  zeroization, the text that is signed, signing and signature verification.

  The first group of lemmas shows what banding computes on the floats a strategy can pass; the
  second that the dictionary form and the signed text determine the intent, and exactly when they
  do not.
\<close>

section \<open>Coarse size banding\<close>

definition POWER_OF_TWO_BANDS :: "pyfloat list" where
  "POWER_OF_TWO_BANDS = map PFin [1 / 2, 1, 2, 4, 8, 16, 32, 64, 128, 256, 512, 1024]"

text \<open>\<open>bands or POWER_OF_TWO_BANDS\<close>: no list and the empty list both mean the default.\<close>

definition bands_or_default :: "pyfloat list option \<Rightarrow> pyfloat list" where
  "bands_or_default bands =
     (case bands of None \<Rightarrow> POWER_OF_TWO_BANDS | Some bs \<Rightarrow> if bs = [] then POWER_OF_TWO_BANDS else bs)"

definition coarse_band :: "pynum \<Rightarrow> pyfloat list option \<Rightarrow> pyfloat res" where
  "coarse_band sz bands =
     (let bs = bands_or_default bands in
      if num_nonpos sz then Inr (hd bs)
      else bind_res (num_to_float sz) (\<lambda>x.
        Inr (py_min_from (\<lambda>b. fabs (fsub b x)) (hd bs) (tl bs))))"

section \<open>The intent\<close>

record order_intent =
  oi_symbol :: string
  oi_side :: int
  oi_size :: pynum
  oi_stop_price :: pynum
  oi_target_price :: pynum
  oi_timestamp :: int
  oi_intent_id :: string
  oi_public_key_hash :: string
  oi_signature :: string

definition to_dict :: "order_intent \<Rightarrow> json" where
  "to_dict i = JObj
     [(''symbol'', JStr (oi_symbol i)),
      (''side'', JInt (oi_side i)),
      (''size'', json_num (oi_size i)),
      (''stop_price'', json_num (oi_stop_price i)),
      (''target_price'', json_num (oi_target_price i)),
      (''timestamp'', JInt (oi_timestamp i)),
      (''intent_id'', JStr (oi_intent_id i)),
      (''public_key_hash'', JStr (oi_public_key_hash i)),
      (''signature'', JStr (oi_signature i))]"

definition from_dict :: "json \<Rightarrow> order_intent res" where
  "from_dict data =
     bind_res (json_getitem data ''symbol'') (\<lambda>symbol.
     bind_res (bind_res (json_getitem data ''side'') json_int) (\<lambda>side.
     bind_res (bind_res (json_getitem data ''size'') json_float) (\<lambda>sz.
     bind_res (bind_res (json_getitem data ''stop_price'') json_float) (\<lambda>stop.
     bind_res (bind_res (json_getitem data ''target_price'') json_float) (\<lambda>target.
     bind_res (bind_res (json_getitem data ''timestamp'') json_int) (\<lambda>ts.
     bind_res (json_getitem data ''intent_id'') (\<lambda>iid.
     bind_res (json_getitem data ''public_key_hash'') (\<lambda>pkh.
     bind_res (json_getitem data ''signature'') (\<lambda>sig.
       Inr \<lparr>oi_symbol = json_str symbol, oi_side = side, oi_size = PyFloat sz,
            oi_stop_price = PyFloat stop, oi_target_price = PyFloat target, oi_timestamp = ts,
            oi_intent_id = json_str iid, oi_public_key_hash = json_str pkh,
            oi_signature = json_str sig\<rparr>)))))))))"

definition to_json :: "order_intent \<Rightarrow> string" where
  "to_json i = dumps (to_dict i)"

definition from_json :: "string \<Rightarrow> order_intent res" where
  "from_json raw = bind_res (loads raw) from_dict"

section \<open>The signing key\<close>

text \<open>
  \<open>sk_private\<close> is the library's key object, \<open>sk_priv_bytes\<close> the reference to the copied seed, and
  \<open>sk_buffer\<close> the memory behind that reference, which outlives it.
\<close>

record signing_key =
  sk_private :: "bytes option"
  sk_pubkey :: bytes
  sk_priv_bytes :: bool
  sk_buffer :: bytes
  sk_pubkey_hash :: string

text \<open>The raw seed of a private key, copied into a mutable buffer.\<close>

definition extract_private_bytes :: "bytes \<Rightarrow> bytes" where
  "extract_private_bytes private_key = private_key"

definition new_signing_key :: "crypto \<Rightarrow> bytes \<Rightarrow> signing_key" where
  "new_signing_key c seed =
     \<lparr>sk_private = Some seed, sk_pubkey = ed25519_public c seed, sk_priv_bytes = True,
      sk_buffer = extract_private_bytes seed, sk_pubkey_hash = sha256_hex (ed25519_public c seed)\<rparr>"

definition public_key_hex :: "signing_key \<Rightarrow> string" where
  "public_key_hex key = hex_encode (sk_pubkey key)"

definition public_key_bytes :: "signing_key \<Rightarrow> bytes" where
  "public_key_bytes key = sk_pubkey key"

definition public_key_hash :: "signing_key \<Rightarrow> string" where
  "public_key_hash key = sk_pubkey_hash key"

definition key_sign :: "crypto \<Rightarrow> signing_key \<Rightarrow> bytes \<Rightarrow> bytes res" where
  "key_sign c key message =
     (if \<not> sk_priv_bytes key then Inl (RuntimeError ''Signing key has been zeroized - cannot sign'')
      else (case sk_private key of None \<Rightarrow> Inl AttributeError | Some seed \<Rightarrow> Inr (ed25519_sign c seed message)))"

definition zeroize_bytes :: "bytes option \<Rightarrow> bytes option" where
  "zeroize_bytes buf = map_option (\<lambda>b. replicate (length b) 0) buf"

definition key_zeroize :: "signing_key \<Rightarrow> signing_key" where
  "key_zeroize key =
     (if sk_priv_bytes key
      then key\<lparr>sk_buffer := replicate (length (sk_buffer key)) 0, sk_priv_bytes := False, sk_private := None\<rparr>
      else key)"

text \<open>\<^verbatim>\<open>__del__\<close>: zeroization raises nothing that would have to be swallowed.\<close>

definition key_del :: "signing_key \<Rightarrow> signing_key" where
  "key_del key = key_zeroize key"

definition key_inv :: "signing_key \<Rightarrow> bool" where
  "key_inv key \<longleftrightarrow>
     (case sk_private key of
        None \<Rightarrow> \<not> sk_priv_bytes key \<and> set (sk_buffer key) \<subseteq> {0}
      | Some seed \<Rightarrow> sk_priv_bytes key \<and> sk_buffer key = seed)"

section \<open>Signing and verification\<close>

text \<open>The module's list of the signed fields, which the code documents its order with.\<close>

definition SIGNING_FIELDS :: "string list" where
  "SIGNING_FIELDS = [''intent_id'', ''symbol'', ''side'', ''size'', ''stop_price'', ''target_price'', ''timestamp'', ''public_key_hash'']"

definition serialize_parts :: "order_intent \<Rightarrow> string list" where
  "serialize_parts i =
     [oi_intent_id i, oi_symbol i, int_str (oi_side i), num_str (oi_size i), num_str (oi_stop_price i),
      num_str (oi_target_price i), int_str (oi_timestamp i), oi_public_key_hash i]"

definition serialize_for_signing :: "order_intent \<Rightarrow> bytes" where
  "serialize_for_signing i = encode (join ''|'' (serialize_parts i))"

text \<open>The intent is changed in place: the result pairs its state afterwards with the outcome.\<close>

definition sign_intent :: "crypto \<Rightarrow> order_intent \<Rightarrow> signing_key \<Rightarrow> order_intent \<times> unit res" where
  "sign_intent c intent key =
     (let i = intent\<lparr>oi_public_key_hash := public_key_hash key\<rparr>
      in (case key_sign c key (serialize_for_signing i) of
            Inl e \<Rightarrow> (i, Inl e)
          | Inr s \<Rightarrow> (i\<lparr>oi_signature := hex_encode s\<rparr>, Inr ())))"

text \<open>\<^verbatim>\<open>except (InvalidSignature, ValueError, TypeError)\<close>.\<close>

fun caught_by_verify :: "exn \<Rightarrow> bool" where
  "caught_by_verify InvalidSignature = True"
| "caught_by_verify TypeError = True"
| "caught_by_verify e = is_value_error e"

definition verify_intent :: "crypto \<Rightarrow> order_intent \<Rightarrow> bytes \<Rightarrow> bool res" where
  "verify_intent c intent pk =
     (case bind_res (ed25519_load c pk) (\<lambda>pubkey.
           bind_res (fromhex (oi_signature intent)) (\<lambda>signature.
             ed25519_verify c pubkey signature (serialize_for_signing intent))) of
        Inr u \<Rightarrow> Inr True
      | Inl e \<Rightarrow> if caught_by_verify e then Inr False else Inl e)"

section \<open>Banding picks the nearest band\<close>

lemma bands_pow2: "POWER_OF_TWO_BANDS = map (\<lambda>k. PFin (pow2 k)) [-1..10]"
proof -
  have "[- 1..10 :: int] = [- 1, 0, 1, 2, 3, 4, 5, 6, 7, 8, 9, 10]" by (simp add: upto.simps)
  then show ?thesis by (simp add: POWER_OF_TWO_BANDS_def pow2_def)
qed

lemma bands_wf: "list_all float_wf POWER_OF_TWO_BANDS"
proof -
  have "is_double (pow2 k)" if "- 1 \<le> k" "k \<le> 10" for k
    using that rmag_repr [of "pow2 k" 1 k] by (simp add: is_double_def)
  then show ?thesis by (auto simp: bands_pow2 list_all_iff)
qed

lemma py_min_of_split:
  assumes "\<And>y. y \<in> set xs \<Longrightarrow> flt (f x) (f y)" "\<And>y. y \<in> set zs \<Longrightarrow> \<not> flt (f y) (f x)"
  shows "py_min_from f (hd (xs @ x # zs)) (tl (xs @ x # zs)) = x"
proof (cases xs)
  case (Cons a ys)
  then show ?thesis using assms by (auto intro!: py_min_from_split)
qed (simp add: assms(2) py_min_from_stay)

text \<open>The exponent of the band nearest to \<open>x\<close>, the lower one at the midpoint.\<close>

definition band_exp :: "rat \<Rightarrow> int" where
  "band_exp x =
     (let j = ilog2 x; k = (if x \<le> 3 / 2 * pow2 j then j else j + 1) in max (- 1) (min 10 k))"

lemma band_exp_bounds:
  assumes "0 < x"
  shows "- 1 \<le> band_exp x" "band_exp x \<le> 10"
    "- 1 < band_exp x \<Longrightarrow> 3 / 4 * pow2 (band_exp x) < x"
    "band_exp x < 10 \<Longrightarrow> x \<le> 3 / 2 * pow2 (band_exp x)"
    "band_exp x < 10 \<Longrightarrow> ilog2 x \<le> band_exp x"
proof -
  define k where "k = (if x \<le> 3 / 2 * pow2 (ilog2 x) then ilog2 x else ilog2 x + 1)"
  have b: "band_exp x = max (- 1) (min 10 k)" by (simp add: band_exp_def k_def Let_def)
  then show "- 1 \<le> band_exp x" "band_exp x \<le> 10" by simp_all
  have lo: "3 / 4 * pow2 k < x" and hi: "x \<le> 3 / 2 * pow2 k" and il: "ilog2 x \<le> k"
    using ilog2_bounds [OF assms] assms by (auto simp: k_def pow2_add)
  show "3 / 4 * pow2 (band_exp x) < x" if "- 1 < band_exp x"
  proof -
    have "pow2 (band_exp x) \<le> pow2 k" using that b by simp
    with lo show ?thesis by linarith
  qed
  show "x \<le> 3 / 2 * pow2 (band_exp x)" if "band_exp x < 10"
  proof -
    have "pow2 k \<le> pow2 (band_exp x)" using that b by simp
    with hi show ?thesis by linarith
  qed
  show "ilog2 x \<le> band_exp x" if "band_exp x < 10" using that b il by simp
qed

text \<open>A difference that is a multiple of the last place of \<open>x\<close> and not above it is exact.\<close>

lemma rmag_multiple:
  assumes "0 < x" "a = of_int n * ulp x" "0 \<le> a" "a \<le> x"
  shows "rmag a = a"
proof -
  define e where "e = max (ilog2 x) (- 1022) - 52"
  have "x < pow2 (ilog2 x + 1)" by (rule ilog2_bounds(2) [OF assms(1)])
  also have "\<dots> \<le> pow2 (e + 53)" by (simp add: e_def)
  finally show ?thesis using assms by (intro rmag_repr [of a n e]) (simp_all add: ulp_def e_def)
qed

lemma pow2_multiple: "e \<le> k \<Longrightarrow> \<exists>n. pow2 k = of_int n * pow2 e"
  using pow2_add [of "k - e" e] by (intro exI [of _ "2 ^ nat (k - e)"]) (simp add: pow2_def)

lemma band_lower:
  assumes "is_double x" "0 < x" "3 / 4 * pow2 k < x" "max (ilog2 x) (- 1022) - 52 \<le> k - 1" "b \<le> pow2 (k - 1)"
  shows "rmag \<bar>pow2 k - x\<bar> < rmag \<bar>b - x\<bar>"
proof -
  obtain n where n: "x = of_int n * ulp x" using is_doubleD assms(1,2) by blast
  obtain m where m: "pow2 (k - 1) = of_int m * ulp x" using pow2_multiple [OF assms(4)] by (auto simp: ulp_def)
  have two: "pow2 k = 2 * pow2 (k - 1)" using pow2_add [of 1 "k - 1"] by simp
  have lt: "\<bar>pow2 k - x\<bar> < x - pow2 (k - 1)" using assms(3) pow2_pos [of "k - 1"] two by linarith
  have "pow2 k - x = of_int (2 * m - n) * ulp x" using m n two by (simp add: algebra_simps)
  then have "\<bar>pow2 k - x\<bar> = of_int \<bar>2 * m - n\<bar> * ulp x" by (simp add: abs_mult less_imp_le)
  then have 1: "rmag \<bar>pow2 k - x\<bar> = \<bar>pow2 k - x\<bar>"
    using lt pow2_pos [of "k - 1"] by (intro rmag_multiple [OF assms(2), of _ "\<bar>2 * m - n\<bar>"]) linarith+
  have "x - pow2 (k - 1) = of_int (n - m) * ulp x" using m n by (simp add: algebra_simps)
  then have 2: "rmag (x - pow2 (k - 1)) = x - pow2 (k - 1)"
    using lt pow2_pos [of "k - 1"] by (intro rmag_multiple [OF assms(2), of _ "n - m"]) linarith+
  have "x - pow2 (k - 1) \<le> \<bar>b - x\<bar>" using assms(5) lt by linarith
  then have "rmag (x - pow2 (k - 1)) \<le> rmag \<bar>b - x\<bar>" using lt by (intro rmag_mono) linarith+
  with lt 1 2 show ?thesis by linarith
qed

lemma band_upper:
  assumes "x \<le> 3 / 2 * pow2 k" "0 < x" "2 * pow2 k \<le> b"
  shows "\<bar>pow2 k - x\<bar> \<le> \<bar>b - x\<bar>"
  using assms by linarith

lemma band_key:
  assumes "0 < x" "x < pow2 62" "- 1 \<le> k" "k \<le> 10"
  shows "fabs (fsub (PFin (pow2 k)) (PFin x)) = PFin (rmag \<bar>pow2 k - x\<bar>)"
proof -
  have "pow2 k \<le> pow2 62" using assms(4) by simp
  then have le: "\<bar>pow2 k - x\<bar> \<le> pow2 62" using assms pow2_pos [of k] by linarith
  have "rmag \<bar>pow2 k - x\<bar> \<le> pow2 62"
  proof (cases "pow2 k = x")
    case False
    then show ?thesis using le by (intro rmag_le_pow2) simp_all
  qed simp
  also have "\<dots> < pow2 1024" by simp
  finally show ?thesis by (simp add: fsub_fin fabs_rnd)
qed

lemma coarse_band_exp:
  assumes "is_double x" "0 < x" "x < pow2 62"
  shows "coarse_band (PyFloat (PFin x)) None = Inr (PFin (pow2 (band_exp x)))"
proof -
  define k f where "k = band_exp x" and "f = (\<lambda>b. fabs (fsub b (PFin x)))"
  note b = band_exp_bounds [OF assms(2), folded k_def]
  have key: "f (PFin (pow2 j)) = PFin (rmag \<bar>pow2 j - x\<bar>)" if "- 1 \<le> j" "j \<le> 10" for j
    using band_key [OF assms(2,3) that] by (simp add: f_def)
  have "ilog2 x < 62" using assms by (intro ilog2_less) simp_all
  then have e: "max (ilog2 x) (- 1022) - 52 \<le> k - 1" if "- 1 < k"
    using that b(2,5) by (cases "k < 10") simp_all
  have split: "[- 1..10] = [- 1..k - 1] @ k # [k + 1..10]"
    using b(1,2) upto_split1 [of "- 1" "k - 1" 10] upto_split2 [of "- 1" k 10] upto_rec1 [of k 10]
    by (simp add: upto_split3)
  have "py_min_from f (hd POWER_OF_TWO_BANDS) (tl POWER_OF_TWO_BANDS) = PFin (pow2 k)"
    unfolding bands_pow2 split map_append list.map
  proof (rule py_min_of_split)
    fix y assume "y \<in> set (map (\<lambda>k. PFin (pow2 k)) [- 1..k - 1])"
    then obtain j where j: "- 1 \<le> j" "j \<le> k - 1" "y = PFin (pow2 j)" by auto
    then have "rmag \<bar>pow2 k - x\<bar> < rmag \<bar>pow2 j - x\<bar>"
      using b(3) e assms(1,2) by (intro band_lower) simp_all
    then show "flt (f (PFin (pow2 k))) (f y)" using j b key by simp
  next
    fix y assume "y \<in> set (map (\<lambda>k. PFin (pow2 k)) [k + 1..10])"
    then obtain j where j: "k + 1 \<le> j" "j \<le> 10" "y = PFin (pow2 j)" by auto
    then have "2 * pow2 k \<le> pow2 j" using pow2_add [of 1 k] pow2_le [of "1 + k" j] by simp
    then have "rmag \<bar>pow2 k - x\<bar> \<le> rmag \<bar>pow2 j - x\<bar>"
      using j b(4) assms(2) by (intro rmag_mono band_upper) simp_all
    then show "\<not> flt (f y) (f (PFin (pow2 k)))" using j b key by simp
  qed
  then show ?thesis
    using assms(2) by (simp add: coarse_band_def bands_or_default_def f_def k_def Let_def fle_int_def)
qed

lemma band_exp_nearest:
  assumes "0 < x" "- 1 \<le> j" "j \<le> 10"
  shows "\<bar>pow2 (band_exp x) - x\<bar> \<le> \<bar>pow2 j - x\<bar>"
proof -
  note b = band_exp_bounds [OF assms(1)]
  define k where "k = band_exp x"
  consider "j = k" | "k < j" | "j < k" by linarith
  then show ?thesis
  proof cases
    case 2
    then have "2 * pow2 k \<le> pow2 j" using pow2_add [of 1 k] pow2_le [of "1 + k" j] by simp
    then show ?thesis using 2 assms b(4) by (intro band_upper) (simp_all add: k_def)
  next
    case 3
    then have "pow2 j \<le> pow2 (k - 1)" by simp
    moreover have "pow2 k = 2 * pow2 (k - 1)" using pow2_add [of 1 "k - 1"] by simp
    moreover have "3 / 4 * pow2 k < x" using 3 assms b(3) by (simp add: k_def)
    ultimately have "\<bar>pow2 k - x\<bar> \<le> \<bar>pow2 j - x\<bar>" using pow2_pos [of "k - 1"] by linarith
    then show ?thesis by (simp add: k_def)
  qed (simp add: k_def)
qed

text \<open>Far above the largest band every distance rounds to the size itself, and the first band wins.\<close>

lemma coarse_band_absorbed:
  assumes "is_double x" "pow2 65 \<le> x"
  shows "coarse_band (PyFloat (PFin x)) None = Inr (PFin (1 / 2))"
proof -
  have x: "0 < x" using assms(2) pow2_pos [of 65] by linarith
  have x1024: "x < pow2 1024" using assms(1) x by (simp add: is_double_def)
  have k: "fabs (fsub (PFin b) (PFin x)) = PFin x" if "0 \<le> b" "b \<le> 1024" for b
  proof -
    have "(36893488147419103232 :: rat) \<le> x" using assms(2) by (simp add: pow2_def)
    then have "b \<le> x / (2 * 10 ^ 16)" "b \<le> x" using that by simp_all
    then have "rmag \<bar>b - x\<bar> = x" using that by (intro rmag_near [OF assms(1) x]) (simp add: abs_if)
    then show ?thesis using x1024 by (simp add: fabs_rnd)
  qed
  have "py_min_from (\<lambda>b. fabs (fsub b (PFin x))) (PFin (1 / 2)) (tl POWER_OF_TWO_BANDS) = PFin (1 / 2)"
    by (rule py_min_from_stay) (auto simp: POWER_OF_TWO_BANDS_def k simp del: fsub.simps fabs.simps)
  then show ?thesis
    using x by (simp add: coarse_band_def bands_or_default_def POWER_OF_TWO_BANDS_def fle_int_def)
qed

section \<open>The dictionary form\<close>

definition intent_wf :: "order_intent \<Rightarrow> bool" where
  "intent_wf i \<longleftrightarrow> num_wf (oi_size i) \<and> num_wf (oi_stop_price i) \<and> num_wf (oi_target_price i)"

fun is_float :: "pynum \<Rightarrow> bool" where
  "is_float (PyFloat f) = True"
| "is_float (PyInt i) = False"

definition all_floats :: "order_intent \<Rightarrow> bool" where
  "all_floats i \<longleftrightarrow> is_float (oi_size i) \<and> is_float (oi_stop_price i) \<and> is_float (oi_target_price i)"

lemma json_float_json_num: "json_float (json_num n) = num_to_float n"
  by (cases n) simp_all

lemma num_to_float_float: "is_float n \<Longrightarrow> \<exists>f. n = PyFloat f \<and> num_to_float n = Inr f"
  by (cases n) simp_all

text \<open>What comes back from the wire form: the same intent with its quantities made floats.\<close>

lemma from_dict_to_dict:
  "from_dict (to_dict i) =
     bind_res (num_to_float (oi_size i)) (\<lambda>sz.
     bind_res (num_to_float (oi_stop_price i)) (\<lambda>stop.
     bind_res (num_to_float (oi_target_price i)) (\<lambda>target.
       Inr (i\<lparr>oi_size := PyFloat sz, oi_stop_price := PyFloat stop, oi_target_price := PyFloat target\<rparr>))))"
  by (cases i) (simp add: from_dict_def to_dict_def obj_lookup_def json_float_json_num)

lemma from_dict_roundtrip: "all_floats i \<Longrightarrow> from_dict (to_dict i) = Inr i"
  by (cases i) (auto simp: from_dict_to_dict all_floats_def dest!: num_to_float_float)

lemma from_dict_all_floats: "from_dict data = Inr i \<Longrightarrow> all_floats i"
  by (auto simp: from_dict_def bind_res_Inr all_floats_def)

lemma read_float_wf: "json_float v = Inr f \<Longrightarrow> json_getitem data k = Inr v \<Longrightarrow> floats_wf data \<Longrightarrow> float_wf f"
  using floats_wf_getitem json_float_wf by blast

lemma from_dict_reads_wf: "from_dict data = Inr i \<Longrightarrow> floats_wf data \<Longrightarrow> intent_wf i"
  by (auto simp: from_dict_def bind_res_Inr intent_wf_def intro: read_float_wf)

lemma to_dict_wf: "intent_wf i \<Longrightarrow> json_wf (to_dict i)"
proof -
  have "json_wf (json_num n) \<longleftrightarrow> num_wf n" for n by (cases n) simp_all
  then show "intent_wf i \<Longrightarrow> json_wf (to_dict i)" by (simp add: to_dict_def intent_wf_def)
qed

lemma from_json_to_json: "intent_wf i \<Longrightarrow> from_json (to_json i) = from_dict (to_dict i)"
  by (simp add: from_json_def to_json_def loads_dumps to_dict_wf)

lemma from_json_roundtrip: "intent_wf i \<Longrightarrow> all_floats i \<Longrightarrow> from_json (to_json i) = Inr i"
  by (simp add: from_json_to_json from_dict_roundtrip)

section \<open>The signed text\<close>

lemma serialize_signature [simp]: "serialize_for_signing (i\<lparr>oi_signature := s\<rparr>) = serialize_for_signing i"
  by (simp add: serialize_for_signing_def serialize_parts_def)

definition pipe_free :: "order_intent \<Rightarrow> bool" where
  "pipe_free i \<longleftrightarrow>
     CHR ''|'' \<notin> set (oi_intent_id i) \<and> CHR ''|'' \<notin> set (oi_symbol i) \<and> CHR ''|'' \<notin> set (oi_public_key_hash i)"

lemma parts_pipe_free:
  "intent_wf i \<Longrightarrow> pipe_free i \<longleftrightarrow> (\<forall>p \<in> set (serialize_parts i). CHR ''|'' \<notin> set p)"
  by (auto simp: serialize_parts_def pipe_free_def intent_wf_def num_str_no_pipe int_str_no_pipe)

text \<open>
  The number of separators in the signed text is fixed by the signer, so a receiver that parses the
  same bytes into other fields finds no room for a separator inside one of them.
\<close>

lemma same_text_pipe_free:
  assumes "serialize_for_signing i = serialize_for_signing j" "intent_wf i" "intent_wf j" "pipe_free j"
  shows "pipe_free i"
proof -
  have eq: "join ''|'' (serialize_parts i) = join ''|'' (serialize_parts j)"
    using assms(1) by (simp add: serialize_for_signing_def)
  have ne: "serialize_parts k \<noteq> []" "length (serialize_parts k) = 8" for k by (simp_all add: serialize_parts_def)
  have "\<forall>p \<in> set (serialize_parts j). count_list p CHR ''|'' = 0"
    using assms(3,4) parts_pipe_free by (auto simp: count_list_0_iff)
  then have z: "sum_list (map (\<lambda>p. count_list p CHR ''|'') (serialize_parts j)) = 0" by (simp add: sum_list_eq_0_iff)
  have "sum_list (map (\<lambda>p. count_list p CHR ''|'') (serialize_parts i)) =
      sum_list (map (\<lambda>p. count_list p CHR ''|'') (serialize_parts j))"
    using count_list_join [OF ne(1) [of i], of "CHR ''|''"] count_list_join [OF ne(1) [of j], of "CHR ''|''"]
    by (simp add: eq ne)
  then have "sum_list (map (\<lambda>p. count_list p CHR ''|'') (serialize_parts i)) = 0" unfolding z .
  then show ?thesis using assms(2) parts_pipe_free by (auto simp: sum_list_eq_0_iff count_list_0_iff)
qed

lemma serialize_inj:
  assumes "serialize_for_signing i = serialize_for_signing j" "intent_wf i" "intent_wf j" "pipe_free j"
  shows "i = j\<lparr>oi_signature := oi_signature i\<rparr>"
proof -
  have "join ''|'' (serialize_parts i) = join ''|'' (serialize_parts j)"
    using assms(1) by (simp add: serialize_for_signing_def)
  moreover have "split_on CHR ''|'' (join ''|'' (serialize_parts k)) = serialize_parts k"
    if "intent_wf k" "pipe_free k" for k
    using that parts_pipe_free by (intro split_on_join) (auto simp: serialize_parts_def)
  ultimately have "serialize_parts i = serialize_parts j"
    using assms same_text_pipe_free by metis
  then show ?thesis
    using assms(2,3) by (cases i; cases j) (simp add: serialize_parts_def intent_wf_def num_str_eq intc.enc_eq_iff)
qed

section \<open>Keys, signing, verification\<close>

lemma extract_private_bytes_id [simp]: "extract_private_bytes seed = seed"
  by (simp add: extract_private_bytes_def)

lemma new_key_inv: "key_inv (new_signing_key c seed)"
  by (simp add: key_inv_def new_signing_key_def)

lemma zeroize_inv: "key_inv key \<Longrightarrow> key_inv (key_zeroize key)"
  by (auto simp: key_inv_def key_zeroize_def split: option.splits)

lemma zeroize_idem: "key_zeroize (key_zeroize key) = key_zeroize key"
  by (simp add: key_zeroize_def)

lemma zeroize_public [simp]:
  "sk_pubkey (key_zeroize key) = sk_pubkey key" "public_key_hash (key_zeroize key) = public_key_hash key"
  by (simp_all add: key_zeroize_def public_key_hash_def)

lemma key_sign_zeroized:
  "key_sign c (key_zeroize key) m = Inl (RuntimeError ''Signing key has been zeroized - cannot sign'')"
  by (simp add: key_sign_def key_zeroize_def)

lemma zeroize_buffer: "key_inv key \<Longrightarrow> set (sk_buffer (key_zeroize key)) \<subseteq> {0} \<and> sk_private (key_zeroize key) = None"
  by (auto simp: key_inv_def key_zeroize_def split: option.splits)

lemma key_sign_inv: "key_inv key \<Longrightarrow>
  key_sign c key m = (case sk_private key of
      None \<Rightarrow> Inl (RuntimeError ''Signing key has been zeroized - cannot sign'')
    | Some seed \<Rightarrow> Inr (ed25519_sign c seed m))"
  by (auto simp: key_inv_def key_sign_def split: option.splits)

text \<open>Signing with a live key yields an intent whose signature verifies.\<close>

lemma sign_intent_live:
  "sign_intent c i (new_signing_key c seed) =
     (i\<lparr>oi_public_key_hash := sha256_hex (ed25519_public c seed),
        oi_signature := hex_encode (ed25519_sign c seed
          (serialize_for_signing (i\<lparr>oi_public_key_hash := sha256_hex (ed25519_public c seed)\<rparr>)))\<rparr>, Inr ())"
  by (simp add: sign_intent_def public_key_hash_def key_sign_def new_signing_key_def Let_def)

lemma verify_intent_True:
  "verify_intent c i pk = Inr True \<longleftrightarrow>
   (\<exists>key s. ed25519_load c pk = Inr key \<and> fromhex (oi_signature i) = Inr s
      \<and> ed25519_verify c key s (serialize_for_signing i) = Inr ())"
  by (auto simp: verify_intent_def bind_res_Inr bind_res_def split: sum.splits if_splits)

lemma verify_intent_signed:
  assumes "ed25519_correct c" "oi_signature i = hex_encode (ed25519_sign c seed (serialize_for_signing i))"
  shows "verify_intent c i (ed25519_public c seed) = Inr True"
  using assms by (simp add: verify_intent_True ed25519_correct_def hexc.dec_enc)

lemma sign_intent_verifies:
  assumes "ed25519_correct c" "sign_intent c i (new_signing_key c seed) = (i', r)"
  shows "r = Inr () \<and> verify_intent c i' (ed25519_public c seed) = Inr True"
proof -
  have "r = Inr ()" using assms(2) by (simp add: sign_intent_live)
  moreover have "oi_signature i' = hex_encode (ed25519_sign c seed (serialize_for_signing i'))"
    using assms(2) by (auto simp: sign_intent_live)
  ultimately show ?thesis using verify_intent_signed [OF assms(1)] by blast
qed

section \<open>Properties\<close>

lemma from_dict_wf: "intent_wf i \<Longrightarrow> from_dict (to_dict i) = Inr j \<Longrightarrow> intent_wf j"
  by (auto simp: from_dict_to_dict bind_res_Inr intent_wf_def dest: num_to_float_wf)

text \<open>
  C16. Banding picks the band nearest to the exact size, the lower one at a midpoint, for every
  positive float below \<open>2\<^sup>6\<^sup>2\<close>: the rounding of the differences never changes the choice.
\<close>

theorem coarse_band_nearest:
  assumes "is_double x" "0 < x" "x < 2 ^ 62"
  shows "coarse_band (PyFloat (PFin x)) None = Inr (PFin (pow2 (band_exp x)))
    \<and> PFin (pow2 (band_exp x)) \<in> set POWER_OF_TWO_BANDS
    \<and> (\<forall>k \<in> {- 1..10}. \<bar>pow2 (band_exp x) - x\<bar> \<le> \<bar>pow2 k - x\<bar>)"
proof (intro conjI ballI)
  have "x < pow2 62" using assms(3) by (simp add: pow2_def)
  then show "coarse_band (PyFloat (PFin x)) None = Inr (PFin (pow2 (band_exp x)))"
    using assms coarse_band_exp by blast
  show "PFin (pow2 (band_exp x)) \<in> set POWER_OF_TWO_BANDS"
    using band_exp_bounds(1,2) [OF assms(2)] by (auto simp: bands_pow2)
  show "\<bar>pow2 (band_exp x) - x\<bar> \<le> \<bar>pow2 k - x\<bar>" if "k \<in> {- 1..10}" for k
    using that band_exp_nearest [OF assms(2)] by simp
qed

theorem coarse_band_nearest_witness:
  "coarse_band (PyFloat (PFin 3)) None = Inr (PFin (pow2 (band_exp 3))) \<and> band_exp 3 = 1"
proof
  have "is_double 3" using is_double_int [of 3] by simp
  then show "coarse_band (PyFloat (PFin 3)) None = Inr (PFin (pow2 (band_exp 3)))"
    using coarse_band_nearest [of 3] by simp
  show "band_exp 3 = 1" by code_simp
qed

text \<open>
  A size from \<open>2\<^sup>6\<^sup>5\<close> on is banded to 0.5, the smallest band: every distance rounds to the size
  itself, so that the first band of the list wins.
\<close>

theorem coarse_band_huge:
  assumes "is_double x" "2 ^ 65 \<le> x"
  shows "coarse_band (PyFloat (PFin x)) None = Inr (PFin (1 / 2))"
  using assms by (intro coarse_band_absorbed) (simp_all add: pow2_def)

theorem coarse_band_huge_witness: "coarse_band (PyFloat (PFin (2 ^ 66))) None = Inr (PFin (1 / 2))"
proof (rule coarse_band_huge)
  have "rmag (pow2 66) = pow2 66" by (rule rmag_repr [of _ 1 66]) simp_all
  moreover have "pow2 66 < pow2 1024" by simp
  moreover have "pow2 66 = 2 ^ 66" by (simp only: pow2_numeral)
  ultimately show "is_double (2 ^ 66)" by (simp add: is_double_def del: pow2_less)
qed simp

text \<open>
  C15. The signed text determines the intent: if the signer's identifier, symbol and key hash hold no
  separator, any intent with the same signed bytes has the same fields, whatever the receiver's
  copy contains, the type of its numbers included.
\<close>

theorem signed_text_unambiguous:
  assumes "serialize_for_signing i = serialize_for_signing j" "intent_wf i" "intent_wf j" "pipe_free j"
  shows "i = j\<lparr>oi_signature := oi_signature i\<rparr>"
  using assms by (rule serialize_inj)

definition plain_intent :: order_intent where
  "plain_intent = \<lparr>oi_symbol = ''BTCUSDT'', oi_side = 1, oi_size = PyFloat (PFin 1), oi_stop_price = PyInt 59000,
     oi_target_price = PyInt 62000, oi_timestamp = 1700000000, oi_intent_id = ''a1'', oi_public_key_hash = ''b2'',
     oi_signature = ''c3''\<rparr>"

lemma plain_intent_ok: "intent_wf plain_intent" "pipe_free plain_intent"
  using is_double_int [of 1] by (simp_all add: plain_intent_def intent_wf_def pipe_free_def)

lemma plain_intent_read: "from_dict (to_dict plain_intent) =
    Inr (plain_intent\<lparr>oi_stop_price := PyFloat (PFin 59000), oi_target_price := PyFloat (PFin 62000)\<rparr>)"
  using float_of_int_exact [of 59000] float_of_int_exact [of 62000]
  by (simp add: from_dict_to_dict) (simp add: plain_intent_def)

theorem signed_text_unambiguous_witness:
  "plain_intent\<lparr>oi_signature := ''''\<rparr> = plain_intent\<lparr>oi_signature := oi_signature (plain_intent\<lparr>oi_signature := ''''\<rparr>)\<rparr>"
  by (rule signed_text_unambiguous) (use plain_intent_ok in \<open>simp_all add: intent_wf_def\<close>)

text \<open>Texts that agree in the other five fields, whatever characters these hold, agree in the quantities.\<close>

lemma serialize_quantities:
  assumes "serialize_for_signing (i\<lparr>oi_size := a, oi_stop_price := b, oi_target_price := c\<rparr>) = serialize_for_signing i"
    and "num_wf a" "num_wf b" "num_wf c" "intent_wf i"
  shows "a = oi_size i \<and> b = oi_stop_price i \<and> c = oi_target_price i"
proof -
  let ?q = "\<lambda>x y z. join ''|'' [num_str x, num_str y, num_str z]"
  have wf: "num_wf (oi_size i)" "num_wf (oi_stop_price i)" "num_wf (oi_target_price i)"
    using assms(5) by (simp_all add: intent_wf_def)
  have split: "split_on CHR ''|'' (?q x y z) = [num_str x, num_str y, num_str z]" if "num_wf x" "num_wf y" "num_wf z" for x y z
    using that by (intro split_on_join) (auto simp: num_str_no_pipe)
  have "?q a b c = ?q (oi_size i) (oi_stop_price i) (oi_target_price i)"
    using assms(1) by (simp add: serialize_for_signing_def serialize_parts_def)
  then have "[num_str a, num_str b, num_str c] = [num_str (oi_size i), num_str (oi_stop_price i), num_str (oi_target_price i)]"
    using split assms(2-4) wf by metis
  then show ?thesis using assms(2-4) wf by (simp add: num_str_eq)
qed

text \<open>
  C34. Quantities given as integers do not survive the JSON text: an intent whose numbers Python has and
  whose size, stop or target price is an integer comes back as the same intent with each quantity
  converted to a float, and the text to verify is not the text that was signed.
\<close>

theorem integer_quantity_changes_text:
  assumes "from_json (to_json i) = Inr j" "intent_wf i" "\<not> all_floats i"
  shows "(\<exists>sz stop target. num_to_float (oi_size i) = Inr sz \<and> num_to_float (oi_stop_price i) = Inr stop \<and>
      num_to_float (oi_target_price i) = Inr target \<and>
      j = i\<lparr>oi_size := PyFloat sz, oi_stop_price := PyFloat stop, oi_target_price := PyFloat target\<rparr>) \<and>
    serialize_for_signing j \<noteq> serialize_for_signing i"
proof -
  obtain sz stop target where j: "num_to_float (oi_size i) = Inr sz" "num_to_float (oi_stop_price i) = Inr stop"
      "num_to_float (oi_target_price i) = Inr target"
      "j = i\<lparr>oi_size := PyFloat sz, oi_stop_price := PyFloat stop, oi_target_price := PyFloat target\<rparr>"
    using assms(1) by (auto simp: from_json_to_json [OF assms(2)] from_dict_to_dict bind_res_Inr)
  have "intent_wf j" using assms(1) from_dict_wf [OF assms(2)] by (simp add: from_json_to_json [OF assms(2)])
  then have wf: "num_wf (PyFloat sz)" "num_wf (PyFloat stop)" "num_wf (PyFloat target)" by (simp_all add: intent_wf_def j(4))
  have "serialize_for_signing j \<noteq> serialize_for_signing i"
    using serialize_quantities [OF _ wf assms(2)] assms(3) by (auto simp: j(4) all_floats_def)
      (metis is_float.simps(1))+
  then show ?thesis using j by blast
qed

theorem integer_quantity_changes_text_witness:
  "serialize_for_signing (plain_intent\<lparr>oi_stop_price := PyFloat (PFin 59000), oi_target_price := PyFloat (PFin 62000)\<rparr>)
   \<noteq> serialize_for_signing plain_intent"
proof -
  have "from_json (to_json plain_intent) =
      Inr (plain_intent\<lparr>oi_stop_price := PyFloat (PFin 59000), oi_target_price := PyFloat (PFin 62000)\<rparr>)"
    using plain_intent_read by (simp add: from_json_to_json plain_intent_ok)
  from integer_quantity_changes_text [OF this] show ?thesis
    using plain_intent_ok by (simp add: all_floats_def plain_intent_def)
qed

text \<open>
  C37. An intent read from JSON text has float quantities whatever the types in the text were, each of
  them a float that Python has, and is a fixed point of the wire format: writing and reading it
  again gives the same intent.
\<close>

theorem from_json_normal:
  assumes "from_json raw = Inr i"
  shows "all_floats i \<and> intent_wf i \<and> from_json (to_json i) = Inr i"
proof -
  obtain data where d: "loads raw = Inr data" "from_dict data = Inr i"
    using assms by (auto simp: from_json_def bind_res_Inr)
  then have "intent_wf i" by (blast intro: from_dict_reads_wf loads_floats)
  then show ?thesis using from_dict_all_floats [OF d(2)] from_json_roundtrip by blast
qed

theorem from_json_normal_witness:
  "all_floats (plain_intent\<lparr>oi_stop_price := PyFloat (PFin 59000), oi_target_price := PyFloat (PFin 62000)\<rparr>) \<and>
   intent_wf (plain_intent\<lparr>oi_stop_price := PyFloat (PFin 59000), oi_target_price := PyFloat (PFin 62000)\<rparr>) \<and>
   from_json (to_json (plain_intent\<lparr>oi_stop_price := PyFloat (PFin 59000), oi_target_price := PyFloat (PFin 62000)\<rparr>)) =
   Inr (plain_intent\<lparr>oi_stop_price := PyFloat (PFin 59000), oi_target_price := PyFloat (PFin 62000)\<rparr>)"
  by (rule from_json_normal [of "to_json plain_intent"]) (simp add: from_json_to_json plain_intent_ok plain_intent_read)

text \<open>
  C36. Life of a signing key: it signs until it is zeroized; after one or more zeroizations the copied
  seed is overwritten with zeros, the key object is released, signing raises, and the public half
  is unchanged.
\<close>

theorem signing_key_life:
  "key_sign c (new_signing_key c seed) m = Inr (ed25519_sign c seed m) \<and>
   (let k = (key_zeroize ^^ Suc n) (new_signing_key c seed) in
      key_inv k \<and> sk_buffer k = replicate (length seed) 0 \<and> sk_private k = None
      \<and> key_sign c k m = Inl (RuntimeError ''Signing key has been zeroized - cannot sign'')
      \<and> public_key_bytes k = ed25519_public c seed \<and> public_key_hash k = sha256_hex (ed25519_public c seed))"
proof -
  define k where "k = key_zeroize (new_signing_key c seed)"
  have "(key_zeroize ^^ Suc n) (new_signing_key c seed) = k"
    by (induction n) (simp_all add: k_def zeroize_idem)
  moreover have "key_inv k" unfolding k_def by (intro zeroize_inv new_key_inv)
  moreover have "key_sign c k m = Inl (RuntimeError ''Signing key has been zeroized - cannot sign'')"
    unfolding k_def by (rule key_sign_zeroized)
  ultimately show ?thesis
    by (simp add: k_def key_sign_def key_zeroize_def new_signing_key_def public_key_bytes_def public_key_hash_def)
qed

text \<open>
  The signed text is what the documentation of \<^verbatim>\<open>_serialize_for_signing\<close> says: the fields that
  \<^verbatim>\<open>_SIGNING_FIELDS\<close> lists, in that order, each as Python prints the value that \<^verbatim>\<open>to_dict\<close> holds for it,
  joined by bars; and the list has every field of the dictionary but the signature, once.
\<close>

theorem serialize_follows_fields:
  "bind_res (map_res (json_getitem (to_dict i)) SIGNING_FIELDS) (\<lambda>vs. Inr (encode (join ''|'' (map json_str vs)))) =
     Inr (serialize_for_signing i) \<and>
   set SIGNING_FIELDS = {k. is_ok (json_getitem (to_dict i) k)} - {''signature''} \<and> distinct SIGNING_FIELDS"
proof (intro conjI)
  have str: "json_str (json_num x) = num_str x" for x by (cases x) simp_all
  show "bind_res (map_res (json_getitem (to_dict i)) SIGNING_FIELDS) (\<lambda>vs. Inr (encode (join ''|'' (map json_str vs)))) =
     Inr (serialize_for_signing i)"
    by (simp add: SIGNING_FIELDS_def to_dict_def obj_lookup_def serialize_for_signing_def serialize_parts_def str)
  show "set SIGNING_FIELDS = {k. is_ok (json_getitem (to_dict i) k)} - {''signature''}"
    by (auto simp: SIGNING_FIELDS_def to_dict_def obj_lookup_def split: if_splits)
  show "distinct SIGNING_FIELDS" by (simp add: SIGNING_FIELDS_def)
qed

end
