(* ===== verification/Intent_Queue.thy ===== *)
theory Intent_Queue
  imports Order_Intent
begin

text \<open>
  \<^verbatim>\<open>IntentBuilder\<close> of \<^verbatim>\<open>src/src/signed_order_intent.py\<close>: building a signed intent, the queue of
  pending intents and the batches it is emptied in. The locale \<open>batch_queue\<close> is the contract of
  such a queue; the sequential operations interpret it. \<open>emit_batch\<close> compares the clock with the
  emission window before it takes the lock, so the section on threads splits it at that point into
  two steps and shows which of its promises survive: the threads together still implement the
  abstract queue \<open>queue_step\<close>, while the distance between batches does not hold.

  The builder refers to a key object that its creator may also hold (and zeroize), so the key is an
  argument of \<open>build\<close> and not a field.
\<close>

section \<open>The contract of a batching queue\<close>

locale batch_queue =
  fixes enq :: "'x \<Rightarrow> 'q \<Rightarrow> 'q"
    and emit :: "'p \<Rightarrow> 'q \<Rightarrow> 'x list \<times> 'q"
    and contents :: "'q \<Rightarrow> 'x list"
  assumes contents_enq: "contents (enq x q) = contents q @ [x]"
    and emit_parts: "emit p q = (batch, q') \<Longrightarrow> batch @ contents q' = contents q"
    and emit_whole: "emit p q = (batch, q') \<Longrightarrow> batch \<noteq> [] \<Longrightarrow> contents q' = []"
begin

text \<open>An operation enqueues (\<open>Inl\<close>) or asks for a batch (\<open>Inr\<close>); \<open>run\<close> lists the batches.\<close>

fun run :: "('x + 'p) list \<Rightarrow> 'q \<Rightarrow> 'x list list \<times> 'q" where
  "run [] q = ([], q)"
| "run (Inl x # ops) q = run ops (enq x q)"
| "run (Inr p # ops) q = (case emit p q of (batch, q') \<Rightarrow> (case run ops q' of (bs, q'') \<Rightarrow> (batch # bs, q'')))"

fun enqueued :: "('x + 'p) list \<Rightarrow> 'x list" where
  "enqueued [] = []"
| "enqueued (Inl x # ops) = x # enqueued ops"
| "enqueued (Inr p # ops) = enqueued ops"

lemma nothing_lost: "run ops q = (bs, q') \<Longrightarrow> concat bs @ contents q' = contents q @ enqueued ops"
proof (induction ops q arbitrary: bs q' rule: run.induct)
  case (2 x ops q)
  then show ?case by (simp add: contents_enq)
next
  case (3 p ops q)
  then obtain batch q1 bs1 where e: "emit p q = (batch, q1)" "run ops q1 = (bs1, q')" "bs = batch # bs1"
    by (auto split: prod.splits)
  then have "concat bs1 @ contents q' = contents q1 @ enqueued ops" using 3 by simp
  then show ?case using emit_parts [OF e(1), symmetric] e(3) by simp
qed simp

end

section \<open>The builder\<close>

record intent_builder =
  ib_emit_window :: pyfloat
  ib_bands :: "pyfloat list"
  ib_pending :: "order_intent list"
  ib_last_emit :: pyfloat

text \<open>The key that is used: the one handed in, or a new one from the drawn seed.\<close>

definition builder_key :: "crypto \<Rightarrow> bytes \<Rightarrow> signing_key option \<Rightarrow> signing_key" where
  "builder_key c seed key = (case key of Some k \<Rightarrow> k | None \<Rightarrow> new_signing_key c seed)"

definition new_builder :: "pyfloat \<Rightarrow> pyfloat list option \<Rightarrow> intent_builder" where
  "new_builder window bands =
     \<lparr>ib_emit_window = window, ib_bands = bands_or_default bands, ib_pending = [], ib_last_emit = PFin 0\<rparr>"

text \<open>\<^verbatim>\<open>secrets.token_hex(16)\<close> from the sixteen random bytes.\<close>

definition new_nonce :: "bytes \<Rightarrow> string" where
  "new_nonce random = hex_encode random"

definition build :: "crypto \<Rightarrow> signing_key \<Rightarrow> intent_builder \<Rightarrow> string \<Rightarrow> int \<Rightarrow> pynum \<Rightarrow> pynum \<Rightarrow> pynum
    \<Rightarrow> int option \<Rightarrow> pyfloat \<Rightarrow> bytes \<Rightarrow> order_intent res" where
  "build c key b symbol side raw_size stop target timestamp now random =
     bind_res (coarse_band raw_size (Some (ib_bands b))) (\<lambda>banded.
     bind_res (case timestamp of Some t \<Rightarrow> Inr t | None \<Rightarrow> int_of_float now) (\<lambda>ts.
       let intent = \<lparr>oi_symbol = symbol, oi_side = side, oi_size = PyFloat banded, oi_stop_price = stop,
                     oi_target_price = target, oi_timestamp = ts, oi_intent_id = new_nonce random,
                     oi_public_key_hash = [], oi_signature = []\<rparr>
       in (case sign_intent c intent key of (i, r) \<Rightarrow> bind_res r (\<lambda>_. Inr i))))"

definition enqueue :: "order_intent \<Rightarrow> intent_builder \<Rightarrow> nat \<times> intent_builder" where
  "enqueue i b = (Suc (length (ib_pending b)), b\<lparr>ib_pending := ib_pending b @ [i]\<rparr>)"

text \<open>The two halves of \<open>emit_batch\<close>: the comparison with the clock, and the part under the lock.\<close>

definition window_closed :: "pyfloat \<Rightarrow> bool \<Rightarrow> intent_builder \<Rightarrow> bool" where
  "window_closed now force b \<longleftrightarrow> \<not> force \<and> flt (fsub now (ib_last_emit b)) (ib_emit_window b)"

definition take_batch :: "pyfloat \<Rightarrow> intent_builder \<Rightarrow> order_intent list \<times> intent_builder" where
  "take_batch now b =
     (if ib_pending b = [] then ([], b)
      else (ib_pending b, b\<lparr>ib_last_emit := now, ib_pending := []\<rparr>))"

definition emit_batch :: "pyfloat \<times> bool \<Rightarrow> intent_builder \<Rightarrow> order_intent list \<times> intent_builder" where
  "emit_batch p b = (case p of (now, force) \<Rightarrow> if window_closed now force b then ([], b) else take_batch now b)"

interpretation emitq: batch_queue "\<lambda>i b. snd (enqueue i b)" emit_batch ib_pending
  by unfold_locales
     (auto simp: enqueue_def emit_batch_def take_batch_def split: prod.splits if_splits)

text \<open>The unsigned and the signed intent that \<open>build\<close> makes.\<close>

definition built :: "signing_key \<Rightarrow> string \<Rightarrow> int \<Rightarrow> pyfloat \<Rightarrow> pynum \<Rightarrow> pynum \<Rightarrow> int \<Rightarrow> bytes \<Rightarrow> bytes \<Rightarrow> order_intent" where
  "built key symbol side banded stop target ts random sig =
     \<lparr>oi_symbol = symbol, oi_side = side, oi_size = PyFloat banded, oi_stop_price = stop, oi_target_price = target,
      oi_timestamp = ts, oi_intent_id = hex_encode random, oi_public_key_hash = public_key_hash key,
      oi_signature = hex_encode sig\<rparr>"

lemma serialize_built:
  "serialize_for_signing (built key symbol side banded stop target ts random sig) =
   serialize_for_signing (built key symbol side banded stop target ts random [])"
  by (simp add: serialize_for_signing_def serialize_parts_def built_def)

lemma build_eq:
  "build c key b symbol side raw stop target timestamp now random =
     bind_res (coarse_band raw (Some (ib_bands b))) (\<lambda>banded.
     bind_res (case timestamp of Some t \<Rightarrow> Inr t | None \<Rightarrow> int_of_float now) (\<lambda>ts.
     bind_res (key_sign c key (serialize_for_signing (built key symbol side banded stop target ts random []))) (\<lambda>s.
       Inr (built key symbol side banded stop target ts random s))))"
  unfolding build_def new_nonce_def Let_def
  by (intro bind_res_cong refl)
     (simp add: sign_intent_def new_nonce_def Let_def bind_res_def built_def hex_encode_def
        serialize_for_signing_def serialize_parts_def split: sum.splits)

lemma build_Inr:
  assumes "build c key b symbol side raw stop target timestamp now random = Inr i"
  obtains banded ts s where
    "coarse_band raw (Some (ib_bands b)) = Inr banded"
    "(case timestamp of Some t \<Rightarrow> Inr t | None \<Rightarrow> int_of_float now) = Inr ts"
    "key_sign c key (serialize_for_signing i) = Inr s"
    "i = built key symbol side banded stop target ts random s"
  using assms serialize_built by (simp add: build_eq bind_res_Inr) metis

lemma coarse_band_member: "coarse_band sz bands = Inr b \<Longrightarrow> b \<in> set (bands_or_default bands)"
proof -
  define bs where "bs = bands_or_default bands"
  have "bs \<noteq> []" by (auto simp: bs_def bands_or_default_def POWER_OF_TWO_BANDS_def split: option.splits)
  then obtain x xs where "bs = x # xs" by (cases bs) simp_all
  moreover assume "coarse_band sz bands = Inr b"
  ultimately show ?thesis using py_min_from_mem [of _ x xs]
    by (auto simp: coarse_band_def bs_def [symmetric] Let_def bind_res_Inr split: if_splits)
qed

lemma coarse_band_wf: "coarse_band sz (Some bs) = Inr b \<Longrightarrow> list_all float_wf bs \<Longrightarrow> float_wf b"
  using coarse_band_member [of sz "Some bs" b] bands_wf
  by (auto simp: bands_or_default_def list_all_iff split: if_splits)

lemma built_wf:
  assumes "build c key b symbol side raw (PyFloat stop) (PyFloat target) timestamp now random = Inr i"
    and "list_all float_wf (ib_bands b)" "float_wf stop" "float_wf target"
  shows "intent_wf i"
  using assms(1) by (rule build_Inr) (use assms(2-4) coarse_band_wf in \<open>auto simp: built_def intent_wf_def\<close>)

section \<open>Threads that share a builder\<close>

text \<open>
  \<open>es_passed\<close> holds, for a thread between the two halves of \<open>emit_batch\<close>, the time it read and its
  \<open>force\<close> argument; \<open>es_log\<close> the batches returned so far with those; \<open>es_input\<close> every intent
  enqueued so far.
\<close>

record emit_sys =
  es_builder :: intent_builder
  es_passed :: "nat \<Rightarrow> (pyfloat \<times> bool) option"
  es_log :: "((pyfloat \<times> bool) \<times> order_intent list) list"
  es_input :: "order_intent list"

definition emit_start :: "intent_builder \<Rightarrow> emit_sys" where
  "emit_start b = \<lparr>es_builder = b, es_passed = (\<lambda>_. None), es_log = [], es_input = ib_pending b\<rparr>"

inductive emit_step :: "emit_sys \<Rightarrow> emit_sys \<Rightarrow> bool" where
  put: "emit_step s (s\<lparr>es_builder := snd (enqueue i (es_builder s)), es_input := es_input s @ [i]\<rparr>)"
| early: "es_passed s t = None \<Longrightarrow> window_closed now force (es_builder s) \<Longrightarrow>
    emit_step s (s\<lparr>es_log := es_log s @ [((now, force), [])]\<rparr>)"
| pass: "es_passed s t = None \<Longrightarrow> \<not> window_closed now force (es_builder s) \<Longrightarrow>
    emit_step s (s\<lparr>es_passed := (es_passed s)(t \<mapsto> (now, force))\<rparr>)"
| take: "es_passed s t = Some (now, force) \<Longrightarrow> take_batch now (es_builder s) = (batch, b) \<Longrightarrow>
    emit_step s (s\<lparr>es_builder := b, es_passed := (es_passed s)(t := None),
                   es_log := es_log s @ [((now, force), batch)]\<rparr>)"

inductive_cases emit_stepE: "emit_step s s'"

text \<open>The abstract queue: what waits, and what has been delivered, batch by batch.\<close>

record queue_spec =
  q_waiting :: "order_intent list"
  q_delivered :: "order_intent list list"

inductive queue_step :: "queue_spec \<Rightarrow> queue_spec \<Rightarrow> bool" where
  q_put: "queue_step q (q\<lparr>q_waiting := q_waiting q @ [i]\<rparr>)"
| q_deliver: "q_waiting q \<noteq> [] \<Longrightarrow>
    queue_step q (q\<lparr>q_waiting := [], q_delivered := q_delivered q @ [q_waiting q]\<rparr>)"

definition queue_abs :: "emit_sys \<Rightarrow> queue_spec" where
  "queue_abs s = \<lparr>q_waiting = ib_pending (es_builder s),
     q_delivered = filter (\<lambda>batch. batch \<noteq> []) (map snd (es_log s))\<rparr>"

lemma emit_step_simulates:
  assumes "emit_step s s'" shows "queue_abs s' = queue_abs s \<or> queue_step (queue_abs s) (queue_abs s')"
  using assms
proof cases
  case (put i)
  then show ?thesis using q_put [of "queue_abs s" i] by (simp add: queue_abs_def enqueue_def)
next
  case (take t now force batch b)
  then show ?thesis using q_deliver [of "queue_abs s"]
    by (auto simp: queue_abs_def take_batch_def split: if_splits)
qed (simp_all add: queue_abs_def)

lemma emit_steps_refine: "emit_step\<^sup>*\<^sup>* s s' \<Longrightarrow> queue_step\<^sup>*\<^sup>* (queue_abs s) (queue_abs s')"
proof (induction rule: rtranclp_induct)
  case (step s' s'')
  then show ?case using emit_step_simulates [of s' s''] by (metis rtranclp.rtrancl_into_rtrancl)
qed simp

text \<open>Nothing is lost, duplicated or reordered, whatever the interleaving.\<close>

definition emit_inv :: "emit_sys \<Rightarrow> bool" where
  "emit_inv s \<longleftrightarrow> concat (map snd (es_log s)) @ ib_pending (es_builder s) = es_input s"

lemma emit_inv_start: "emit_inv (emit_start b)"
  by (simp add: emit_inv_def emit_start_def)

lemma emit_inv_step: "emit_step s s' \<Longrightarrow> emit_inv s \<Longrightarrow> emit_inv s'"
  by (elim emit_stepE) (auto simp: emit_inv_def enqueue_def take_batch_def split: if_splits)

lemma emit_inv_steps: "emit_step\<^sup>*\<^sup>* s s' \<Longrightarrow> emit_inv s \<Longrightarrow> emit_inv s'"
  by (induction rule: rtranclp_induct) (auto intro: emit_inv_step)

text \<open>A thread that runs both halves without interruption behaves as \<open>emit_batch\<close>.\<close>

lemma emit_batch_atomic:
  assumes "es_passed s t = None" "emit_batch (now, force) (es_builder s) = (batch, b)"
  shows "emit_step\<^sup>*\<^sup>* s (s\<lparr>es_builder := b, es_log := es_log s @ [((now, force), batch)]\<rparr>)"
proof (cases "window_closed now force (es_builder s)")
  case True
  then have b: "batch = []" "s\<lparr>es_builder := b\<rparr> = s" using assms(2) by (auto simp: emit_batch_def)
  show ?thesis unfolding b using emit_step.early [OF assms(1) True] by (rule r_into_rtranclp)
next
  case False
  let ?m = "s\<lparr>es_passed := (es_passed s)(t \<mapsto> (now, force))\<rparr>"
  have "emit_step s ?m" using assms(1) False by (rule emit_step.pass)
  moreover have "emit_step ?m (?m\<lparr>es_builder := b, es_passed := (es_passed ?m)(t := None),
      es_log := es_log ?m @ [((now, force), batch)]\<rparr>)"
    using assms(2) False by (intro emit_step.take) (simp_all add: emit_batch_def)
  moreover have "(es_passed s)(t := None) = es_passed s" using assms(1) by auto
  ultimately show ?thesis by (simp add: converse_rtranclp_into_rtranclp r_into_rtranclp)
qed

text \<open>Two threads and one window of five seconds: the states of an interleaving.\<close>

definition race_sys :: "order_intent list \<Rightarrow> pyfloat \<Rightarrow> (nat \<Rightarrow> (pyfloat \<times> bool) option)
    \<Rightarrow> ((pyfloat \<times> bool) \<times> order_intent list) list \<Rightarrow> order_intent list \<Rightarrow> emit_sys" where
  "race_sys pending lst passed lg input =
     \<lparr>es_builder = \<lparr>ib_emit_window = PFin 5, ib_bands = POWER_OF_TWO_BANDS, ib_pending = pending, ib_last_emit = lst\<rparr>,
      es_passed = passed, es_log = lg, es_input = input\<rparr>"

lemma rnd_small: "rnd 1 = PFin 1" "rnd 100 = PFin 100" "rnd 101 = PFin 101"
  using rnd_double [OF is_double_int [of 1]] rnd_double [OF is_double_int [of 100]]
    rnd_double [OF is_double_int [of 101]] by simp_all

lemma race_put: "emit_step (race_sys ps l p lg inp) (race_sys (ps @ [i]) l p lg (inp @ [i]))"
  using emit_step.put [of "race_sys ps l p lg inp" i] by (simp add: race_sys_def enqueue_def)

lemma race_pass:
  "p t = None \<Longrightarrow> now = PFin 100 \<or> now = PFin 101 \<Longrightarrow>
   emit_step (race_sys ps (PFin 0) p lg inp) (race_sys ps (PFin 0) (p(t \<mapsto> (now, False))) lg inp)"
  using emit_step.pass [of "race_sys ps (PFin 0) p lg inp" t now False]
  by (auto simp: race_sys_def window_closed_def rnd_small)

lemma race_take:
  "p t = Some (now, False) \<Longrightarrow> ps \<noteq> [] \<Longrightarrow>
   emit_step (race_sys ps l p lg inp) (race_sys [] now (p(t := None)) (lg @ [((now, False), ps)]) inp)"
  using emit_step.take [of "race_sys ps l p lg inp" t now False ps] by (simp add: race_sys_def take_batch_def)

lemma race_run:
  "emit_step\<^sup>*\<^sup>* (emit_start (new_builder (PFin 5) None))
     (race_sys [] (PFin 101) Map.empty [((PFin 100, False), [i]), ((PFin 101, False), [j])] [i, j])"
proof -
  let ?p1 = "[0 \<mapsto> (PFin 100, False)] :: nat \<Rightarrow> (pyfloat \<times> bool) option"
  let ?p2 = "?p1(Suc 0 \<mapsto> (PFin 101, False))"
  let ?p3 = "?p2(0 := None)"
  let ?l = "[((PFin 100, False), [i])]"
  have "emit_start (new_builder (PFin 5) None) = race_sys [] (PFin 0) Map.empty [] []"
    by (simp add: emit_start_def new_builder_def bands_or_default_def race_sys_def)
  moreover have "emit_step (race_sys [] (PFin 0) Map.empty [] []) (race_sys [i] (PFin 0) Map.empty [] [i])"
    using race_put [of "[]" "PFin 0" Map.empty "[]" "[]" i] by simp
  moreover have "emit_step (race_sys [i] (PFin 0) Map.empty [] [i]) (race_sys [i] (PFin 0) ?p1 [] [i])"
    by (rule race_pass) simp_all
  moreover have "emit_step (race_sys [i] (PFin 0) ?p1 [] [i]) (race_sys [i] (PFin 0) ?p2 [] [i])"
    by (rule race_pass) simp_all
  moreover have "emit_step (race_sys [i] (PFin 0) ?p2 [] [i]) (race_sys [] (PFin 100) ?p3 ?l [i])"
    using race_take [of ?p2 0 "PFin 100" "[i]" "PFin 0" "[]" "[i]"] by simp
  moreover have "emit_step (race_sys [] (PFin 100) ?p3 ?l [i]) (race_sys [j] (PFin 100) ?p3 ?l [i, j])"
    using race_put [of "[]" "PFin 100" ?p3 ?l "[i]" j] by simp
  moreover have "emit_step (race_sys [j] (PFin 100) ?p3 ?l [i, j])
      (race_sys [] (PFin 101) (?p3(Suc 0 := None)) (?l @ [((PFin 101, False), [j])]) [i, j])"
    by (rule race_take) simp_all
  moreover have "?p3(Suc 0 := None) = Map.empty" by auto
  ultimately show ?thesis by (simp add: converse_rtranclp_into_rtranclp)
qed

section \<open>Properties\<close>

text \<open>
  C13. Threads that share a builder implement the abstract queue: whatever the interleaving of their
  \<open>enqueue\<close> and \<open>emit_batch\<close> calls, every change is a put at the end or a delivery of the whole
  waiting queue, and what was delivered, in order, followed by what waits is what was enqueued.
\<close>

theorem emit_refines_queue:
  assumes "emit_step\<^sup>*\<^sup>* (emit_start b) s"
  shows "queue_step\<^sup>*\<^sup>* \<lparr>q_waiting = ib_pending b, q_delivered = []\<rparr> (queue_abs s)
    \<and> concat (q_delivered (queue_abs s)) @ q_waiting (queue_abs s) = es_input s"
proof
  have "queue_abs (emit_start b) = \<lparr>q_waiting = ib_pending b, q_delivered = []\<rparr>"
    by (simp add: queue_abs_def emit_start_def)
  then show "queue_step\<^sup>*\<^sup>* \<lparr>q_waiting = ib_pending b, q_delivered = []\<rparr> (queue_abs s)"
    using emit_steps_refine [OF assms] by simp
  have "concat (filter (\<lambda>batch. batch \<noteq> []) bs) = concat bs" for bs :: "order_intent list list"
    by (induction bs) simp_all
  then show "concat (q_delivered (queue_abs s)) @ q_waiting (queue_abs s) = es_input s"
    using emit_inv_steps [OF assms emit_inv_start] by (simp add: queue_abs_def emit_inv_def)
qed

definition put_one :: emit_sys where
  "put_one = (let s = emit_start (new_builder (PFin 5) None) in
     s\<lparr>es_builder := snd (enqueue plain_intent (es_builder s)), es_input := es_input s @ [plain_intent]\<rparr>)"

theorem emit_refines_queue_witness:
  "queue_step\<^sup>*\<^sup>* \<lparr>q_waiting = ib_pending (new_builder (PFin 5) None), q_delivered = []\<rparr> (queue_abs put_one)
    \<and> concat (q_delivered (queue_abs put_one)) @ q_waiting (queue_abs put_one) = es_input put_one"
proof (rule emit_refines_queue)
  show "emit_step\<^sup>*\<^sup>* (emit_start (new_builder (PFin 5) None)) put_one"
    unfolding put_one_def Let_def by (intro r_into_rtranclp emit_step.put)
qed

text \<open>
  In one thread the window holds: after a batch went out at \<open>now\<close>, an unforced call whose clock is
  less than the window later returns nothing and changes nothing, whatever was enqueued meanwhile.
\<close>

theorem emit_window_respected:
  assumes "emit_batch (now, force) b = (batch, b')" "batch \<noteq> []" "flt (fsub later now) (ib_emit_window b)"
  shows "emit_batch (later, False) (fold (\<lambda>i b. snd (enqueue i b)) is b') = ([], fold (\<lambda>i b. snd (enqueue i b)) is b')"
proof -
  have b': "ib_last_emit b' = now" "ib_emit_window b' = ib_emit_window b"
    using assms(1,2) by (auto simp: emit_batch_def take_batch_def split: if_splits)
  have "ib_last_emit (fold (\<lambda>i b. snd (enqueue i b)) is b') = ib_last_emit b'
      \<and> ib_emit_window (fold (\<lambda>i b. snd (enqueue i b)) is b') = ib_emit_window b'"
    by (induction "is" arbitrary: b') (simp_all add: enqueue_def)
  then show ?thesis using assms(3) b' by (simp add: emit_batch_def window_closed_def)
qed

theorem emit_window_respected_witness:
  "emit_batch (PFin 101, False) (fold (\<lambda>i b. snd (enqueue i b)) [plain_intent]
     (snd (take_batch (PFin 100) (snd (enqueue plain_intent (new_builder (PFin 5) None))))))
   = ([], fold (\<lambda>i b. snd (enqueue i b)) [plain_intent]
     (snd (take_batch (PFin 100) (snd (enqueue plain_intent (new_builder (PFin 5) None))))))"
proof (rule emit_window_respected)
  show "emit_batch (PFin 100, True) (snd (enqueue plain_intent (new_builder (PFin 5) None))) =
      ([plain_intent], snd (take_batch (PFin 100) (snd (enqueue plain_intent (new_builder (PFin 5) None)))))"
    by (simp add: emit_batch_def window_closed_def take_batch_def enqueue_def new_builder_def)
  have "rnd 1 = PFin 1" using rnd_double [OF is_double_int [of 1]] by simp
  then show "flt (fsub (PFin 101) (PFin 100)) (ib_emit_window (snd (enqueue plain_intent (new_builder (PFin 5) None))))"
    by (simp add: enqueue_def new_builder_def)
qed simp

text \<open>
  C18. With two threads the window does not hold: both can pass the comparison with the clock before
  either takes the lock, and an intent enqueued between the two takes leaves in a second unforced
  batch one second after the first, although the window is five seconds.
\<close>

theorem emit_window_race:
  "\<exists>s. emit_step\<^sup>*\<^sup>* (emit_start (new_builder (PFin 5) None)) s
     \<and> es_log s = [((PFin 100, False), [i]), ((PFin 101, False), [j])]
     \<and> flt (fsub (PFin 101) (PFin 100)) (ib_emit_window (es_builder s))"
  by (rule exI, intro conjI, rule race_run) (simp_all add: race_sys_def rnd_small)

end
