(* ===== verification/Intent_Verifier.thy ===== *)
theory Intent_Verifier
  imports Intent_Queue Replay "HOL-Library.Sublist"
begin

text \<open>
  \<^verbatim>\<open>IntentVerifier\<close> of \<^verbatim>\<open>src/src/signed_order_intent.py\<close>, the executor's check of incoming
  intents: expiry, key hash, replay, signature, in this order. The set of seen identifiers
  interprets the locale \<open>keeping_guard\<close>. Verification returns the outcome and the verifier's state;
  a reason carries the values the code formats into its text. The lemmas state when an intent is
  accepted, that the float arithmetic of the freshness test is exact on real clocks, and that no
  identifier is accepted twice; the order of the checks has a price that \<open>forged_blocks\<close> states.
\<close>

section \<open>The verifier\<close>

datatype reason =
    ROk
  | RExpired pyfloat pyfloat
  | RFuture int int
  | RKeyHash
  | RReplayed string
  | RSignature

record intent_verifier =
  iv_pubkey :: bytes
  iv_pubkey_hash :: string
  iv_max_age :: pyfloat
  iv_seen :: "string set"

definition new_verifier :: "bytes \<Rightarrow> pyfloat \<Rightarrow> intent_verifier" where
  "new_verifier pk max_age =
     \<lparr>iv_pubkey = pk, iv_pubkey_hash = sha256_hex pk, iv_max_age = max_age, iv_seen = {}\<rparr>"

text \<open>The part of \<^verbatim>\<open>verify\<close> under the lock: refuse what was seen, remember the rest.\<close>

definition seen_check :: "string \<Rightarrow> string set \<Rightarrow> bool \<times> string set" where
  "seen_check iid seen = (if iid \<in> seen then (False, seen) else (True, insert iid seen))"

interpretation seeng: keeping_guard seen_check "\<lambda>s. s" finite
  by unfold_locales (auto simp: seen_check_def)

definition verify :: "crypto \<Rightarrow> pyfloat \<Rightarrow> intent_verifier \<Rightarrow> order_intent \<Rightarrow> (bool \<times> reason) res \<times> intent_verifier" where
  "verify c now v intent =
     (case float_of_int (oi_timestamp intent) of
        Inl e \<Rightarrow> (Inl e, v)
      | Inr ts \<Rightarrow>
         (let age = fsub now ts in
          if flt (iv_max_age v) age then (Inr (False, RExpired age (iv_max_age v)), v)
          else if flt_int age (- 60)
            then (bind_res (int_of_float now) (\<lambda>n. Inr (False, RFuture (oi_timestamp intent) n)), v)
          else if oi_public_key_hash intent \<noteq> iv_pubkey_hash v then (Inr (False, RKeyHash), v)
          else
            (case seen_check (oi_intent_id intent) (iv_seen v) of (fresh, seen) \<Rightarrow>
               if \<not> fresh then (Inr (False, RReplayed (oi_intent_id intent)), v)
               else
                 (let v' = v\<lparr>iv_seen := seen\<rparr> in
                  (bind_res (verify_intent c intent (iv_pubkey v))
                     (\<lambda>ok. Inr (if ok then (True, ROk) else (False, RSignature))), v')))))"

definition clear_seen :: "intent_verifier \<Rightarrow> intent_verifier" where
  "clear_seen v = v\<lparr>iv_seen := {}\<rparr>"

definition seen_count :: "intent_verifier \<Rightarrow> nat" where
  "seen_count v = card (iv_seen v)"

definition from_hex_key :: "string \<Rightarrow> pyfloat \<Rightarrow> intent_verifier res" where
  "from_hex_key pubkey_hex max_age = bind_res (fromhex pubkey_hex) (\<lambda>pk. Inr (new_verifier pk max_age))"

text \<open>The argument is what reading the file gives.\<close>

definition from_key_file :: "string res \<Rightarrow> pyfloat \<Rightarrow> intent_verifier res" where
  "from_key_file contents max_age = bind_res contents (\<lambda>text. from_hex_key (py_strip text) max_age)"

section \<open>What acceptance means\<close>

abbreviation accepts :: "crypto \<Rightarrow> pyfloat \<Rightarrow> intent_verifier \<Rightarrow> order_intent \<Rightarrow> bool" where
  "accepts c now v i \<equiv> fst (verify c now v i) = Inr (True, ROk)"

text \<open>The freshness test alone.\<close>

definition fresh_at :: "pyfloat \<Rightarrow> pyfloat \<Rightarrow> int \<Rightarrow> bool" where
  "fresh_at max_age now timestamp \<longleftrightarrow>
     (case float_of_int timestamp of
        Inl e \<Rightarrow> False
      | Inr ts \<Rightarrow> \<not> flt max_age (fsub now ts) \<and> \<not> flt_int (fsub now ts) (- 60))"

lemma verify_fresh:
  assumes "fresh_at (iv_max_age v) now (oi_timestamp i)" "oi_public_key_hash i = iv_pubkey_hash v"
  shows "verify c now v i =
    (if oi_intent_id i \<in> iv_seen v then (Inr (False, RReplayed (oi_intent_id i)), v)
     else (bind_res (verify_intent c i (iv_pubkey v)) (\<lambda>ok. Inr (if ok then (True, ROk) else (False, RSignature))),
           v\<lparr>iv_seen := insert (oi_intent_id i) (iv_seen v)\<rparr>))"
  using assms by (auto simp: verify_def fresh_at_def seen_check_def Let_def split: sum.splits)

lemma verify_stale:
  assumes "\<not> (fresh_at (iv_max_age v) now (oi_timestamp i) \<and> oi_public_key_hash i = iv_pubkey_hash v)"
  shows "snd (verify c now v i) = v \<and> fst (verify c now v i) \<noteq> Inr (True, ROk)"
  using assms by (auto simp: verify_def fresh_at_def Let_def bind_res_Inr split: sum.splits)

lemma verify_accepts_iff:
  "accepts c now v i \<longleftrightarrow>
     fresh_at (iv_max_age v) now (oi_timestamp i) \<and> oi_public_key_hash i = iv_pubkey_hash v
     \<and> oi_intent_id i \<notin> iv_seen v \<and> verify_intent c i (iv_pubkey v) = Inr True"
proof (cases "fresh_at (iv_max_age v) now (oi_timestamp i) \<and> oi_public_key_hash i = iv_pubkey_hash v")
  case True
  then show ?thesis by (auto simp: verify_fresh bind_res_Inr)
next
  case False
  then show ?thesis using verify_stale by blast
qed

text \<open>What a verification changes: at most one identifier is added to the seen set.\<close>

lemma verify_state:
  "snd (verify c now v i) = v \<or>
   oi_intent_id i \<notin> iv_seen v \<and> snd (verify c now v i) = v\<lparr>iv_seen := insert (oi_intent_id i) (iv_seen v)\<rparr>"
proof (cases "fresh_at (iv_max_age v) now (oi_timestamp i) \<and> oi_public_key_hash i = iv_pubkey_hash v")
  case True
  then show ?thesis by (simp add: verify_fresh)
next
  case False
  then show ?thesis using verify_stale by blast
qed

lemma verify_accept_state:
  "accepts c now v i \<Longrightarrow> snd (verify c now v i) = v\<lparr>iv_seen := insert (oi_intent_id i) (iv_seen v)\<rparr>"
  by (simp add: verify_accepts_iff verify_fresh)

section \<open>Runs\<close>

datatype vevent = VVerify pyfloat order_intent | VClear

text \<open>The intents a run accepts, in order, and the state it leaves.\<close>

fun vrun :: "crypto \<Rightarrow> vevent list \<Rightarrow> intent_verifier \<Rightarrow> order_intent list \<times> intent_verifier" where
  "vrun c [] v = ([], v)"
| "vrun c (VClear # evs) v = vrun c evs (clear_seen v)"
| "vrun c (VVerify now i # evs) v =
     (case vrun c evs (snd (verify c now v i)) of (acc, v') \<Rightarrow>
        ((if fst (verify c now v i) = Inr (True, ROk) then [i] else []) @ acc, v'))"

definition is_clear :: "vevent \<Rightarrow> bool" where
  "is_clear e \<longleftrightarrow> (case e of VClear \<Rightarrow> True | VVerify now i \<Rightarrow> False)"

lemma is_clear_simps [simp]: "is_clear VClear" "\<not> is_clear (VVerify now i)"
  by (simp_all add: is_clear_def)

lemma vrun_guarded:
  "list_all (\<lambda>e. \<not> is_clear e) evs \<Longrightarrow>
   \<exists>ks. subseq (map oi_intent_id (fst (vrun c evs v))) (accepted seen_check (iv_seen v) ks)"
proof (induction evs arbitrary: v)
  case (Cons e evs)
  then obtain now i where e: "e = VVerify now i" by (cases e) auto
  let ?v = "snd (verify c now v i)"
  obtain ks where ks: "subseq (map oi_intent_id (fst (vrun c evs ?v))) (accepted seen_check (iv_seen ?v) ks)"
    using Cons by auto
  show ?case
  proof (cases "?v = v")
    case True
    have "\<not> accepts c now v i"
    proof
      assume a: "accepts c now v i"
      then have "iv_seen ?v = insert (oi_intent_id i) (iv_seen v)" by (simp add: verify_accept_state)
      with a True show False by (auto simp: verify_accepts_iff)
    qed
    then show ?thesis using ks True e by (auto split: prod.splits)
  next
    case False
    then have "oi_intent_id i \<notin> iv_seen v" "iv_seen ?v = insert (oi_intent_id i) (iv_seen v)"
      using verify_state [of c now v i] by auto
    then have "accepted seen_check (iv_seen v) (oi_intent_id i # ks)
        = oi_intent_id i # accepted seen_check (iv_seen ?v) ks"
      by (simp add: seen_check_def)
    then show ?thesis using ks e by (intro exI [of _ "oi_intent_id i # ks"]) (auto split: prod.splits)
  qed
qed simp

lemma subseq_distinct: "subseq xs ys \<Longrightarrow> distinct ys \<Longrightarrow> distinct xs \<and> set xs \<subseteq> set ys"
  by (induction rule: list_emb.induct) auto

lemma vrun_distinct:
  assumes "list_all (\<lambda>e. \<not> is_clear e) evs"
  shows "distinct (map oi_intent_id (fst (vrun c evs v)))
    \<and> oi_intent_id ` set (fst (vrun c evs v)) \<inter> iv_seen v = {}"
proof -
  obtain ks where "subseq (map oi_intent_id (fst (vrun c evs v))) (accepted seen_check (iv_seen v) ks)"
    using vrun_guarded [OF assms] by blast
  then have "distinct (map oi_intent_id (fst (vrun c evs v)))
      \<and> set (map oi_intent_id (fst (vrun c evs v))) \<subseteq> set (accepted seen_check (iv_seen v) ks)"
    using seeng.accepted_distinct by (intro subseq_distinct) auto
  then show ?thesis using seeng.accepted_distinct [of "iv_seen v" ks] by auto
qed

section \<open>The freshness test on real clocks\<close>

lemma rnd_large:
  assumes "is_double n" "0 < n" "n \<le> \<bar>d\<bar>" "\<bar>d\<bar> \<le> pow2 60"
  obtains v where "n \<le> v" "rnd d = PFin (if d < 0 then - v else v)"
proof -
  have "rmag \<bar>d\<bar> \<le> pow2 60" using assms by (intro rmag_le_pow2) linarith+
  also have "\<dots> < pow2 1024" by simp
  finally have "rmag \<bar>d\<bar> < pow2 1024" .
  moreover have "n \<le> rmag \<bar>d\<bar>" using rmag_mono [of n "\<bar>d\<bar>"] assms by (simp add: is_double_def)
  moreover have "0 < rmag \<bar>d\<bar>" using calculation(2) assms(2) by linarith
  ultimately show ?thesis by (intro that [of "rmag \<bar>d\<bar>"]) (simp_all add: rnd_def Let_def)
qed

text \<open>The difference of a clock value and an integer near it is computed without rounding.\<close>

lemma age_near:
  assumes "is_double n" "0 < n" "n < pow2 52" "\<bar>n - of_int ts\<bar> \<le> n"
  shows "fsub (PFin n) (PFin (of_int ts)) = PFin (n - of_int ts)"
proof -
  obtain q where q: "n = of_int q * ulp n" using is_doubleD assms(1,2) by blast
  have "ilog2 n < 52" using assms(2,3) by (rule ilog2_less)
  then obtain m where m: "pow2 0 = of_int m * ulp n"
    using pow2_multiple [of "max (ilog2 n) (- 1022) - 52" 0] by (auto simp: ulp_def)
  then have "of_int ts = of_int (ts * m) * ulp n" by simp
  then have "n - of_int ts = of_int (q - ts * m) * ulp n" using q by (simp add: left_diff_distrib)
  then have "\<bar>n - of_int ts\<bar> = of_int \<bar>q - ts * m\<bar> * ulp n" by (simp add: abs_mult less_imp_le)
  then have "rmag \<bar>n - of_int ts\<bar> = \<bar>n - of_int ts\<bar>"
    using assms(4) by (intro rmag_multiple [OF assms(2), of _ "\<bar>q - ts * m\<bar>"]) simp_all
  moreover have "\<bar>n - of_int ts\<bar> < pow2 1024"
    using assms(3,4) pow2_less [of 52 1024] by linarith
  ultimately show ?thesis by (simp add: rnd_exact)
qed

lemma age_exact:
  assumes "is_double n" "60 < n" "n < pow2 52" "\<bar>ts\<bar> \<le> 2 ^ 53" "0 \<le> m" "m < n \<or> 0 \<le> ts"
  shows "flt (PFin m) (fsub (PFin n) (PFin (of_int ts))) \<longleftrightarrow> m < n - of_int ts"
    and "flt_int (fsub (PFin n) (PFin (of_int ts))) (- 60) \<longleftrightarrow> n - of_int ts < - 60"
proof -
  define d where "d = n - of_int ts"
  have "\<bar>of_int ts :: rat\<bar> \<le> of_int (2 ^ 53)" using assms(4) by (metis of_int_abs of_int_le_iff)
  then have d60: "\<bar>d\<bar> \<le> pow2 60" using assms(2,3) by (simp add: d_def pow2_def abs_le_iff)
  have far: "m < n \<or> d \<le> n" using assms(6) by (auto simp: d_def)
  show "flt (PFin m) (fsub (PFin n) (PFin (of_int ts))) \<longleftrightarrow> m < n - of_int ts"
    and "flt_int (fsub (PFin n) (PFin (of_int ts))) (- 60) \<longleftrightarrow> n - of_int ts < - 60"
    unfolding d_def [symmetric]
  proof (atomize (full), cases "\<bar>d\<bar> \<le> n")
    case True
    then have "fsub (PFin n) (PFin (of_int ts)) = PFin d" using assms age_near by (simp add: d_def)
    then show "flt (PFin m) (fsub (PFin n) (PFin (of_int ts))) = (m < d) \<and>
        flt_int (fsub (PFin n) (PFin (of_int ts))) (- 60) = (d < - 60)"
      by (simp add: flt_int_def del: fsub.simps)
  next
    case False
    then obtain v where v: "n \<le> v" "rnd d = PFin (if d < 0 then - v else v)"
      using assms(2) d60 rnd_large [OF assms(1), of d] by auto
    then show "flt (PFin m) (fsub (PFin n) (PFin (of_int ts))) = (m < d) \<and>
        flt_int (fsub (PFin n) (PFin (of_int ts))) (- 60) = (d < - 60)"
      using far assms(2,5) False by (auto simp: flt_int_def d_def [symmetric])
  qed
qed

section \<open>From the builder to the executor\<close>

lemma from_key_file_public:
  "from_key_file (Inr (public_key_hex key)) max_age = Inr (new_verifier (public_key_bytes key) max_age)"
  by (simp add: from_key_file_def from_hex_key_def public_key_hex_def public_key_bytes_def hex_encode_strip hexc.dec_enc)

text \<open>A built intent passes every check but freshness and replay.\<close>

lemma built_verifies:
  assumes "ed25519_correct c"
    and "build c (new_signing_key c seed) b symbol side raw stop target timestamp now0 random = Inr i"
  shows "verify_intent c i (ed25519_public c seed) = Inr True"
    and "oi_public_key_hash i = sha256_hex (ed25519_public c seed)" and "oi_intent_id i = hex_encode random"
    and "oi_signature i = hex_encode (ed25519_sign c seed (serialize_for_signing i))"
proof -
  obtain banded ts s where s: "key_sign c (new_signing_key c seed) (serialize_for_signing i) = Inr s"
      and i: "i = built (new_signing_key c seed) symbol side banded stop target ts random s"
    using build_Inr [OF assms(2)] by metis
  have "s = ed25519_sign c seed (serialize_for_signing i)" using s by (simp add: key_sign_def new_signing_key_def)
  then show "oi_signature i = hex_encode (ed25519_sign c seed (serialize_for_signing i))" by (simp add: i built_def)
  then show "verify_intent c i (ed25519_public c seed) = Inr True" by (rule verify_intent_signed [OF assms(1)])
  show "oi_public_key_hash i = sha256_hex (ed25519_public c seed)" "oi_intent_id i = hex_encode random"
    by (simp_all add: i built_def public_key_hash_def new_signing_key_def)
qed

lemma built_all_floats:
  "build c key b symbol side raw (PyFloat stop) (PyFloat target) timestamp now0 random = Inr i \<Longrightarrow> all_floats i"
  by (erule build_Inr) (simp add: all_floats_def built_def)

section \<open>Properties\<close>

text \<open>A concrete intent of a builder with the sample cryptography, and the verifier for its key.\<close>

definition sample_key :: signing_key where
  "sample_key = new_signing_key sample_crypto [1]"

definition sample_pk :: bytes where
  "sample_pk = ed25519_public sample_crypto [1]"

definition sample_built :: "string \<Rightarrow> order_intent" where
  "sample_built symbol =
     (let i = built sample_key symbol 1 (PFin (1 / 2)) (PyFloat (PFin 0)) (PyFloat (PFin 0)) 1000 [2]
      in i (ed25519_sign sample_crypto [1] (serialize_for_signing (i []))))"

definition sample_verifier :: intent_verifier where
  "sample_verifier = new_verifier sample_pk (PFin 300)"

lemma sample_build:
  "build sample_crypto sample_key (new_builder (PFin 5) None) symbol 1 (PyInt 0) (PyFloat (PFin 0)) (PyFloat (PFin 0))
     (Some 1000) (PFin 1000) [2] = Inr (sample_built symbol)"
proof -
  have "coarse_band (PyInt 0) (Some POWER_OF_TWO_BANDS) = Inr (PFin (1 / 2))"
    by (simp add: coarse_band_def bands_or_default_def POWER_OF_TWO_BANDS_def)
  then show ?thesis
    by (simp add: build_eq new_builder_def bands_or_default_def sample_built_def Let_def)
       (simp add: key_sign_def sample_key_def new_signing_key_def)
qed

lemma fresh_exact:
  assumes "is_double n" "60 < n" "n < pow2 52" "\<bar>ts\<bar> \<le> 2 ^ 53" "0 \<le> m" "m < n \<or> 0 \<le> ts"
  shows "fresh_at (PFin m) (PFin n) ts \<longleftrightarrow> - 60 \<le> n - of_int ts \<and> n - of_int ts \<le> m"
  using age_exact [OF assms] by (auto simp: fresh_at_def float_of_int_exact [OF assms(4)] simp del: fsub.simps)

lemma sample_fresh: "fresh_at (PFin 300) (PFin 1000) 1000"
  using fresh_exact [of 1000 1000 300] is_double_int [of 1000] by (simp add: pow2_def)

lemma sample_parts [simp]:
  "oi_timestamp (sample_built symbol) = 1000" "oi_symbol (sample_built symbol) = symbol"
  "oi_intent_id (sample_built symbol) = hex_encode [2]"
  "oi_public_key_hash (sample_built symbol) = sha256_hex sample_pk"
  "iv_max_age sample_verifier = PFin 300" "iv_pubkey sample_verifier = sample_pk"
  "iv_pubkey_hash sample_verifier = sha256_hex sample_pk" "iv_seen sample_verifier = {}"
  by (simp_all add: sample_built_def built_def Let_def sample_verifier_def new_verifier_def sample_key_def
      new_signing_key_def public_key_hash_def sample_pk_def)

lemma sample_accepts: "accepts sample_crypto (PFin 1000) sample_verifier (sample_built symbol)"
  using built_verifies(1) [OF sample_ed25519 sample_build [of symbol, unfolded sample_key_def]] sample_fresh
  by (simp add: verify_accepts_iff sample_pk_def)

text \<open>
  C11. The verifier accepts exactly the intents that are fresh, name its key's hash, have an
  identifier it has not seen and carry a signature of the signed fields under its key.
\<close>

theorem verifier_accepts_iff:
  "fst (verify c now v i) = Inr (True, ROk) \<longleftrightarrow>
     fresh_at (iv_max_age v) now (oi_timestamp i) \<and> oi_public_key_hash i = iv_pubkey_hash v \<and> oi_intent_id i \<notin> iv_seen v
     \<and> (\<exists>key s. ed25519_load c (iv_pubkey v) = Inr key \<and> fromhex (oi_signature i) = Inr s
          \<and> ed25519_verify c key s (serialize_for_signing i) = Inr ())"
  by (simp add: verify_accepts_iff verify_intent_True)

text \<open>
  C14. Between two resets of the session no identifier is accepted twice, nor one that the verifier
  had seen before, in any sequence of verifications at any clock readings.
\<close>

theorem verifier_no_double:
  assumes "list_all (\<lambda>e. \<not> is_clear e) evs"
  shows "distinct (map oi_intent_id (fst (vrun c evs v))) \<and> oi_intent_id ` set (fst (vrun c evs v)) \<inter> iv_seen v = {}"
  using assms by (rule vrun_distinct)

theorem verifier_no_double_witness:
  "distinct (map oi_intent_id (fst (vrun sample_crypto
     [VVerify (PFin 1000) (sample_built ''X''), VVerify (PFin 1000) (sample_built ''X'')] sample_verifier)))
   \<and> oi_intent_id ` set (fst (vrun sample_crypto
     [VVerify (PFin 1000) (sample_built ''X''), VVerify (PFin 1000) (sample_built ''X'')] sample_verifier))
     \<inter> iv_seen sample_verifier = {}
   \<and> set (fst (vrun sample_crypto [VVerify (PFin 1000) (sample_built ''X'')] sample_verifier)) = {sample_built ''X''}"
  using verifier_no_double [of "[VVerify (PFin 1000) (sample_built ''X''), VVerify (PFin 1000) (sample_built ''X'')]"
      sample_crypto sample_verifier] sample_accepts [of "''X''"] by simp

text \<open>
  C12. Builder, wire format and executor fit together: an intent built with a live key and float
  prices comes back from its JSON text unchanged, is accepted by a verifier for that key
  while it is fresh and its identifier is new, and is refused from then on.
\<close>

theorem intent_end_to_end:
  assumes "ed25519_correct c"
    and "build c (new_signing_key c seed) b symbol side raw (PyFloat stop) (PyFloat target) timestamp now0 random = Inr i"
    and "iv_pubkey v = ed25519_public c seed" "iv_pubkey_hash v = sha256_hex (ed25519_public c seed)"
    and "list_all float_wf (ib_bands b)" "float_wf stop" "float_wf target"
    and "fresh_at (iv_max_age v) now (oi_timestamp i)" "hex_encode random \<notin> iv_seen v"
  shows "from_json (to_json i) = Inr i \<and> fst (verify c now v i) = Inr (True, ROk)
    \<and> fst (verify c later (snd (verify c now v i)) i) \<noteq> Inr (True, ROk)"
proof -
  note v = built_verifies [OF assms(1,2)]
  have a: "accepts c now v i" using assms v by (simp add: verify_accepts_iff)
  then have "\<not> accepts c later (snd (verify c now v i)) i"
    by (subst verify_accepts_iff) (simp add: verify_accept_state)
  then show ?thesis using a from_json_roundtrip built_all_floats [OF assms(2)] built_wf [OF assms(2,5-7)] by blast
qed

theorem intent_end_to_end_witness:
  "from_json (to_json (sample_built ''X'')) = Inr (sample_built ''X'')
   \<and> fst (verify sample_crypto (PFin 1000) sample_verifier (sample_built ''X'')) = Inr (True, ROk)
   \<and> fst (verify sample_crypto (PFin 1001) (snd (verify sample_crypto (PFin 1000) sample_verifier (sample_built ''X'')))
       (sample_built ''X'')) \<noteq> Inr (True, ROk)"
  by (rule intent_end_to_end [OF sample_ed25519 sample_build [unfolded sample_key_def]])
     (use is_double_int [of 0] in \<open>simp_all add: sample_fresh sample_pk_def [symmetric] new_builder_def bands_or_default_def bands_wf\<close>)

text \<open>
  C33. The freshness window is exact: for a clock value between 60 and \<open>2\<^sup>5\<^sup>2\<close> seconds after the epoch, an
  integer timestamp of up to 53 bits and any finite maximum age that is not negative (and below the
  clock value, should the timestamp be negative), the float comparison refuses an intent as expired
  exactly when it is older than the maximum age, and as future exactly when it is more than 60
  seconds ahead.
\<close>

theorem freshness_window_exact:
  assumes "is_double n" "60 < n" "n < 2 ^ 52" "\<bar>oi_timestamp i\<bar> \<le> 2 ^ 53" "iv_max_age v = PFin m" "0 \<le> m"
    and "m < n \<or> 0 \<le> oi_timestamp i"
  shows "(fst (verify c (PFin n) v i) = Inr (False, RExpired (fsub (PFin n) (PFin (of_int (oi_timestamp i)))) (PFin m))
          \<longleftrightarrow> of_int (oi_timestamp i) + m < n)
    \<and> (fst (verify c (PFin n) v i) = Inr (False, RFuture (oi_timestamp i) \<lfloor>n\<rfloor>) \<longleftrightarrow> n < of_int (oi_timestamp i) - 60)"
proof -
  have "n < pow2 52" using assms(3) by (simp add: pow2_def)
  note a = age_exact [OF assms(1,2) this assms(4,6,7)]
  have "fst (verify c (PFin n) v i) = Inr (False, RExpired (fsub (PFin n) (PFin (of_int (oi_timestamp i)))) (PFin m))
      \<longleftrightarrow> flt (PFin m) (fsub (PFin n) (PFin (of_int (oi_timestamp i))))"
    using assms(5) by (auto simp: verify_def float_of_int_exact [OF assms(4)] Let_def bind_res_Inr simp del: fsub.simps
        split: prod.splits if_splits)
  moreover have "fst (verify c (PFin n) v i) = Inr (False, RFuture (oi_timestamp i) \<lfloor>n\<rfloor>) \<longleftrightarrow>
      \<not> flt (PFin m) (fsub (PFin n) (PFin (of_int (oi_timestamp i))))
      \<and> flt_int (fsub (PFin n) (PFin (of_int (oi_timestamp i)))) (- 60)"
    using assms(2,5) by (auto simp: verify_def float_of_int_exact [OF assms(4)] Let_def bind_res_Inr simp del: fsub.simps
        split: prod.splits if_splits)
  ultimately show ?thesis using a assms(6) by auto
qed

theorem freshness_window_exact_witness:
  "(fst (verify sample_crypto (PFin 5000) (sample_verifier\<lparr>iv_max_age := PFin 3600\<rparr>) (sample_built ''X'')) =
      Inr (False, RExpired (fsub (PFin 5000) (PFin (of_int (oi_timestamp (sample_built ''X''))))) (PFin 3600))
      \<longleftrightarrow> of_int (oi_timestamp (sample_built ''X'')) + 3600 < (5000 :: rat))
   \<and> (fst (verify sample_crypto (PFin 5000) (sample_verifier\<lparr>iv_max_age := PFin 3600\<rparr>) (sample_built ''X'')) =
      Inr (False, RFuture (oi_timestamp (sample_built ''X'')) \<lfloor>5000 :: rat\<rfloor>)
      \<longleftrightarrow> (5000 :: rat) < of_int (oi_timestamp (sample_built ''X'')) - 60)"
  by (rule freshness_window_exact) (use is_double_int [of 5000] in simp_all)

text \<open>
  C17. A forged intent blocks an honest one: an intent with the identifier and key hash of an honest
  intent and a worthless signature is refused, but its identifier is recorded before the signature
  is looked at, and the honest intent, which would have been accepted, is refused as a replay.
\<close>

theorem forged_blocks_honest:
  assumes "fst (verify c now' v honest) = Inr (True, ROk)"
    and "oi_intent_id forged = oi_intent_id honest" "oi_public_key_hash forged = oi_public_key_hash honest"
    and "fresh_at (iv_max_age v) now (oi_timestamp forged)" "verify_intent c forged (iv_pubkey v) = Inr False"
  shows "fst (verify c now v forged) = Inr (False, RSignature)
    \<and> fst (verify c now' (snd (verify c now v forged)) honest) = Inr (False, RReplayed (oi_intent_id honest))"
proof -
  have h: "fresh_at (iv_max_age v) now' (oi_timestamp honest)" "oi_public_key_hash honest = iv_pubkey_hash v"
      "oi_intent_id honest \<notin> iv_seen v"
    using assms(1) by (simp_all add: verify_accepts_iff)
  then have f: "verify c now v forged = (Inr (False, RSignature), v\<lparr>iv_seen := insert (oi_intent_id honest) (iv_seen v)\<rparr>)"
    using assms by (simp add: verify_fresh)
  then show ?thesis using h by (simp add: verify_fresh)
qed

theorem forged_blocks_honest_witness:
  "fst (verify sample_crypto (PFin 1000) sample_verifier (sample_built ''X''\<lparr>oi_signature := ''00''\<rparr>)) = Inr (False, RSignature)
   \<and> fst (verify sample_crypto (PFin 1000)
        (snd (verify sample_crypto (PFin 1000) sample_verifier (sample_built ''X''\<lparr>oi_signature := ''00''\<rparr>))) (sample_built ''X''))
      = Inr (False, RReplayed (oi_intent_id (sample_built ''X'')))"
proof (rule forged_blocks_honest [OF sample_accepts])
  have "fromhex ''00'' = Inr [0]" by code_simp
  moreover have "ed25519_load sample_crypto sample_pk = Inr sample_pk" "length sample_pk = 32"
    by (simp_all add: sample_crypto_def sample_pk_def)
  moreover have "ed25519_verify sample_crypto sample_pk [0] m = Inl InvalidSignature" for m
  proof -
    have "length [0 :: byte] \<noteq> length (sample_pk @ fit 32 m)" using \<open>length sample_pk = 32\<close> by simp
    then have "[0] \<noteq> sample_pk @ fit 32 m" by metis
    then show ?thesis by (simp add: sample_crypto_def)
  qed
  ultimately show "verify_intent sample_crypto (sample_built ''X''\<lparr>oi_signature := ''00''\<rparr>) (iv_pubkey sample_verifier) = Inr False"
    by (simp add: verify_intent_def del: fromhex.simps)
qed (simp_all add: sample_fresh)

text \<open>
  C35. A separator in the symbol defeats the replay check: from an accepted intent for the symbol
  \<open>a|b\<close> anyone can make, by moving \<open>a\<close> into the identifier, an intent for the symbol \<open>b\<close> with the same
  signature and a new identifier, and the verifier accepts it as well.
\<close>

theorem pipe_symbol_double_use:
  assumes "fst (verify c now v i) = Inr (True, ROk)" "oi_symbol i = a @ ''|'' @ b"
    and "oi_intent_id i @ ''|'' @ a \<notin> iv_seen v"
  shows "fst (verify c now (snd (verify c now v i)) (i\<lparr>oi_intent_id := oi_intent_id i @ ''|'' @ a, oi_symbol := b\<rparr>))
    = Inr (True, ROk)"
proof -
  have "serialize_for_signing (i\<lparr>oi_intent_id := oi_intent_id i @ ''|'' @ a, oi_symbol := b\<rparr>) = serialize_for_signing i"
    using assms(2) by (simp add: serialize_for_signing_def serialize_parts_def)
  then show ?thesis
    using assms by (subst verify_accepts_iff)
      (auto simp: verify_accept_state verify_intent_True verify_accepts_iff)
qed

theorem pipe_symbol_double_use_witness:
  "fst (verify sample_crypto (PFin 1000) (snd (verify sample_crypto (PFin 1000) sample_verifier (sample_built ''A|B'')))
     (sample_built ''A|B''\<lparr>oi_intent_id := oi_intent_id (sample_built ''A|B'') @ ''|'' @ ''A'', oi_symbol := ''B''\<rparr>))
   = Inr (True, ROk)"
  by (rule pipe_symbol_double_use [OF sample_accepts]) simp_all

text \<open>
  A timestamp beyond the range of a float makes the verifier raise \<^verbatim>\<open>OverflowError\<close> instead of
  returning a verdict; its state is unchanged.
\<close>

theorem huge_timestamp_raises:
  assumes "2 ^ 1024 \<le> oi_timestamp i" shows "verify c now v i = (Inl OverflowError, v)"
  using assms by (simp add: verify_def float_of_int_overflow)

theorem huge_timestamp_raises_witness:
  "verify sample_crypto (PFin 1000) sample_verifier (sample_built ''X''\<lparr>oi_timestamp := 2 ^ 1024\<rparr>)
   = (Inl OverflowError, sample_verifier)"
  by (rule huge_timestamp_raises) simp

end
