(* ===== verification/Intent_Demo.thy ===== *)
theory Intent_Demo
  imports Intent_Verifier
begin

text \<open>
  \<^verbatim>\<open>main\<close> of \<^verbatim>\<open>src/src/signed_order_intent.py\<close>: the scenario that runs key, builder, queue,
  verifier and wire format against each other. Printing is left out; the record \<open>demo_result\<close> holds
  the values that are printed. The clock is a sequence of readings, one per call, and the random
  identifiers are a sequence of byte strings.
\<close>

section \<open>The scenario\<close>

definition raw_sizes :: "pyfloat list" where
  "raw_sizes = map rnd [87 / 100, 123 / 100, 21 / 10, 376 / 100, 55 / 10, 71 / 10]"

text \<open>Step 2: build and enqueue one intent per raw size; \<open>i\<close> is the loop index.\<close>

fun demo_build :: "crypto \<Rightarrow> signing_key \<Rightarrow> (nat \<Rightarrow> pyfloat) \<Rightarrow> (nat \<Rightarrow> bytes) \<Rightarrow> nat \<Rightarrow> pyfloat list
    \<Rightarrow> intent_builder \<Rightarrow> intent_builder res" where
  "demo_build c key clk rands i [] b = Inr b"
| "demo_build c key clk rands i (raw_size # sizes) b =
     bind_res (build c key b ''BTCUSDT'' (if i mod 2 = 0 then 1 else - 1) (PyFloat raw_size)
         (PyFloat (fadd (PFin 59000) (PFin (of_nat (i * 200))))) (PyFloat (fadd (PFin 61000) (PFin (of_nat (i * 200)))))
         None (clk i) (rands i)) (\<lambda>intent.
       demo_build c key clk rands (Suc i) sizes (snd (enqueue intent b)))"

text \<open>Step 4: verify the batch; \<open>k\<close> counts the clock readings.\<close>

fun demo_verify :: "crypto \<Rightarrow> (nat \<Rightarrow> pyfloat) \<Rightarrow> nat \<Rightarrow> order_intent list \<Rightarrow> intent_verifier
    \<Rightarrow> ((bool \<times> reason) list \<times> intent_verifier) res" where
  "demo_verify c clk k [] v = Inr ([], v)"
| "demo_verify c clk k (intent # rest) v =
     (case verify c (clk k) v intent of (r, v') \<Rightarrow>
        bind_res r (\<lambda>verdict.
        bind_res (demo_verify c clk (Suc k) rest v') (\<lambda>(verdicts, v'').
          Inr (verdict # verdicts, v''))))"

definition tampered_intent :: "signing_key \<Rightarrow> int \<Rightarrow> bytes \<Rightarrow> order_intent \<Rightarrow> order_intent" where
  "tampered_intent key ts random victim =
     \<lparr>oi_symbol = ''BTCUSDT'', oi_side = 1, oi_size = PyFloat (PFin 8), oi_stop_price = PyFloat (PFin 58000),
      oi_target_price = PyFloat (PFin 65000), oi_timestamp = ts, oi_intent_id = new_nonce random,
      oi_public_key_hash = public_key_hash key, oi_signature = oi_signature victim\<rparr>"

text \<open>Step 7: the attempt to sign after zeroization; \<open>True\<close> is the expected exception.\<close>

definition sign_refused :: "crypto \<Rightarrow> signing_key \<Rightarrow> bool res" where
  "sign_refused c key =
     (case key_sign c key (encode ''test'') of
        Inr s \<Rightarrow> Inr False
      | Inl e \<Rightarrow> (case e of RuntimeError m \<Rightarrow> Inr True | _ \<Rightarrow> Inl e))"

record demo_result =
  d_pending :: "order_intent list"
  d_verdicts :: "(bool \<times> reason) list"
  d_seen :: nat
  d_replay :: "bool \<times> reason"
  d_tampered :: "bool \<times> reason"
  d_sign_refused :: bool
  d_restored :: order_intent
  d_round_trip :: "bool \<times> reason"
  d_all_valid :: bool
  d_replay_blocked :: bool

text \<open>Readings 0 to 5 are taken by \<open>build\<close>, 6 by \<open>emit_batch\<close>, the rest in order from 7 on.\<close>

definition intent_main :: "crypto \<Rightarrow> bytes \<Rightarrow> (nat \<Rightarrow> bytes) \<Rightarrow> (nat \<Rightarrow> pyfloat) \<Rightarrow> (string \<Rightarrow> unit res)
    \<Rightarrow> demo_result res" where
  "intent_main c seed rands clk write_text =
     (let key = new_signing_key c seed in
      bind_res (demo_build c key clk rands 0 raw_sizes (new_builder (PFin 5) None)) (\<lambda>builder.
      let pending = fst (emit_batch (clk 6, True) builder);
          verifier = new_verifier (public_key_bytes key) (PFin 300);
          k = 7 + length pending
      in
      bind_res (demo_verify c clk 7 pending verifier) (\<lambda>(verdicts, verifier1).
      bind_res (if pending = [] then Inl IndexError else Inr (hd pending)) (\<lambda>first.
      case verify c (clk k) verifier1 first of (r1, verifier2) \<Rightarrow>
      bind_res r1 (\<lambda>replay.
      bind_res (int_of_float (clk (k + 1))) (\<lambda>ts.
      case verify c (clk (k + 2)) verifier2 (tampered_intent key ts (rands 6) first) of (r2, verifier3) \<Rightarrow>
      bind_res r2 (\<lambda>tampered.
      let key' = key_zeroize key in
      bind_res (sign_refused c key') (\<lambda>refused.
      bind_res (write_text (public_key_hex key')) (\<lambda>_.
      bind_res (from_json (to_json first)) (\<lambda>restored.
      bind_res (fst (verify c (clk (k + 3)) (new_verifier (public_key_bytes key') (PFin 300)) restored)) (\<lambda>round_trip.
        Inr \<lparr>d_pending = pending, d_verdicts = verdicts, d_seen = seen_count verifier1, d_replay = replay,
             d_tampered = tampered, d_sign_refused = refused, d_restored = restored, d_round_trip = round_trip,
             d_all_valid = list_all fst verdicts, d_replay_blocked = (\<not> fst tampered)\<rparr>)))))))))))"

section \<open>What the scenario computes\<close>

text \<open>Clock readings that lie less than a minute apart, between 60 and \<open>2\<^sup>5\<^sup>2\<close> seconds after the epoch.\<close>

definition steady :: "(nat \<Rightarrow> rat) \<Rightarrow> bool" where
  "steady n \<longleftrightarrow> (\<forall>k. is_double (n k) \<and> 60 < n k \<and> n k < 2 ^ 52) \<and> (\<forall>j k. \<bar>n j - n k\<bar> < 60)"

lemma steady_fresh:
  assumes "steady n" shows "fresh_at (PFin 300) (PFin (n k)) \<lfloor>n j\<rfloor>"
proof -
  have n: "is_double (n k)" "60 < n k" "n k < pow2 52" "60 < n j" "n j < 2 ^ 52" "\<bar>n j - n k\<bar> < 60"
    using assms by (simp_all add: steady_def pow2_def)
  have f: "of_int \<lfloor>n j\<rfloor> \<le> n j" "n j < of_int \<lfloor>n j\<rfloor> + 1" "0 \<le> \<lfloor>n j\<rfloor>" using n(4) by linarith+
  have "\<lfloor>n j\<rfloor> \<le> \<lfloor>2 ^ 52 :: rat\<rfloor>" using n(5) by (intro floor_mono) simp
  then have "\<bar>\<lfloor>n j\<rfloor>\<bar> \<le> 2 ^ 53" using f(3) by simp
  moreover have "- 60 \<le> n k - of_int \<lfloor>n j\<rfloor>" "n k - of_int \<lfloor>n j\<rfloor> \<le> 300" using f n(6) by linarith+
  ultimately show ?thesis using fresh_exact [OF n(1-3), of "\<lfloor>n j\<rfloor>" 300] f(3) by simp
qed

lemma fadd_fin_wf: "float_wf (fadd (PFin x) (PFin y))"
  by (simp add: fadd_def rnd_wf)

lemma coarse_band_float: "\<exists>b. coarse_band (PyFloat f) bands = Inr b"
  by (simp add: coarse_band_def Let_def)

text \<open>An intent the scenario builds with reading \<open>j\<close>.\<close>

definition good_intent :: "crypto \<Rightarrow> bytes \<Rightarrow> (nat \<Rightarrow> rat) \<Rightarrow> (nat \<Rightarrow> bytes) \<Rightarrow> nat \<Rightarrow> order_intent \<Rightarrow> bool" where
  "good_intent c seed n rands j i \<longleftrightarrow>
     verify_intent c i (ed25519_public c seed) = Inr True
     \<and> oi_signature i = hex_encode (ed25519_sign c seed (serialize_for_signing i)) \<and> oi_public_key_hash i = sha256_hex (ed25519_public c seed)
     \<and> oi_intent_id i = hex_encode (rands j) \<and> oi_timestamp i = \<lfloor>n j\<rfloor> \<and> all_floats i \<and> intent_wf i"

lemma demo_build_good:
  assumes "ed25519_correct c" "steady n" "list_all float_wf (ib_bands b)"
  shows "\<exists>is b'. demo_build c (new_signing_key c seed) (\<lambda>k. PFin (n k)) rands j sizes b = Inr b'
    \<and> ib_pending b' = ib_pending b @ is \<and> length is = length sizes
    \<and> (\<forall>k < length is. good_intent c seed n rands (j + k) (is ! k))"
  using assms(3)
proof (induction sizes arbitrary: j b)
  case (Cons x sizes)
  let ?key = "new_signing_key c seed"
  let ?stop = "fadd (PFin 59000) (PFin (of_nat (j * 200)))" and ?target = "fadd (PFin 61000) (PFin (of_nat (j * 200)))"
  let ?side = "if j mod 2 = 0 then 1 else - 1 :: int"
  obtain banded where "coarse_band (PyFloat x) (Some (ib_bands b)) = Inr banded" using coarse_band_float by blast
  moreover have "\<not> n j < 0" using assms(2) by (simp add: steady_def not_less order_trans [of 0 60] less_imp_le)
  ultimately obtain i where i: "build c ?key b ''BTCUSDT'' ?side (PyFloat x) (PyFloat ?stop) (PyFloat ?target) None (PFin (n j)) (rands j) = Inr i"
      "oi_timestamp i = \<lfloor>n j\<rfloor>"
    by (simp add: build_eq key_sign_def new_signing_key_def built_def del: fsub.simps)
  have g: "good_intent c seed n rands j i"
    using built_verifies [OF assms(1) i(1)] built_all_floats [OF i(1)] i(2)
      built_wf [OF i(1) Cons.prems fadd_fin_wf fadd_fin_wf] by (simp add: good_intent_def)
  obtain "is" b' where r: "demo_build c ?key (\<lambda>k. PFin (n k)) rands (Suc j) sizes (snd (enqueue i b)) = Inr b'"
      "ib_pending b' = ib_pending b @ i # is" "length is = length sizes"
      "\<forall>k < length is. good_intent c seed n rands (Suc j + k) (is ! k)"
    using Cons.IH [of "snd (enqueue i b)" "Suc j"] Cons.prems by (auto simp: enqueue_def)
  have "\<forall>k < length (i # is). good_intent c seed n rands (j + k) ((i # is) ! k)"
    using g r(4) by (auto simp: nth_Cons' less_Suc_eq_0_disj)
  then show ?case using i(1) r(1-3) by (intro exI [of _ "i # is"] exI [of _ b']) (simp del: fsub.simps)
qed simp

lemma demo_verify_good:
  assumes "\<And>k. k < length is \<Longrightarrow> good_intent c seed n rands (j + k) (is ! k)"
    and "steady n" "distinct (map oi_intent_id is)" "set (map oi_intent_id is) \<inter> iv_seen v = {}"
    and "iv_pubkey v = ed25519_public c seed" "iv_pubkey_hash v = sha256_hex (ed25519_public c seed)" "iv_max_age v = PFin 300"
  shows "demo_verify c (\<lambda>k. PFin (n k)) t is v =
    Inr (replicate (length is) (True, ROk), v\<lparr>iv_seen := set (map oi_intent_id is) \<union> iv_seen v\<rparr>)"
  using assms
proof (induction "is" arbitrary: j t v)
  case (Cons i "is")
  let ?v = "v\<lparr>iv_seen := insert (oi_intent_id i) (iv_seen v)\<rparr>"
  have i: "good_intent c seed n rands j i" using Cons.prems(1) [of 0] by simp
  have "verify c (PFin (n t)) v i = (Inr (True, ROk), ?v)"
    using i Cons.prems steady_fresh [OF assms(2), of t j] by (simp add: verify_fresh good_intent_def)
  moreover have "good_intent c seed n rands (Suc j + k) (is ! k)" if "k < length is" for k
    using Cons.prems(1) [of "Suc k"] that by simp
  then have "demo_verify c (\<lambda>k. PFin (n k)) (Suc t) is ?v =
      Inr (replicate (length is) (True, ROk), ?v\<lparr>iv_seen := set (map oi_intent_id is) \<union> iv_seen ?v\<rparr>)"
    using Cons.prems by (intro Cons.IH [of "Suc j"]) auto
  ultimately show ?case by simp
qed simp

lemma demo_ids:
  assumes "length is = m" "\<And>k. k < length is \<Longrightarrow> good_intent c seed n rands (0 + k) (is ! k)"
    and "distinct (map rands [0..<Suc m])"
  shows "distinct (map oi_intent_id is)" and "hex_encode (rands m) \<notin> set (map oi_intent_id is)"
    and "card (set (map oi_intent_id is)) = m"
proof -
  have ids: "map oi_intent_id is = map hex_encode (map rands [0..<m])"
    using assms(1,2) by (intro nth_equalityI) (simp_all add: good_intent_def)
  have inj: "inj_on hex_encode A" for A using hexc.inj_on_enc by (rule inj_on_subset) simp
  have "distinct (map hex_encode (map rands [0..<Suc m]))" using assms(3) inj by (simp only: distinct_map)
  then show d: "distinct (map oi_intent_id is)" and "hex_encode (rands m) \<notin> set (map oi_intent_id is)"
    unfolding ids by simp_all
  show "card (set (map oi_intent_id is)) = m" using distinct_card [OF d] assms(1) by simp
qed

lemma sign_refused_zeroized: "sign_refused c (key_zeroize key) = Inr True"
  by (simp add: sign_refused_def key_sign_zeroized)

lemma good_verify:
  assumes "good_intent c seed n rands j i" "steady n" "iv_pubkey v = ed25519_public c seed"
    "iv_pubkey_hash v = sha256_hex (ed25519_public c seed)" "iv_max_age v = PFin 300"
  shows "verify c (PFin (n t)) v i =
    (if hex_encode (rands j) \<in> iv_seen v then (Inr (False, RReplayed (hex_encode (rands j))), v)
     else (Inr (True, ROk), v\<lparr>iv_seen := insert (hex_encode (rands j)) (iv_seen v)\<rparr>))"
  using assms steady_fresh [OF assms(2), of t j] by (simp add: verify_fresh good_intent_def)

text \<open>The tampered intent is refused unless the signature of one text is accepted for another text.\<close>

lemma tampered_parts:
  "oi_timestamp (tampered_intent key ts random victim) = ts" "oi_intent_id (tampered_intent key ts random victim) = hex_encode random"
  "oi_public_key_hash (tampered_intent key ts random victim) = public_key_hash key"
  "oi_signature (tampered_intent key ts random victim) = oi_signature victim"
  by (simp_all add: tampered_intent_def new_nonce_def)

lemma tampered_text:
  assumes "intent_wf victim" "oi_intent_id victim \<noteq> hex_encode random"
  shows "serialize_for_signing victim \<noteq> serialize_for_signing (tampered_intent (new_signing_key c seed) ts random victim)"
proof
  let ?t = "tampered_intent (new_signing_key c seed) ts random victim"
  assume "serialize_for_signing victim = serialize_for_signing ?t"
  moreover have "CHR ''|'' \<notin> set (hex_encode b)" for b
    using hex_encode_chars [of "CHR ''|''" b] by (auto simp: hex_digits_def)
  then have "pipe_free ?t"
    by (simp add: pipe_free_def tampered_parts public_key_hash_def new_signing_key_def sha256_hex_def)
      (simp add: tampered_intent_def)
  moreover have "intent_wf ?t"
    using is_double_int [of 8] is_double_int [of 58000] is_double_int [of 65000] by (simp add: intent_wf_def tampered_intent_def)
  ultimately have "victim = ?t\<lparr>oi_signature := oi_signature victim\<rparr>" using assms(1) by (intro serialize_inj) simp_all
  then have "oi_intent_id victim = oi_intent_id (?t\<lparr>oi_signature := oi_signature victim\<rparr>)" by simp
  then show False using assms(2) by (simp add: tampered_parts)
qed

lemma tampered_verify:
  fixes j k :: nat
  assumes "ed25519_correct c" "ed25519_rejects c" "steady n"
    and "oi_signature victim = hex_encode (ed25519_sign c seed (serialize_for_signing victim))"
    and "iv_pubkey v = ed25519_public c seed" "iv_pubkey_hash v = sha256_hex (ed25519_public c seed)" "iv_max_age v = PFin 300"
    and "hex_encode random \<notin> iv_seen v"
  defines "t \<equiv> tampered_intent (new_signing_key c seed) \<lfloor>n j\<rfloor> random victim"
  shows "fst (verify c (PFin (n k)) v t) =
    Inr (if ed25519_verify c (ed25519_public c seed) (ed25519_sign c seed (serialize_for_signing victim)) (serialize_for_signing t) = Inr ()
         then (True, ROk) else (False, RSignature))"
proof -
  have t: "oi_timestamp t = \<lfloor>n j\<rfloor>" "oi_intent_id t = hex_encode random" "oi_public_key_hash t = sha256_hex (ed25519_public c seed)"
      "fromhex (oi_signature t) = Inr (ed25519_sign c seed (serialize_for_signing victim))"
    using assms(4) by (simp_all add: t_def tampered_parts hexc.dec_enc public_key_hash_def new_signing_key_def)
  have load: "ed25519_load c (ed25519_public c seed) = Inr (ed25519_public c seed)"
    using assms(1) by (simp add: ed25519_correct_def)
  have rej: "caught_by_verify e" if "ed25519_verify c pk s m = Inl e" for pk s m e
  proof -
    have "e = InvalidSignature" using assms(2) that unfolding ed25519_rejects_def by blast
    then show ?thesis by simp
  qed
  have "verify_intent c t (ed25519_public c seed) =
      Inr (ed25519_verify c (ed25519_public c seed) (ed25519_sign c seed (serialize_for_signing victim)) (serialize_for_signing t) = Inr ())"
    using rej by (auto simp: verify_intent_def load t(4) split: sum.split)
  then show ?thesis using assms t steady_fresh [OF assms(3), of k j] by (simp add: verify_fresh)
qed

section \<open>Properties\<close>

text \<open>
  C19. The scenario ends as its text announces, for any clock whose readings lie less than a minute apart
  (between 60 and \<open>2\<^sup>5\<^sup>2\<close> seconds after the epoch), any seven distinct identifiers and a file that can
  be written: six intents go out in one batch, all are accepted and remembered, the replay is
  refused as a replay, signing after zeroization raises, and the intent read back from its wire form
  is the original and is accepted by a fresh verifier. The tampered intent has another signed text
  than the first one, and it is refused for its signature unless Ed25519 accepts the first one's
  signature for that other text.
\<close>

theorem demo_succeeds:
  assumes "ed25519_correct c" "ed25519_rejects c" "steady n" "distinct (map rands [0..<7])" "\<And>t. write_text t = Inr ()"
  shows "\<exists>r. intent_main c seed rands (\<lambda>k. PFin (n k)) write_text = Inr r
    \<and> length (d_pending r) = 6 \<and> d_verdicts r = replicate 6 (True, ROk) \<and> d_seen r = 6
    \<and> d_replay r = (False, RReplayed (hex_encode (rands 0)))
    \<and> d_sign_refused r \<and> d_restored r = hd (d_pending r) \<and> d_round_trip r = (True, ROk) \<and> d_all_valid r
    \<and> (let first = hd (d_pending r); t = tampered_intent (new_signing_key c seed) \<lfloor>n 14\<rfloor> (rands 6) first in
         serialize_for_signing first \<noteq> serialize_for_signing t \<and>
         (d_tampered r = (False, RSignature) \<and> d_replay_blocked r \<or>
          ed25519_verify c (ed25519_public c seed) (ed25519_sign c seed (serialize_for_signing first)) (serialize_for_signing t) = Inr ()))"
proof -
  let ?key = "new_signing_key c seed" and ?pk = "ed25519_public c seed" and ?clk = "\<lambda>k. PFin (n k)"
  obtain "is" b where b: "demo_build c ?key ?clk rands 0 raw_sizes (new_builder (PFin 5) None) = Inr b"
      and p: "ib_pending b = is" "length is = 6"
      and g: "\<And>k. k < length is \<Longrightarrow> good_intent c seed n rands (0 + k) (is ! k)"
    using demo_build_good [OF assms(1,3), of "new_builder (PFin 5) None" seed rands 0 raw_sizes] bands_wf
    by (auto simp: new_builder_def raw_sizes_def bands_or_default_def)
  have d7: "distinct (map rands [0..<Suc 6])" using assms(4) by simp
  note ids = demo_ids [OF p(2) g d7]
  define v where "v = new_verifier ?pk (PFin 300)"
  define v1 where "v1 = v\<lparr>iv_seen := set (map oi_intent_id is)\<rparr>"
  have v: "iv_pubkey v = ?pk" "iv_pubkey_hash v = sha256_hex ?pk" "iv_max_age v = PFin 300" "iv_seen v = {}"
    by (simp_all add: v_def new_verifier_def)
  have emit: "fst (emit_batch (PFin (n 6), True) b) = is"
    using p by (simp add: emit_batch_def window_closed_def take_batch_def)
  obtain x xs where "is = x # xs" using p(2) by (cases "is") simp_all
  then have first: "is \<noteq> []" "good_intent c seed n rands 0 (hd is)" "hex_encode (rands 0) \<in> set (map oi_intent_id is)"
    using g [of 0] by (simp_all add: good_intent_def)
  have batch: "demo_verify c ?clk 7 is v = Inr (replicate 6 (True, ROk), v1)"
    using demo_verify_good [OF g assms(3) ids(1), of v 7] v p(2) by (simp add: v1_def)
  have replay: "verify c (?clk 13) v1 (hd is) = (Inr (False, RReplayed (hex_encode (rands 0))), v1)"
    using good_verify [OF first(2) assms(3), of v1 13] v first(3) by (simp add: v1_def)
  let ?t = "tampered_intent ?key \<lfloor>n 14\<rfloor> (rands 6) (hd is)"
  let ?ok = "ed25519_verify c ?pk (ed25519_sign c seed (serialize_for_signing (hd is))) (serialize_for_signing ?t) = Inr ()"
  have tampered: "fst (verify c (?clk 15) v1 ?t) = Inr (if ?ok then (True, ROk) else (False, RSignature))"
    using v ids(2) first(2) by (intro tampered_verify [OF assms(1-3)]) (simp_all add: v1_def good_intent_def)
  have differs: "serialize_for_signing (hd is) \<noteq> serialize_for_signing ?t"
    using ids(2) first by (intro tampered_text) (auto simp: good_intent_def)
  have round: "fst (verify c (?clk 16) v (hd is)) = Inr (True, ROk)"
    using good_verify [OF first(2) assms(3), of v 16] v by simp
  have ts: "int_of_float (?clk 14) = Inr \<lfloor>n 14\<rfloor>"
    using assms(3) less_trans [of 0 60 "n 14"] by (simp add: steady_def not_less [symmetric])
  have pub: "public_key_bytes ?key = ?pk" "public_key_bytes (key_zeroize ?key) = ?pk"
    by (simp_all add: public_key_bytes_def) (simp_all add: new_signing_key_def)
  have "from_json (to_json (hd is)) = Inr (hd is)" using first(2) by (simp add: good_intent_def from_json_roundtrip)
  then have "intent_main c seed rands ?clk write_text = Inr \<lparr>d_pending = is, d_verdicts = replicate 6 (True, ROk),
      d_seen = seen_count v1, d_replay = (False, RReplayed (hex_encode (rands 0))),
      d_tampered = (if ?ok then (True, ROk) else (False, RSignature)), d_sign_refused = True, d_restored = hd is,
      d_round_trip = (True, ROk), d_all_valid = True, d_replay_blocked = (\<not> ?ok)\<rparr>"
    using b emit batch replay tampered round ts first(1) p(2) assms(5)
    by (simp add: intent_main_def Let_def pub v_def [symmetric] sign_refused_zeroized case_prod_unfold list_all_iff del: int_of_float.simps)
  then show ?thesis using p(2) ids(3) differs by (simp add: seen_count_def v1_def Let_def)
qed

theorem demo_succeeds_witness:
  "\<exists>r. intent_main sample_crypto [1] (\<lambda>k. [of_nat k]) (\<lambda>k. PFin 1000) (\<lambda>t. Inr ()) = Inr r
    \<and> length (d_pending r) = 6 \<and> d_verdicts r = replicate 6 (True, ROk) \<and> d_seen r = 6
    \<and> d_replay r = (False, RReplayed (hex_encode [of_nat 0]))
    \<and> d_sign_refused r \<and> d_restored r = hd (d_pending r) \<and> d_round_trip r = (True, ROk) \<and> d_all_valid r
    \<and> (let first = hd (d_pending r); t = tampered_intent (new_signing_key sample_crypto [1]) \<lfloor>1000 :: rat\<rfloor> [of_nat 6] first in
         serialize_for_signing first \<noteq> serialize_for_signing t \<and>
         (d_tampered r = (False, RSignature) \<and> d_replay_blocked r \<or>
          ed25519_verify sample_crypto (ed25519_public sample_crypto [1])
            (ed25519_sign sample_crypto [1] (serialize_for_signing first)) (serialize_for_signing t) = Inr ()))"
proof (rule demo_succeeds [OF sample_ed25519 sample_ed25519_rejects])
  show "steady (\<lambda>k. 1000)" using is_double_int [of 1000] by (simp add: steady_def)
  show "distinct (map (\<lambda>k. [of_nat k :: byte]) [0..<7])" by (simp add: upt_rec)
qed simp

end
