(* ===== verification/Spec2Isabelle.thy ===== *)
theory Spec2Isabelle
  imports Bootstrap Krs_Selftest Krs_Threads Pqc_Objects Intent_Demo
begin

text \<open>
  A verification library for the confidential-computing environment under \<^verbatim>\<open>src/\<close>.

  \<^bold>\<open>The program.\<close> A trading strategy is sealed at build time and runs inside an AMD SEV-SNP virtual
  machine. \<^verbatim>\<open>src/src/cloud_protection.py\<close> boots the machine: it checks that the image is locked down,
  fetches an attestation report over fresh keys and a nonce, obtains the master key (in production
  from the key-release service, in development from a Nitrokey), decrypts the package and starts
  a monitor that wipes all keys when the attestation fails. \<^verbatim>\<open>src/src/krs_server.py\<close> is the key-release
  service: it verifies the report (\<^verbatim>\<open>src/src/snp_verify.py\<close>) and answers with the key, wrapped and
  signed by the hybrid constructions of \<^verbatim>\<open>src/src/hybrid.py\<close> over \<^verbatim>\<open>src/src/pqc.py\<close>.
  \<^verbatim>\<open>src/src/krs_client.py\<close> is its client, and \<^verbatim>\<open>src/src/krs_selftest.py\<close> drives the two against each
  other. \<^verbatim>\<open>src/src/rust_unwrap.py\<close> and \<^verbatim>\<open>src/key_unwrap/src/lib.rs\<close> open sealed files outside the
  Python heap. \<^verbatim>\<open>src/src/signed_order_intent.py\<close> is the way out of the machine: the strategy signs
  order intents, and an executor that knows only the public key verifies them.

  \<^bold>\<open>Foundations.\<close>
  \<^item> \<open>Prelude\<close>: byte strings, exceptions, results (\<open>Inl\<close> an exception, \<open>Inr\<close> a value), sequencing,
    slices, UTF-8, joining and splitting.
  \<^item> \<open>Codec\<close>: the locale \<open>codec\<close> (reading undoes writing) with hexadecimal, Base64, decimal and
    fixed-width integers as its interpretations.
  \<^item> \<open>Sha256\<close>: \<^verbatim>\<open>hashlib.sha256\<close>, executable, checked on a published vector.
  \<^item> \<open>Pyfloat\<close>, \<open>Pyrepr\<close>, \<open>Pyconv\<close>: Python floats as exact rationals with round-half-even, their
    shortest printing and correctly rounded reading (17 digits suffice, so the search of 17 attempts
    always ends with a result; the pair interprets \<open>codec\<close>), and \<^verbatim>\<open>str\<close>, \<^verbatim>\<open>int\<close>, \<^verbatim>\<open>float\<close>.
  \<^item> \<open>Json\<close>, \<open>Json_Text\<close>: decoded JSON values and the operations the program applies to them;
    \<^verbatim>\<open>json.dumps\<close> and \<^verbatim>\<open>json.loads\<close> on text, with the round trip as an interpretation of \<open>codec\<close>.
  \<^item> \<open>Crypto\<close>: the third-party cryptography as a record of parameters; the documented behaviour
    that round trips rely on are named predicates, and \<open>sample_crypto\<close> satisfies all of them.
  \<^item> \<open>Effects\<close>: sequencing of fallible steps that change a state, for the bootstrap.

  \<^bold>\<open>Key release.\<close>
  \<^item> \<open>Pqc\<close> (\<^verbatim>\<open>pqc.py\<close>), \<open>Hybrid\<close> (\<^verbatim>\<open>hybrid.py\<close>): framing, hybrid signatures, key wrap. Framing round-trips,
    unframing ends on every input within the input's size, a wrapped key unwraps.
  \<^item> \<open>Pqc_Objects\<close> (\<^verbatim>\<open>pqc.py\<close>): the native objects that the functions of \<^verbatim>\<open>pqc.py\<close> construct and free, and the
    life of \<^verbatim>\<open>KemPrivate\<close>. Over any sequence of calls no object is left, and the results are those of \<open>Pqc\<close>.
  \<^item> \<open>Snp_Verify\<close> (\<^verbatim>\<open>snp_verify.py\<close>): the ioctl buffers, the field parsers, the verifier and the locale \<open>attestation_gate\<close>; which reports
    are accepted, exactly.
  \<^item> \<open>Replay\<close>: the replay caches of \<^verbatim>\<open>krs_server.py\<close> and \<^verbatim>\<open>cloud_protection.py\<close> with the locales
    \<open>replay_guard\<close>, \<open>keeping_guard\<close> and \<open>bounded_guard\<close>; what they promise, and what a full cache forgets.
  \<^item> \<open>Krs_Server\<close> (\<^verbatim>\<open>krs_server.py\<close>): configuration, the handler, runs of requests. A released key means
    an attested request with a nonce that was not seen, and where each value of the answer comes from;
    every refusal looks the same.
  \<^item> \<open>Http\<close>: the bytes of requests and answers, with the standard library's reading of lines and
    header fields. A posted body and an answered body arrive unchanged.
  \<^item> \<open>Tls\<close>: the certificates that \<^verbatim>\<open>krs_selftest.py\<close> generates, the contexts that \<^verbatim>\<open>serve\<close> and
    \<^verbatim>\<open>KrsClient.__init__\<close> set up, and the verdict of each side of a handshake; the certificate package and
    OpenSSL are the record \<open>pki\<close> with the behaviour \<open>pki_correct\<close>, which \<open>sample_pki\<close> satisfies.
  \<^item> \<open>Krs_Serve\<close> (\<^verbatim>\<open>serve\<close>, \<^verbatim>\<open>_make_handler\<close>, \<^verbatim>\<open>main\<close>): from the command line to connections and answers. What
    a released key means for a server started in production, from the bytes of the request to those of
    the answer; only certified clients get in; a client
    that stays silent during the handshake stops the accept loop.
  \<^item> \<open>Krs_Threads\<close>: requests handled by threads as a step relation; it is linearizable, and no nonce is
    released twice.
  \<^item> \<open>Krs_Client\<close> (\<^verbatim>\<open>krs_client.py\<close>): URL, pins, context, sockets, \<^verbatim>\<open>release\<close>. Nothing is sent before the pin
    is checked, what the client returns is authentic, and client and server together deliver the key
    through the bytes they send, in whatever pieces these arrive; when the receive loop returns, and
    which socket it leaves open.
  \<^item> \<open>Krs_Selftest\<close> (\<^verbatim>\<open>krs_selftest.py\<close>): certificates, server and the loopback scenario, which ends with
    exit code 0.

  \<^bold>\<open>The protected machine\<close> (\<^verbatim>\<open>cloud_protection.py\<close>, \<^verbatim>\<open>rust_unwrap.py\<close>, \<^verbatim>\<open>lib.rs\<close>).
  \<^item> \<open>Protected_Memory\<close>: the C library's handle, \<^verbatim>\<open>mlockall\<close>, locked buffers in an address space; the locale \<open>secret_buffers\<close>.
  \<^item> \<open>Sealing\<close>: sealed files, the Rust function and its binding, \<^verbatim>\<open>decrypt_package\<close>; the locale
    \<open>blob_opener\<close> joins the two ways of opening, which are shown equivalent and in bounds. A failed write
    may leave part of a file.
  \<^item> \<open>Attestation\<close>: detection, report fetch, Nitrokey, master key, lockdown checks.
  \<^item> \<open>Process\<close>: zeroizer and monitor, as methods and as a step relation (\<open>guard_step\<close>) in which the monitor thread,
    nested signal handlers, buffer-by-buffer wiping, other threads' writes and every end of the process
    interleave. An end through \<^verbatim>\<open>terminate\<close> leaves zeros, except where another thread wrote meanwhile; the
    uninterrupted steps refine the methods; the other ends wipe nothing.
  \<^item> \<open>Bootstrap\<close>: \<^verbatim>\<open>bootstrap\<close> and \<^verbatim>\<open>main\<close> on all paths; what success guarantees and what it
    does not (locked pages, and keys that stay when \<^verbatim>\<open>main\<close> returns), that a failure leaves no key, and that the production path cannot succeed.

  \<^bold>\<open>Order intents\<close> (\<^verbatim>\<open>signed_order_intent.py\<close>).
  \<^item> \<open>Order_Intent\<close>: banding with float arithmetic (the nearest band up to \<open>2\<^sup>6\<^sup>2\<close>, the smallest one from
    \<open>2\<^sup>6\<^sup>5\<close>), the schema and its wire form, the signing key, the signed text and when it is unambiguous.
  \<^item> \<open>Intent_Queue\<close>: the builder; the locale \<open>batch_queue\<close> with the sequential operations as its
    interpretation; threads that share a builder as a step relation that refines an abstract queue,
    and the race of the emission window.
  \<^item> \<open>Intent_Verifier\<close>: the executor's checks, interpreted as a \<open>keeping_guard\<close>; exact acceptance, exact
    freshness window, no identifier twice, and what the order of the checks costs.
  \<^item> \<open>Intent_Demo\<close>: the scenario of \<^verbatim>\<open>main\<close>, end to end.

  \<^bold>\<open>Bounds.\<close> The client's receive loop may run for ever; it is a partial function over an endless
  supply of received pieces, and \<open>recv_stream_iff\<close> says when it returns; \<^verbatim>\<open>release\<close> uses it on connections
  that end. The other loops are structural recursions or have a measure (\<open>unframe_loop\<close>, \<open>scan_str\<close>, \<open>read_lines\<close>). There
  are two kinds of fuel: the number of digits tried when a float is printed, where 17 is proved to be
  enough, and the fuel of the JSON parser, twice the length of the text plus one, which \<open>loads_fuel\<close>
  shows never runs out. Sequences of
  requests, verifications, monitor rounds and clock readings are lists or functions of any length.

  \<^bold>\<open>Not modelled.\<close> Time limits of sockets, the TLS record layer and the proof of possession in a
  handshake, argument parsing and logging; the detection of encodings by \<^verbatim>\<open>json.loads\<close> on bytes, which is
  a parameter (\<open>reads_dumps\<close> is what is used of it); continuation lines of HTTP headers and the error
  pages of the library; the constants of \<^verbatim>\<open>cloud_protection.py\<close> that nothing uses; the packages \<^verbatim>\<open>cryptography\<close>,
  \<^verbatim>\<open>oqs\<close> and the Rust crates, the kernel and the \<^verbatim>\<open>snpguest\<close> tool, which are parameters; code points
  above 255; the interpreter's limit on the digits of converted integers; \<^verbatim>\<open>src/key_unwrap/build.sh\<close>
  and the documents, which are only compared with the code.
\<close>

end
